(* ===== verification/Go_Prelude.thy ===== *)
theory Go_Prelude
  imports Complex_Main
    "HOL-Library.AList" "HOL-Library.Char_ord" "HOL-Library.List_Lexorder"
    "HOL-Library.Signed_Division" "HOL-Library.Sublist"
begin

text \<open>
  The part of Go and of its standard library that the components share.

  \<^item> Types: a Go \<open>time.Duration\<close> (an \<open>int64\<close> of nanoseconds) is an \<open>int\<close>, with the signed
    64-bit wrap-around written out by \<open>wrap64\<close> where the code multiplies or adds durations; a
    \<open>time.Time\<close> is the \<open>int\<close> of nanoseconds since Go's zero time, so that \<open>IsZero\<close> is
    equality with 0; a \<open>float64\<close> is an exact rational (rounding, infinities and NaN are not
    modelled); a \<open>string\<close> is a list of bytes.
  \<^item> Package \<open>strings\<close>: \<open>HasPrefix\<close>, \<open>HasSuffix\<close>, \<open>Contains\<close>, \<open>LastIndex\<close>, \<open>Split\<close>,
    \<open>Join\<close>, \<open>TrimSpace\<close>, \<open>ToLower\<close>, \<open>ToUpper\<close>, \<open>EqualFold\<close>; the case and space
    functions are exact on ASCII text. \<open>strconv.Itoa\<close> and the verb \<open>%d\<close> are \<open>itoa\<close>.
  \<^item> Go maps that the code ranges over are association lists with distinct keys (one iteration
    order), with the interface as the locale \<open>go_map\<close>; maps that are only looked up are
    functions into \<open>option\<close>.
\<close>

section \<open>Collections of facts\<close>

named_theorems go_defs "definitions of the standard-library model"
named_theorems key_inj "injectivity of composed map keys"

section \<open>Types and machine integers\<close>

type_synonym duration = int
type_synonym gotime = int
type_synonym float64 = rat

abbreviation Millisecond :: duration where "Millisecond \<equiv> 1000000"
abbreviation Second :: duration where "Second \<equiv> 1000000000"
abbreviation Minute :: duration where "Minute \<equiv> 60000000000"
abbreviation Hour :: duration where "Hour \<equiv> 3600000000000"

definition wrap64 :: "int \<Rightarrow> int" where
  "wrap64 x = (x + 2 ^ 63) mod 2 ^ 64 - 2 ^ 63"

lemma wrap64_id: "- (2 ^ 63) \<le> x \<Longrightarrow> x < 2 ^ 63 \<Longrightarrow> wrap64 x = x"
  by (simp add: wrap64_def)

lemma wrap64_range: "- (2 ^ 63) \<le> wrap64 x \<and> wrap64 x < 2 ^ 63"
  using pos_mod_bound [of "2 ^ 64" "x + 2 ^ 63"] pos_mod_sign [of "2 ^ 64" "x + 2 ^ 63"]
  by (simp add: wrap64_def)

lemma wrap64_mod: "wrap64 x mod 2 ^ 64 = x mod 2 ^ 64"
proof -
  have "wrap64 x mod 2 ^ 64 = ((x + 2 ^ 63) mod 2 ^ 64 - 2 ^ 63) mod 2 ^ 64"
    by (simp add: wrap64_def)
  also have "\<dots> = (x + 2 ^ 63 - 2 ^ 63) mod 2 ^ 64"
    by (rule mod_diff_left_eq)
  finally show ?thesis by simp
qed

lemma wrap64_cong: "x mod 2 ^ 64 = y mod 2 ^ 64 \<Longrightarrow> wrap64 x = wrap64 y"
  unfolding wrap64_def by (metis mod_add_left_eq)

lemma wrap64_mult2: "wrap64 (wrap64 x * 2) = wrap64 (x * 2)"
  by (rule wrap64_cong) (metis mod_mult_left_eq wrap64_mod)

lemma wrap64_add_left: "wrap64 (wrap64 x + y) = wrap64 (x + y)"
  by (rule wrap64_cong) (metis mod_add_left_eq wrap64_mod)

text \<open>\<open>Time.Sub\<close> saturates at the bounds of a duration.\<close>

definition time_sub :: "gotime \<Rightarrow> gotime \<Rightarrow> duration" where
  "time_sub t u = max (- (2 ^ 63)) (min (2 ^ 63 - 1) (t - u))"

lemma time_sub_exact: "\<bar>t - u\<bar> < 2 ^ 63 \<Longrightarrow> time_sub t u = t - u"
  by (auto simp: time_sub_def)

definition IsZero :: "gotime \<Rightarrow> bool" where
  "IsZero t \<longleftrightarrow> t = 0"

text \<open>\<open>Duration.Seconds\<close> and \<open>Duration.Milliseconds\<close> (the latter truncates toward zero).\<close>

definition seconds :: "duration \<Rightarrow> float64" where
  "seconds d = of_int d / 1000000000"

definition milliseconds :: "duration \<Rightarrow> int" where
  "milliseconds d = d sdiv Millisecond"

definition truncate_float :: "float64 \<Rightarrow> int" where
  "truncate_float x = (if 0 \<le> x then \<lfloor>x\<rfloor> else \<lceil>x\<rceil>)"

section \<open>Strings\<close>

definition HasPrefix :: "string \<Rightarrow> string \<Rightarrow> bool" where
  "HasPrefix s p \<longleftrightarrow> take (length p) s = p"

definition HasSuffix :: "string \<Rightarrow> string \<Rightarrow> bool" where
  "HasSuffix s p \<longleftrightarrow> length p \<le> length s \<and> drop (length s - length p) s = p"

fun Contains :: "string \<Rightarrow> string \<Rightarrow> bool" where
  "Contains [] t = (t = [])"
| "Contains (c # s) t = (HasPrefix (c # s) t \<or> Contains s t)"

lemma HasPrefix_iff: "HasPrefix s p \<longleftrightarrow> prefix p s"
  unfolding HasPrefix_def by (metis append_take_drop_id append_eq_conv_conj prefix_def)

lemma HasSuffix_iff: "HasSuffix s p \<longleftrightarrow> suffix p s"
  by (auto simp: HasSuffix_def suffix_def)
     (metis append_take_drop_id)

lemma Contains_iff: "Contains s t \<longleftrightarrow> sublist t s"
  by (induction s) (auto simp: HasPrefix_iff sublist_Cons_right)

fun LastIndex :: "string \<Rightarrow> char \<Rightarrow> nat option" where
  "LastIndex [] c = None"
| "LastIndex (x # s) c =
     (case LastIndex s c of Some i \<Rightarrow> Some (Suc i)
      | None \<Rightarrow> if x = c then Some 0 else None)"

lemma LastIndex_None: "LastIndex s c = None \<longleftrightarrow> c \<notin> set s"
  by (induction s) (auto split: option.splits)

lemma LastIndex_append: "c \<notin> set t \<Longrightarrow> LastIndex (s @ c # t) c = Some (length s)"
  by (induction s) (auto simp: LastIndex_None [THEN iffD2])

lemma LastIndex_Some:
  "LastIndex s c = Some i \<Longrightarrow> i < length s \<and> s = take i s @ c # drop (Suc i) s \<and> c \<notin> set (drop (Suc i) s)"
  by (induction s arbitrary: i) (auto simp: LastIndex_None split: option.splits if_splits)

fun Split :: "char \<Rightarrow> string \<Rightarrow> string list" where
  "Split c [] = [[]]"
| "Split c (x # s) =
     (if x = c then [] # Split c s
      else (case Split c s of [] \<Rightarrow> [[x]] | w # ws \<Rightarrow> (x # w) # ws))"

fun Join :: "string list \<Rightarrow> string \<Rightarrow> string" where
  "Join [] sep = []"
| "Join [s] sep = s"
| "Join (s # t # ts) sep = s @ sep @ Join (t # ts) sep"

lemma Split_nonempty [simp]: "Split c s \<noteq> []"
  by (induction s) (auto split: list.splits)

lemma Split_no_sep: "w \<in> set (Split c s) \<Longrightarrow> c \<notin> set w"
  by (induction s arbitrary: w) (auto split: list.splits if_splits)

lemma Join_Cons: "ts \<noteq> [] \<Longrightarrow> Join (s # ts) sep = s @ sep @ Join ts sep"
  by (cases ts) auto

lemma Join_hd_Cons: "Join ((x # w) # ws) sep = x # Join (w # ws) sep"
  by (cases ws) auto

lemma Join_Split: "Join (Split c s) [c] = s"
  by (induction s) (auto simp: Join_Cons Join_hd_Cons split: list.splits)

definition is_space :: "char \<Rightarrow> bool" where
  "is_space c \<longleftrightarrow> c \<in> {CHR 9, CHR 10, CHR 11, CHR 12, CHR 13, CHR '' ''}"

definition TrimSpace :: "string \<Rightarrow> string" where
  "TrimSpace s = rev (dropWhile is_space (rev (dropWhile is_space s)))"

lemma TrimSpace_ends:
  "TrimSpace s \<noteq> [] \<Longrightarrow> \<not> is_space (hd (TrimSpace s)) \<and> \<not> is_space (last (TrimSpace s))"
proof -
  assume ne: "TrimSpace s \<noteq> []"
  let ?t = "dropWhile is_space s"
  have "prefix (TrimSpace s) ?t"
    unfolding TrimSpace_def by (metis rev_rev_ident suffix_dropWhile suffix_to_prefix)
  then obtain u where u: "?t = TrimSpace s @ u" by (auto simp: prefix_def)
  from u ne have "hd (TrimSpace s) = hd ?t" by (metis hd_append2)
  moreover from u ne have "?t \<noteq> []" by (metis append_is_Nil_conv)
  moreover from \<open>?t \<noteq> []\<close> have "\<not> is_space (hd ?t)"
    by (rule hd_dropWhile)
  moreover have "dropWhile is_space (rev ?t) \<noteq> []"
    using ne by (simp add: TrimSpace_def)
  then have "\<not> is_space (last (TrimSpace s))"
    unfolding TrimSpace_def last_rev by (rule hd_dropWhile)
  ultimately show ?thesis by simp
qed

lemma TrimSpace_id: "TrimSpace (TrimSpace s) = TrimSpace s"
proof (cases "TrimSpace s = []")
  case False
  then have h: "\<not> is_space (hd (TrimSpace s))" and l: "\<not> is_space (last (TrimSpace s))"
    using TrimSpace_ends by blast+
  have "dropWhile is_space (TrimSpace s) = TrimSpace s"
    using False h by (cases "TrimSpace s") auto
  moreover have "dropWhile is_space (rev (TrimSpace s)) = rev (TrimSpace s)"
    using False l by (cases "TrimSpace s" rule: rev_cases) auto
  ultimately show ?thesis by (subst (1) TrimSpace_def) simp
next
  case True
  then show ?thesis by (simp only:) (simp add: TrimSpace_def)
qed

definition lower_char :: "char \<Rightarrow> char" where
  "lower_char c = (if CHR ''A'' \<le> c \<and> c \<le> CHR ''Z'' then char_of (of_char c + 32 :: nat) else c)"

definition upper_char :: "char \<Rightarrow> char" where
  "upper_char c = (if CHR ''a'' \<le> c \<and> c \<le> CHR ''z'' then char_of (of_char c - 32 :: nat) else c)"

definition ToLower :: "string \<Rightarrow> string" where
  "ToLower s = map lower_char s"

definition ToUpper :: "string \<Rightarrow> string" where
  "ToUpper s = map upper_char s"

definition EqualFold :: "string \<Rightarrow> string \<Rightarrow> bool" where
  "EqualFold s t \<longleftrightarrow> ToLower s = ToLower t"

subsection \<open>Decimal numbers\<close>

definition digit :: "nat \<Rightarrow> char" where
  "digit d = char_of (48 + d)"

fun utoa :: "nat \<Rightarrow> string" where
  "utoa n = (if n < 10 then [digit n] else utoa (n div 10) @ [digit (n mod 10)])"

declare utoa.simps [simp del]

definition itoa :: "int \<Rightarrow> string" where
  "itoa i = (if i < 0 then CHR ''-'' # utoa (nat (- i)) else utoa (nat i))"

definition digit_val :: "char \<Rightarrow> nat" where
  "digit_val c = of_char c - 48"

definition atou :: "string \<Rightarrow> nat" where
  "atou s = foldl (\<lambda>a c. a * 10 + digit_val c) 0 s"

lemma digit_val_digit [simp]: "d < 10 \<Longrightarrow> digit_val (digit d) = d"
  by (simp add: digit_val_def digit_def)

lemma digit_range: "d < 10 \<Longrightarrow> of_char (digit d) = (48 + d :: nat)"
  by (simp add: digit_def)

lemma atou_utoa: "atou (utoa n) = n"
proof (induction n rule: utoa.induct)
  case (1 n)
  then show ?case by (subst utoa.simps) (simp add: atou_def)
qed

lemma utoa_inj: "utoa m = utoa n \<Longrightarrow> m = n"
  by (metis atou_utoa)

lemma utoa_digits: "c \<in> set (utoa n) \<Longrightarrow> (48::nat) \<le> of_char c \<and> of_char c < (58::nat)"
proof (induction n rule: utoa.induct)
  case (1 n)
  then show ?case
    by (subst (asm) (2) utoa.simps) (auto simp: digit_range split: if_splits)
qed

lemma utoa_no_colon: "CHR '':'' \<notin> set (utoa n)"
  using utoa_digits [of "CHR '':''" n] by auto

text \<open>The verb \<open>%.nf\<close>: \<open>n\<close> decimals, rounded to the nearest, ties to even.\<close>

definition round_half_even :: "rat \<Rightarrow> int" where
  "round_half_even x =
     (let n = \<lfloor>x\<rfloor>; d = x - of_int n
      in if d < 1 / 2 then n else if d > 1 / 2 then n + 1 else if even n then n else n + 1)"

definition padded :: "nat \<Rightarrow> string \<Rightarrow> string" where
  "padded w s = replicate (w - length s) CHR ''0'' @ s"

definition fmt_fixed :: "nat \<Rightarrow> float64 \<Rightarrow> string" where
  "fmt_fixed p x =
     (let n = nat (round_half_even (\<bar>x\<bar> * 10 ^ p))
      in (if x < 0 then ''-'' else '''') @ utoa (n div 10 ^ p) @ ''.'' @ padded p (utoa (n mod 10 ^ p)))"

subsection \<open>Composed keys\<close>

text \<open>A key \<open>a + ":" + b\<close> determines both parts when one of them has no colon.\<close>

lemma key_first_inj [key_inj]:
  assumes "a @ CHR '':'' # b = a' @ CHR '':'' # b'"
    and "CHR '':'' \<notin> set a" and "CHR '':'' \<notin> set a'"
  shows "a = a' \<and> b = b'"
proof -
  let ?P = "\<lambda>c. c \<noteq> CHR '':''"
  have t: "takeWhile ?P (a @ CHR '':'' # b) = a" if "CHR '':'' \<notin> set a" for a b
    using that by (subst takeWhile_append2) auto
  from assms have "a = a'" using t [of a b] t [of a' b'] by simp
  with assms(1) show ?thesis by simp
qed

lemma key_last_inj [key_inj]:
  assumes "a @ CHR '':'' # b = a' @ CHR '':'' # b'"
    and "CHR '':'' \<notin> set b" and "CHR '':'' \<notin> set b'"
  shows "a = a' \<and> b = b'"
proof -
  from assms(1) have "rev b @ CHR '':'' # rev a = rev b' @ CHR '':'' # rev a'"
    by (metis append.assoc append_Cons append_Nil rev.simps(2) rev_append)
  from key_first_inj [OF this] assms(2,3) show ?thesis by simp
qed

section \<open>Maps\<close>

text \<open>
  The contract of a Go map that is ranged over: \<open>put\<close> is \<open>m[k] = v\<close>, \<open>del\<close> is
  \<open>delete(m, k)\<close> and \<open>keys\<close> is an iteration order.
\<close>

locale go_map =
  fixes lookup :: "'m \<Rightarrow> 'k \<Rightarrow> 'v option"
    and put :: "'k \<Rightarrow> 'v \<Rightarrow> 'm \<Rightarrow> 'm"
    and del :: "'k \<Rightarrow> 'm \<Rightarrow> 'm"
    and keys :: "'m \<Rightarrow> 'k list"
    and ok :: "'m \<Rightarrow> bool"
  assumes lookup_put: "lookup (put k v m) = (lookup m)(k \<mapsto> v)"
    and lookup_del: "lookup (del k m) = (lookup m)(k := None)"
    and ok_put: "ok m \<Longrightarrow> ok (put k v m)"
    and ok_del: "ok m \<Longrightarrow> ok (del k m)"
    and set_keys: "set (keys m) = dom (lookup m)"
    and distinct_keys: "ok m \<Longrightarrow> distinct (keys m)"
begin

text \<open>A loop that stores every pair of a second map: later pairs win.\<close>

lemma lookup_put_all:
  "lookup (fold (\<lambda>(k, v). put k (f k v)) kvs m) =
     lookup m ++ map_of (rev (map (\<lambda>(k, v). (k, f k v)) kvs))"
  by (induction kvs arbitrary: m) (auto simp: lookup_put map_add_def fun_eq_iff split: option.splits)

lemma ok_put_all: "ok m \<Longrightarrow> ok (fold (\<lambda>(k, v). put k (f k v)) kvs m)"
  by (induction kvs arbitrary: m) (auto simp: ok_put)

lemma lookup_del_all: "lookup (fold del ks m) = (\<lambda>k. if k \<in> set ks then None else lookup m k)"
  by (induction ks arbitrary: m) (auto simp: lookup_del fun_eq_iff)

lemma ok_del_all: "ok m \<Longrightarrow> ok (fold del ks m)"
  by (induction ks arbitrary: m) (auto simp: ok_del)

lemma length_keys: "ok m \<Longrightarrow> length (keys m) = card (dom (lookup m))"
  using distinct_card [OF distinct_keys] by (simp add: set_keys)

end

type_synonym ('k, 'v) gomap = "('k \<times> 'v) list"

definition gokeys :: "('k, 'v) gomap \<Rightarrow> 'k list" where
  "gokeys m = map fst m"

definition gomap_ok :: "('k, 'v) gomap \<Rightarrow> bool" where
  "gomap_ok m \<longleftrightarrow> distinct (map fst m)"

interpretation gm: go_map map_of AList.update AList.delete gokeys gomap_ok
proof (unfold_locales, goal_cases)
  case (1 k v m) show ?case by (simp add: update_conv')
next
  case (2 k m) show ?case by (simp add: delete_conv')
next
  case (3 m k v) then show ?case by (simp add: gomap_ok_def distinct_update)
next
  case (4 m k) then show ?case by (simp add: gomap_ok_def distinct_delete)
next
  case (5 m) show ?case by (simp add: gokeys_def dom_map_of_conv_image_fst)
next
  case (6 m) then show ?case by (simp add: gomap_ok_def gokeys_def)
qed

lemma gomap_ok_Nil [simp]: "gomap_ok []"
  by (simp add: gomap_ok_def)

text \<open>The zero value a Go lookup yields for an absent key.\<close>

definition get_or :: "'v \<Rightarrow> ('k \<Rightarrow> 'v option) \<Rightarrow> 'k \<Rightarrow> 'v" where
  "get_or z m k = (case m k of None \<Rightarrow> z | Some v \<Rightarrow> v)"

lemma get_or_upd [simp]: "get_or z (m(k \<mapsto> v)) k' = (if k' = k then v else get_or z m k')"
  by (simp add: get_or_def)

lemma get_or_del [simp]: "get_or z (m(k := None)) k' = (if k' = k then z else get_or z m k')"
  by (simp add: get_or_def)

lemma get_or_empty [simp]: "get_or z Map.empty k = z"
  by (simp add: get_or_def)

section \<open>Lists\<close>

definition lastn :: "nat \<Rightarrow> 'a list \<Rightarrow> 'a list" where
  "lastn n xs = drop (length xs - n) xs"

lemma length_lastn [simp]: "length (lastn n xs) = min n (length xs)"
  by (simp add: lastn_def)

lemma lastn_id: "length xs \<le> n \<Longrightarrow> lastn n xs = xs"
  by (simp add: lastn_def)

lemma lastn_snoc: "0 < n \<Longrightarrow> lastn n (lastn n xs @ [x]) = lastn n (xs @ [x])"
  by (cases "length xs \<le> n") (auto simp: lastn_def drop_drop Suc_diff_le)

lemma lastn_snoc_full: "length xs = n \<Longrightarrow> 0 < n \<Longrightarrow> lastn n (xs @ [x]) = tl xs @ [x]"
  by (cases xs) (auto simp: lastn_def)

lemma last_lastn: "xs \<noteq> [] \<Longrightarrow> 0 < n \<Longrightarrow> last (lastn n xs) = last xs"
  by (simp add: lastn_def)

lemma find_outside: "find (\<lambda>x. x \<notin> A) xs = None \<longleftrightarrow> set xs \<subseteq> A"
  by (auto simp: find_None_iff)

lemma takeWhile_all_conv: "takeWhile P (rev (xs @ [x])) = (if P x then x # takeWhile P (rev xs) else [])"
  by simp

lemmas [go_defs] = HasPrefix_def HasSuffix_def TrimSpace_def ToLower_def EqualFold_def
  lower_char_def is_space_def get_or_def itoa_def

section \<open>Dates\<close>

text \<open>
  \<open>Time.Format\<close> for the two layouts the code uses, in UTC: the proleptic Gregorian date of a
  number of days since 1 January of year 1 (day 306 of the year that begins on 1 March of year 0).
\<close>

definition civil :: "int \<Rightarrow> int \<times> int \<times> int" where
  "civil days =
     (let z = days + 306; era = z div 146097; doe = z mod 146097;
          yoe = (doe - doe div 1460 + doe div 36524 - doe div 146096) div 365;
          doy = doe - (365 * yoe + yoe div 4 - yoe div 100);
          mp = (5 * doy + 2) div 153;
          d = doy - (153 * mp + 2) div 5 + 1;
          m = (if mp < 10 then mp + 3 else mp - 9)
      in (yoe + era * 400 + (if m \<le> 2 then 1 else 0), m, d))"

definition FormatDate :: "gotime \<Rightarrow> string" where
  "FormatDate t =
     (case civil (t div (24 * Hour)) of
        (y, m, d) \<Rightarrow> padded 4 (itoa y) @ ''-'' @ padded 2 (itoa m) @ ''-'' @ padded 2 (itoa d))"

definition FormatRFC3339 :: "gotime \<Rightarrow> string" where
  "FormatRFC3339 t =
     (let s = (t mod (24 * Hour)) div Second
      in FormatDate t @ ''T'' @ padded 2 (itoa (s div 3600)) @ '':'' @ padded 2 (itoa (s mod 3600 div 60))
         @ '':'' @ padded 2 (itoa (s mod 60)) @ ''Z'')"

section \<open>Streaks\<close>

text \<open>The number of elements at the end of a list that satisfy a predicate.\<close>

definition trailing :: "('a \<Rightarrow> bool) \<Rightarrow> 'a list \<Rightarrow> nat" where
  "trailing P xs = length (takeWhile P (rev xs))"

lemma trailing_Nil [simp]: "trailing P [] = 0"
  by (simp add: trailing_def)

lemma trailing_snoc [simp]: "trailing P (xs @ [x]) = (if P x then Suc (trailing P xs) else 0)"
  by (simp add: trailing_def)

lemma trailing_all: "list_all P xs \<Longrightarrow> trailing P xs = length xs"
  by (induction xs rule: rev_induct) auto

lemma trailing_le: "trailing P xs \<le> length xs"
  unfolding trailing_def by (metis length_rev length_takeWhile_le)

text \<open>
  The contract of a counter of consecutive bad outcomes: an event that concerns the counter adds
  one or resets it, every other event leaves it alone.
\<close>

locale streak =
  fixes step :: "'e \<Rightarrow> 's \<Rightarrow> 's"
    and concerns :: "'e \<Rightarrow> bool"
    and bad :: "'e \<Rightarrow> bool"
    and count :: "'s \<Rightarrow> int"
    and ok :: "'s \<Rightarrow> bool"
  assumes ok_step: "ok s \<Longrightarrow> ok (step e s)"
    and count_bad: "ok s \<Longrightarrow> concerns e \<Longrightarrow> bad e \<Longrightarrow> count (step e s) = count s + 1"
    and count_good: "ok s \<Longrightarrow> concerns e \<Longrightarrow> \<not> bad e \<Longrightarrow> count (step e s) = 0"
    and count_other: "ok s \<Longrightarrow> \<not> concerns e \<Longrightarrow> count (step e s) = count s"
begin

lemma ok_run: "ok s \<Longrightarrow> ok (fold step es s)"
  by (induction es arbitrary: s) (auto simp: ok_step)

lemma count_run:
  assumes "ok s"
  shows "count (fold step es s) =
    int (trailing bad (filter concerns es)) + (if list_all bad (filter concerns es) then count s else 0)"
proof (induction es rule: rev_induct)
  case (snoc e es)
  have "ok (fold step es s)" using assms by (rule ok_run)
  with snoc show ?case
    by (cases "concerns e"; cases "bad e") (auto simp: count_bad count_good count_other)
qed simp

lemma count_run_zero:
  assumes "ok s" "count s = 0"
  shows "count (fold step es s) = int (trailing bad (filter concerns es))"
  using count_run [OF assms(1)] assms(2) by simp

text \<open>The counter reaches a threshold exactly when that many last outcomes were bad.\<close>

lemma count_ge_iff:
  assumes "ok s" "count s = 0" "0 < k"
  shows "int k \<le> count (fold step es s) \<longleftrightarrow>
    k \<le> length (filter concerns es) \<and> list_all bad (lastn k (filter concerns es))"
proof -
  have "k \<le> trailing bad xs \<longleftrightarrow> k \<le> length xs \<and> list_all bad (lastn k xs)" for xs
  proof (induction xs arbitrary: k rule: rev_induct)
    case (snoc x xs)
    then show ?case
      by (cases k) (auto simp: lastn_def Suc_diff_le)
  qed (auto simp: lastn_def)
  with count_run_zero [OF assms(1,2)] show ?thesis by simp
qed

end

section \<open>Compact dates\<close>

text \<open>The layout \<open>20060102\<close>, formatted and parsed; parsing checks the ranges of month and day.\<close>

definition is_leap :: "int \<Rightarrow> bool" where
  "is_leap y \<longleftrightarrow> y mod 4 = 0 \<and> (y mod 100 \<noteq> 0 \<or> y mod 400 = 0)"

definition days_in_month :: "int \<Rightarrow> int \<Rightarrow> int" where
  "days_in_month y m =
     (if m = 2 then (if is_leap y then 29 else 28) else if m \<in> {4, 6, 9, 11} then 30 else 31)"

definition days_from_civil :: "int \<Rightarrow> int \<Rightarrow> int \<Rightarrow> int" where
  "days_from_civil y m d =
     (let y' = (if m \<le> 2 then y - 1 else y); era = y' div 400; yoe = y' mod 400;
          doy = (153 * ((m + 9) mod 12) + 2) div 5 + d - 1;
          doe = yoe * 365 + yoe div 4 - yoe div 100 + doy
      in era * 146097 + doe - 306)"

definition FormatDate8 :: "gotime \<Rightarrow> string" where
  "FormatDate8 t =
     (case civil (t div (24 * Hour)) of (y, m, d) \<Rightarrow> padded 4 (itoa y) @ padded 2 (itoa m) @ padded 2 (itoa d))"

definition ParseDate8 :: "string \<Rightarrow> gotime option" where
  "ParseDate8 s =
     (if length s = 8 \<and> list_all (\<lambda>c. CHR ''0'' \<le> c \<and> c \<le> CHR ''9'') s
      then (let y = int (atou (take 4 s)); m = int (atou (take 2 (drop 4 s))); d = int (atou (drop 6 s))
            in if 1 \<le> m \<and> m \<le> 12 \<and> 1 \<le> d \<and> d \<le> days_in_month y m
               then Some (days_from_civil y m d * (24 * Hour)) else None)
      else None)"

end
