(* ===== verification/Config_Data.thy ===== *)
theory Config_Data
  imports Go_Prelude
begin

text \<open>
  The data of check definitions: the structs of \<open>internal/config/checks.go\<close> as records (a Go
  pointer is an \<open>option\<close>) and the errors of the package as the constructors of
  \<open>config_error\<close>, one per \<open>fmt.Errorf\<close> call, with its arguments. \<open>url.Parse\<close>,
  \<open>netip.ParsePrefix\<close>, \<open>regexp.Compile\<close> and the path functions are fields of the parameter
  record \<open>golib\<close>; \<open>net.SplitHostPort\<close>, \<open>net.JoinHostPort\<close> and \<open>URL.Hostname\<close> are written
  out.
\<close>

section \<open>Library functions the file calls\<close>

record url =
  u_scheme :: string
  u_host :: string

record golib =
  url_parse :: "string \<Rightarrow> url option"
  prefix_ok :: "string \<Rightarrow> bool"
  regex_ok :: "string \<Rightarrow> bool"
  path_join :: "string \<Rightarrow> string \<Rightarrow> string"
  path_dir :: "string \<Rightarrow> string"

text \<open>\<open>URL.Hostname\<close>: the host without a numeric port and without brackets.\<close>

definition is_digit :: "char \<Rightarrow> bool" where
  "is_digit c \<longleftrightarrow> CHR ''0'' \<le> c \<and> c \<le> CHR ''9''"

definition Hostname :: "url \<Rightarrow> string" where
  "Hostname u =
     (let host = (case LastIndex (u_host u) CHR '':'' of
                    None \<Rightarrow> u_host u
                  | Some i \<Rightarrow> if list_all is_digit (drop (Suc i) (u_host u))
                              then take i (u_host u) else u_host u)
      in if HasPrefix host ''['' \<and> HasSuffix host '']''
         then take (length host - 2) (tl host) else host)"

text \<open>\<open>net.SplitHostPort\<close>; \<open>None\<close> is its error.\<close>

fun IndexByte :: "string \<Rightarrow> char \<Rightarrow> nat option" where
  "IndexByte [] c = None"
| "IndexByte (x # s) c = (if x = c then Some 0 else map_option Suc (IndexByte s c))"

definition SplitHostPort :: "string \<Rightarrow> (string \<times> string) option" where
  "SplitHostPort hp =
     (case LastIndex hp CHR '':'' of
        None \<Rightarrow> None
      | Some i \<Rightarrow>
          if HasPrefix hp ''['' then
            (case IndexByte hp CHR '']'' of
               None \<Rightarrow> None
             | Some e \<Rightarrow>
                 if Suc e \<noteq> i then None
                 else if CHR ''['' \<in> set (drop 1 hp) \<or> CHR '']'' \<in> set (drop (Suc e) hp) then None
                 else Some (drop 1 (take e hp), drop (Suc i) hp))
          else if CHR '':'' \<in> set (take i hp) then None
          else if CHR ''['' \<in> set hp \<or> CHR '']'' \<in> set hp then None
          else Some (take i hp, drop (Suc i) hp))"

definition JoinHostPort :: "string \<Rightarrow> string \<Rightarrow> string" where
  "JoinHostPort host port =
     (if CHR '':'' \<in> set host then ''['' @ host @ '']:'' @ port else host @ '':'' @ port)"

lemma IndexByte_None: "IndexByte s c = None \<longleftrightarrow> c \<notin> set s"
  by (induction s) auto

lemma SplitHostPort_plain:
  assumes "CHR '':'' \<notin> set h" "CHR '':'' \<notin> set p"
    and "CHR ''['' \<notin> set h \<union> set p" "CHR '']'' \<notin> set h \<union> set p"
  shows "SplitHostPort (h @ CHR '':'' # p) = Some (h, p)"
proof -
  have "\<not> HasPrefix (h @ CHR '':'' # p) ''[''"
    using assms(3) by (cases h) (auto simp: HasPrefix_def)
  with assms show ?thesis
    by (simp add: SplitHostPort_def LastIndex_append)
qed

lemma SplitHostPort_no_colon: "CHR '':'' \<notin> set h \<Longrightarrow> SplitHostPort h = None"
  by (simp add: SplitHostPort_def LastIndex_None [THEN iffD2])

section \<open>Data\<close>

type_synonym check_type = string

abbreviation CheckTypeHTTP :: check_type where "CheckTypeHTTP \<equiv> ''http''"
abbreviation CheckTypeSMTP :: check_type where "CheckTypeSMTP \<equiv> ''smtp''"
abbreviation CheckTypeTraceroute :: check_type where "CheckTypeTraceroute \<equiv> ''traceroute''"
abbreviation CheckTypePlaywright :: check_type where "CheckTypePlaywright \<equiv> ''playwright''"
abbreviation CheckTypeTCP :: check_type where "CheckTypeTCP \<equiv> ''tcp''"
abbreviation CheckTypeDNS :: check_type where "CheckTypeDNS \<equiv> ''dns''"
abbreviation CheckTypeICMP :: check_type where "CheckTypeICMP \<equiv> ''icmp''"
abbreviation CheckTypeGRPC :: check_type where "CheckTypeGRPC \<equiv> ''grpc''"
abbreviation CheckTypeNTP :: check_type where "CheckTypeNTP \<equiv> ''ntp''"
abbreviation CheckTypeTLS :: check_type where "CheckTypeTLS \<equiv> ''tls''"
abbreviation CheckTypeUDP :: check_type where "CheckTypeUDP \<equiv> ''udp''"
abbreviation CheckTypeBGP :: check_type where "CheckTypeBGP \<equiv> ''bgp''"
abbreviation CheckTypeDomainExpiry :: check_type where "CheckTypeDomainExpiry \<equiv> ''domain_expiry''"
abbreviation CheckTypeWebSocket :: check_type where "CheckTypeWebSocket \<equiv> ''websocket''"

definition checkTypes :: "check_type list" where
  "checkTypes = [CheckTypeHTTP, CheckTypeSMTP, CheckTypeTraceroute, CheckTypePlaywright,
     CheckTypeTCP, CheckTypeDNS, CheckTypeICMP, CheckTypeGRPC, CheckTypeNTP, CheckTypeTLS,
     CheckTypeUDP, CheckTypeBGP, CheckTypeDomainExpiry, CheckTypeWebSocket]"

record RetryPolicy =
  rp_count :: int
  rp_backoff :: string
  rp_delay :: duration

record Assertion =
  a_type :: string
  a_header :: string
  a_target :: string

record BasicAuth =
  ba_username :: string
  ba_password :: string

record HTTPCheckConfig =
  h_url :: string
  h_method :: string
  h_expected_status :: int
  h_headers :: "(string, string) gomap"
  h_body :: string
  h_skip_tls :: bool
  h_follow_redirects :: bool
  h_ip_version :: string
  h_min_tls :: string
  h_max_tls :: string
  h_basic_auth :: "BasicAuth option"
  h_bearer_token :: string
  h_proxy :: string
  h_assertions :: "Assertion list"

record TCPCheckConfig =
  t_host :: string
  t_port :: int
  t_ip_version :: string
  t_tls :: bool
  t_min_tls :: string
  t_max_tls :: string
  t_send :: string
  t_expect_recv :: string

record DNSCheckConfig =
  d_domain :: string
  d_server :: string
  d_record_type :: string
  d_expected :: "string list"

record ICMPCheckConfig =
  i_host :: string
  i_count :: int
  i_ip_version :: string

record GRPCCheckConfig =
  g_host :: string
  g_service :: string
  g_tls :: bool
  g_skip_tls :: bool

record NTPCheckConfig =
  n_server :: string
  n_port :: int

record TLSCheckConfig =
  tl_host :: string
  tl_check_expiry :: bool
  tl_warn_days :: int
  tl_critical_days :: int

record UDPCheckConfig =
  ud_host :: string
  ud_port :: int
  ud_ip_version :: string
  ud_send :: string
  ud_send_hex :: string
  ud_expect_response :: "bool option"
  ud_expect_recv :: string
  ud_max_response_bytes :: int

record BGPCheckConfig =
  b_prefix :: string
  b_expected_origin :: int

record DomainExpirationCheckConfig =
  de_domain :: string
  de_warn_days :: int
  de_critical_days :: int

record SMTPCheckConfig =
  s_host :: string
  s_port :: int
  s_timeout :: duration
  s_start_tls :: bool
  s_skip_tls :: bool
  s_username :: string
  s_password :: string

record TracerouteCheckConfig =
  tr_host :: string
  tr_max_hops :: int
  tr_count :: int

record WebSocketCheckConfig =
  ws_url :: string
  ws_send :: string
  ws_expect_recv :: string
  ws_skip_tls :: bool
  ws_headers :: "(string, string) gomap"

record PlaywrightCheckConfig =
  p_script :: string
  p_authenticator :: string
  p_base_url :: string
  p_video :: bool
  p_network :: string
  p_device :: string

record CheckConfig =
  c_name :: string
  c_type :: check_type
  c_group :: string
  c_tags :: "string list"
  c_schedule :: string
  c_timeout :: duration
  c_retry :: "RetryPolicy option"
  c_degraded_after :: duration
  c_http :: "HTTPCheckConfig option"
  c_smtp :: "SMTPCheckConfig option"
  c_traceroute :: "TracerouteCheckConfig option"
  c_playwright :: "PlaywrightCheckConfig option"
  c_tcp :: "TCPCheckConfig option"
  c_dns :: "DNSCheckConfig option"
  c_icmp :: "ICMPCheckConfig option"
  c_grpc :: "GRPCCheckConfig option"
  c_ntp :: "NTPCheckConfig option"
  c_tls :: "TLSCheckConfig option"
  c_udp :: "UDPCheckConfig option"
  c_bgp :: "BGPCheckConfig option"
  c_domain_expiry :: "DomainExpirationCheckConfig option"
  c_websocket :: "WebSocketCheckConfig option"

record checkYAML =
  y_name :: string
  y_type :: check_type
  y_group :: string
  y_tags :: "string list"
  y_schedule :: string
  y_timeout :: duration
  y_retry :: "RetryPolicy option"
  y_degraded_after :: duration
  y_url :: string
  y_method :: string
  y_expected_status :: int
  y_headers :: "(string, string) gomap"
  y_body :: string
  y_skip_tls :: bool
  y_follow_redirects :: bool
  y_basic_auth :: "BasicAuth option"
  y_bearer_token :: string
  y_proxy :: string
  y_assertions :: "Assertion list"
  y_min_tls :: string
  y_max_tls :: string
  y_host :: string
  y_port :: int
  y_ip_version :: string
  y_send :: string
  y_expect_recv :: string
  y_tls :: bool
  y_start_tls :: bool
  y_username :: string
  y_password :: string
  y_domain :: string
  y_server :: string
  y_record_type :: string
  y_expected :: "string list"
  y_count :: int
  y_max_hops :: int
  y_service :: string
  y_check_expiry :: "bool option"
  y_warn_days :: int
  y_critical_days :: int
  y_send_hex :: string
  y_expect_response :: "bool option"
  y_max_response_bytes :: int
  y_prefix :: string
  y_expected_origin :: int
  y_script :: string
  y_authenticator :: string
  y_base_url :: string
  y_video :: bool
  y_network :: string
  y_device :: string

datatype config_error =
    InvalidMinTLS string string
  | InvalidMaxTLS string string
  | MinTLSAboveMaxTLS string string string
  | TypeRequired string
  | AuthExclusive string
  | InvalidProxy string string
  | InvalidPrefix string string
  | ExpectedOriginRequired string
  | SMTPCredentialsTogether string
  | SMTPAuthRequiresStartTLS string
  | InvalidWebSocketURL string string
  | UnknownCheckType string
  | AssertionInvalidType string nat string
  | AssertionTargetRequired string nat
  | AssertionHeaderRequired string nat string
  | AssertionInvalidRegex string nat string
  | StatFailed string
  | ReadDirFailed string
  | ReadFileFailed string
  | ParsingFailed string
  | InEntry string nat string config_error
  | InFile string config_error

end
