(* ===== verification/Config_Main.thy ===== *)
theory Config_Main
  imports Go_Prelude
begin

text \<open>
  The main configuration: \<open>internal/config/config.go\<close>. The structs are records, \<open>Load\<close> applies
  the defaults and the two validators to what the YAML decoder returns (a parameter), and
  \<open>expandEnvVars\<close> is the regular-expression replacement written out as a scanner, with the process
  environment as its argument.
\<close>

section \<open>Data\<close>

record Origin =
  o_id :: string
  o_city :: string
  o_country :: string
  o_platform :: string
  o_labels :: "(string, string) gomap"

record PersistenceConfig =
  pe_enabled :: bool
  pe_retention :: duration

record LoggingConfig =
  lg_format :: string
  lg_level :: string

record WebhookConfig =
  wc_url :: string
  wc_type :: string
  wc_events :: "string list"
  wc_severities :: "string list"
  wc_cooldown :: duration

record PrometheusConfig =
  pm_listen :: string
  pm_max_check_cardinality :: int
  pm_remote_write_url :: string
  pm_remote_write_interval :: duration
  pm_remote_write_sigv4 :: bool
  pm_remote_write_region :: string
  pm_remote_write_headers :: "(string, string) gomap"

record OTELConfig =
  ot_endpoint :: string
  ot_metrics :: bool

record ArtifactsConfig =
  ar_driver :: string
  ar_bucket :: string
  ar_region :: string
  ar_retention :: string
  ar_path :: string

record PlaywrightConfig =
  pw_mode :: string
  pw_server_url :: string
  pw_max_browsers :: int

record CheckFilter =
  f_types :: "string list"
  f_groups :: "string list"
  f_tags :: "string list"

record Config =
  cfg_service :: string
  cfg_hostname :: string
  cfg_origins :: "Origin list"
  cfg_prometheus :: PrometheusConfig
  cfg_otel :: OTELConfig
  cfg_artifacts :: ArtifactsConfig
  cfg_playwright :: PlaywrightConfig
  cfg_webhooks :: "WebhookConfig list"
  cfg_check_filter :: CheckFilter
  cfg_logging :: LoggingConfig
  cfg_persistence :: PersistenceConfig

datatype load_error =
    ReadingConfigFailed
  | ParsingConfigFailed
  | PlaywrightServerURLRequired
  | PlaywrightModeInvalid string
  | WebhookURLRequired nat
  | WebhookTypeInvalid nat string
  | WebhookEventInvalid nat string
  | WebhookSeverityInvalid nat string

definition DefaultMaxCheckCardinality :: int where
  "DefaultMaxCheckCardinality = 500"

section \<open>Environment variables\<close>

definition name_start :: "char \<Rightarrow> bool" where
  "name_start c \<longleftrightarrow>
     (CHR ''A'' \<le> c \<and> c \<le> CHR ''Z'') \<or> (CHR ''a'' \<le> c \<and> c \<le> CHR ''z'') \<or> c = CHR ''_''"

definition name_char :: "char \<Rightarrow> bool" where
  "name_char c \<longleftrightarrow> name_start c \<or> (CHR ''0'' \<le> c \<and> c \<le> CHR ''9'')"

text \<open>A match of the pattern at the start of the text: the matched text, the two groups and the
  rest.\<close>

definition match_env :: "string \<Rightarrow> (string \<times> string \<times> string \<times> string) option" where
  "match_env s =
     (if \<not> HasPrefix s ''${'' then None
      else
        let body = drop 2 s;
            name = takeWhile name_char body;
            r = dropWhile name_char body
        in if name = [] \<or> \<not> name_start (hd name) then None
           else if HasPrefix r ''}'' then Some (''${'' @ name @ ''}'', name, '''', drop 1 r)
           else if HasPrefix r '':-'' then
             (let d = takeWhile (\<lambda>c. c \<noteq> CHR ''}'') (drop 2 r);
                  r2 = dropWhile (\<lambda>c. c \<noteq> CHR ''}'') (drop 2 r)
              in if r2 = [] then None
                 else Some (''${'' @ name @ '':-'' @ d @ ''}'', name, d, drop 1 r2))
           else None)"

lemma match_env_shorter:
  assumes "match_env s = Some (m, g1, g2, rest)"
  shows "length rest < length s"
proof -
  from assms have p: "HasPrefix s ''${''" by (auto simp: match_env_def split: if_splits)
  then have "2 \<le> length s" by (auto simp: HasPrefix_iff prefix_def)
  moreover have "length rest \<le> length (drop 2 s)"
    using assms length_dropWhile_le [of name_char "drop 2 s"]
      length_dropWhile_le [of "\<lambda>c. c \<noteq> CHR ''}''" "drop 2 (dropWhile name_char (drop 2 s))"]
    by (auto simp: match_env_def Let_def split: if_splits)
  ultimately show ?thesis by simp
qed

definition env_value :: "(string \<Rightarrow> string option) \<Rightarrow> string \<Rightarrow> string \<Rightarrow> string \<Rightarrow> string" where
  "env_value LookupEnv m g1 g2 =
     (case LookupEnv g1 of
        Some val \<Rightarrow> val
      | None \<Rightarrow> if Contains m '':-'' then g2 else m)"

function expandEnvVars :: "(string \<Rightarrow> string option) \<Rightarrow> string \<Rightarrow> string" where
  "expandEnvVars env [] = []"
| "expandEnvVars env (c # s) =
     (case match_env (c # s) of
        None \<Rightarrow> c # expandEnvVars env s
      | Some (m, g1, g2, rest) \<Rightarrow> env_value env m g1 g2 @ expandEnvVars env rest)"
  by pat_completeness auto
termination
  by (relation "measure (\<lambda>(env, s). length s)") (auto dest: match_env_shorter)

section \<open>Loading\<close>

definition validatePlaywright :: "PlaywrightConfig \<Rightarrow> load_error option" where
  "validatePlaywright pw =
     (if pw_mode pw = ''local'' then None
      else if pw_mode pw = ''managed'' then
        (if pw_server_url pw = '''' then Some PlaywrightServerURLRequired else None)
      else Some (PlaywrightModeInvalid (pw_mode pw)))"

definition validWebhookTypes :: "string list" where
  "validWebhookTypes = [''discord'', ''slack'', ''generic'']"

definition validWebhookEvents :: "string list" where
  "validWebhookEvents = [''check_down'', ''check_up'', ''budget_violation'', ''cert_expiring'']"

definition validWebhookSeverities :: "string list" where
  "validWebhookSeverities = [''warning'', ''critical'']"

fun validateWebhooks_from :: "nat \<Rightarrow> WebhookConfig list \<Rightarrow> load_error option" where
  "validateWebhooks_from i [] = None"
| "validateWebhooks_from i (wh # whs) =
     (if wc_url wh = '''' then Some (WebhookURLRequired i)
      else if wc_type wh \<noteq> '''' \<and> wc_type wh \<notin> set validWebhookTypes
        then Some (WebhookTypeInvalid i (wc_type wh))
      else (case find (\<lambda>e. e \<notin> set validWebhookEvents) (wc_events wh) of
              Some e \<Rightarrow> Some (WebhookEventInvalid i e)
            | None \<Rightarrow>
                (case find (\<lambda>s. s \<notin> set validWebhookSeverities) (wc_severities wh) of
                   Some s \<Rightarrow> Some (WebhookSeverityInvalid i s)
                 | None \<Rightarrow> validateWebhooks_from (Suc i) whs)))"

definition validateWebhooks :: "WebhookConfig list \<Rightarrow> load_error option" where
  "validateWebhooks whs = validateWebhooks_from 0 whs"

definition defaultPrometheus :: "PrometheusConfig \<Rightarrow> PrometheusConfig" where
  "defaultPrometheus p0 =
     (let p1 = (if pm_listen p0 = '''' then p0\<lparr>pm_listen := '':9590''\<rparr> else p0);
          p2 = (if pm_max_check_cardinality p1 \<le> 0
                then p1\<lparr>pm_max_check_cardinality := DefaultMaxCheckCardinality\<rparr> else p1)
      in if pm_remote_write_url p2 \<noteq> '''' \<and> pm_remote_write_interval p2 \<le> 0
         then p2\<lparr>pm_remote_write_interval := 15 * Second\<rparr> else p2)"

definition defaultPlaywright :: "PlaywrightConfig \<Rightarrow> PlaywrightConfig" where
  "defaultPlaywright w0 =
     (let w1 = (if pw_mode w0 = '''' then w0\<lparr>pw_mode := ''local''\<rparr> else w0)
      in if pw_max_browsers w1 \<le> 0 then w1\<lparr>pw_max_browsers := 2\<rparr> else w1)"

definition applyConfigDefaults :: "Config \<Rightarrow> Config" where
  "applyConfigDefaults cfg =
     cfg\<lparr>cfg_prometheus := defaultPrometheus (cfg_prometheus cfg),
         cfg_artifacts := (if ar_driver (cfg_artifacts cfg) = ''''
                           then (cfg_artifacts cfg)\<lparr>ar_driver := ''none''\<rparr> else cfg_artifacts cfg),
         cfg_playwright := defaultPlaywright (cfg_playwright cfg),
         cfg_persistence := (if pe_enabled (cfg_persistence cfg) \<and> pe_retention (cfg_persistence cfg) \<le> 0
                             then (cfg_persistence cfg)\<lparr>pe_retention := 30 * 24 * Hour\<rparr>
                             else cfg_persistence cfg)\<rparr>"

definition Load ::
  "(string \<Rightarrow> string option) \<Rightarrow> (string \<Rightarrow> Config option) \<Rightarrow> string option \<Rightarrow> load_error + Config" where
  "Load env yaml_unmarshal data =
     (case data of
        None \<Rightarrow> Inl ReadingConfigFailed
      | Some text \<Rightarrow>
          (case yaml_unmarshal (expandEnvVars env text) of
             None \<Rightarrow> Inl ParsingConfigFailed
           | Some cfg0 \<Rightarrow>
               (let cfg = applyConfigDefaults cfg0 in
                case validateWebhooks (cfg_webhooks cfg) of
                  Some e \<Rightarrow> Inl e
                | None \<Rightarrow>
                    (case validatePlaywright (cfg_playwright cfg) of
                       Some e \<Rightarrow> Inl e
                     | None \<Rightarrow> Inr cfg))))"

section \<open>Origins\<close>

fun OriginByID :: "Origin list \<Rightarrow> string \<Rightarrow> Origin option" where
  "OriginByID [] i = None"
| "OriginByID (org # os) i = (if o_id org = i then Some org else OriginByID os i)"

definition ResolveOrigin :: "Config \<Rightarrow> string \<Rightarrow> Origin option" where
  "ResolveOrigin c i =
     (case (if i \<noteq> '''' then OriginByID (cfg_origins c) i else None) of
        Some org \<Rightarrow> Some org
      | None \<Rightarrow> (case cfg_origins c of [] \<Rightarrow> None | org # _ \<Rightarrow> Some org))"

definition builtinLabels :: "Origin \<Rightarrow> (string, string) gomap" where
  "builtinLabels org = [(''region'', o_id org), (''city'', o_city org), (''country'', o_country org)]"

definition MetricLabels :: "Origin \<Rightarrow> (string, string) gomap" where
  "MetricLabels org =
     fold (\<lambda>(k, v) m. if map_of m k = None then AList.update k v m else m)
       (o_labels org) (builtinLabels org)"

definition ResolveChecksPath ::
  "(string \<Rightarrow> string \<Rightarrow> string) \<Rightarrow> (string \<Rightarrow> string) \<Rightarrow> (string \<Rightarrow> bool) \<Rightarrow> string \<Rightarrow> string" where
  "ResolveChecksPath join dir exists_file configPath =
     (let d = dir configPath; filePath = join d ''checks.yml''
      in if exists_file filePath then filePath else join d ''checks'')"

section \<open>Scanning for references\<close>

definition valid_name :: "string \<Rightarrow> bool" where
  "valid_name v \<longleftrightarrow> v \<noteq> [] \<and> name_start (hd v) \<and> list_all name_char v"

lemma not_name_char [simp]: "\<not> name_char CHR ''}''" "\<not> name_char CHR '':''"
  by (auto simp: name_char_def name_start_def less_eq_char_def)

lemma takeWhile_name:
  assumes "list_all name_char v" and "\<not> name_char c"
  shows "takeWhile name_char (v @ c # t) = v" "dropWhile name_char (v @ c # t) = c # t"
  using assms by (induction v) auto

lemma takeWhile_brace:
  assumes "CHR ''}'' \<notin> set d"
  shows "takeWhile (\<lambda>c. c \<noteq> CHR ''}'') (d @ CHR ''}'' # t) = d"
    "dropWhile (\<lambda>c. c \<noteq> CHR ''}'') (d @ CHR ''}'' # t) = CHR ''}'' # t"
  using assms by (induction d) auto

lemma match_env_plain:
  "valid_name v \<Longrightarrow>
     match_env (''${'' @ v @ CHR ''}'' # t) = Some (''${'' @ v @ ''}'', v, '''', t)"
  by (auto simp: match_env_def Let_def HasPrefix_def valid_name_def takeWhile_name)

lemma match_env_default:
  "valid_name v \<Longrightarrow> CHR ''}'' \<notin> set d \<Longrightarrow>
     match_env (''${'' @ v @ '':-'' @ d @ CHR ''}'' # t) =
       Some (''${'' @ v @ '':-'' @ d @ ''}'', v, d, t)"
  by (auto simp: match_env_def Let_def HasPrefix_def valid_name_def takeWhile_name takeWhile_brace)

lemma match_env_no_dollar: "c \<noteq> CHR ''$'' \<Longrightarrow> match_env (c # s) = None"
  by (simp add: match_env_def HasPrefix_def)

lemma expandEnvVars_skip:
  "CHR ''$'' \<notin> set pre \<Longrightarrow> expandEnvVars env (pre @ s) = pre @ expandEnvVars env s"
  by (induction pre) (auto simp: match_env_no_dollar)

lemma expandEnvVars_match:
  "match_env s = Some (m, g1, g2, rest) \<Longrightarrow>
     expandEnvVars env s = env_value env m g1 g2 @ expandEnvVars env rest"
  by (cases s) (auto simp: match_env_def HasPrefix_def)

lemma plain_no_default:
  assumes "valid_name v"
  shows "\<not> Contains (''${'' @ v @ ''}'') '':-''"
proof
  assume "Contains (''${'' @ v @ ''}'') '':-''"
  then have "set '':-'' \<subseteq> set (''${'' @ v @ ''}'')"
    unfolding Contains_iff by (rule set_mono_sublist)
  then have "CHR '':'' \<in> set v" by simp
  with assms show False by (auto simp: valid_name_def list_all_iff)
qed

lemma default_has_default: "Contains (''${'' @ v @ '':-'' @ d @ ''}'') '':-''"
  unfolding Contains_iff sublist_def by (rule exI [of _ "''${'' @ v"]) auto

section \<open>What a loaded configuration satisfies\<close>

definition valid_webhook :: "WebhookConfig \<Rightarrow> bool" where
  "valid_webhook wh \<longleftrightarrow>
     wc_url wh \<noteq> '''' \<and> (wc_type wh = '''' \<or> wc_type wh \<in> set validWebhookTypes) \<and>
     set (wc_events wh) \<subseteq> set validWebhookEvents \<and>
     set (wc_severities wh) \<subseteq> set validWebhookSeverities"

definition valid_config :: "Config \<Rightarrow> bool" where
  "valid_config cfg \<longleftrightarrow>
     pm_listen (cfg_prometheus cfg) \<noteq> '''' \<and>
     0 < pm_max_check_cardinality (cfg_prometheus cfg) \<and>
     (pm_remote_write_url (cfg_prometheus cfg) \<noteq> '''' \<longrightarrow>
        0 < pm_remote_write_interval (cfg_prometheus cfg)) \<and>
     ar_driver (cfg_artifacts cfg) \<noteq> '''' \<and>
     pw_mode (cfg_playwright cfg) \<in> {''local'', ''managed''} \<and>
     (pw_mode (cfg_playwright cfg) = ''managed'' \<longrightarrow> pw_server_url (cfg_playwright cfg) \<noteq> '''') \<and>
     0 < pw_max_browsers (cfg_playwright cfg) \<and>
     (pe_enabled (cfg_persistence cfg) \<longrightarrow> 0 < pe_retention (cfg_persistence cfg)) \<and>
     list_all valid_webhook (cfg_webhooks cfg)"

lemma validateWebhooks_from_ok: "validateWebhooks_from i whs = None \<longleftrightarrow> list_all valid_webhook whs"
proof (induction whs arbitrary: i)
  case (Cons wh whs)
  show ?case
    using Cons.IH by (auto simp: valid_webhook_def split: option.splits
        simp flip: find_outside dest: find_outside [THEN iffD2])
qed simp

lemma defaultPrometheus_ok:
  "pm_listen (defaultPrometheus p) \<noteq> '''' \<and> 0 < pm_max_check_cardinality (defaultPrometheus p) \<and>
   (pm_remote_write_url (defaultPrometheus p) \<noteq> '''' \<longrightarrow> 0 < pm_remote_write_interval (defaultPrometheus p))"
  by (simp add: defaultPrometheus_def Let_def DefaultMaxCheckCardinality_def)

lemma defaultPlaywright_ok:
  "0 < pw_max_browsers (defaultPlaywright w)"
  by (simp add: defaultPlaywright_def Let_def)

lemma validatePlaywright_ok:
  "validatePlaywright pw = None \<longleftrightarrow>
     pw_mode pw \<in> {''local'', ''managed''} \<and> (pw_mode pw = ''managed'' \<longrightarrow> pw_server_url pw \<noteq> '''')"
  by (auto simp: validatePlaywright_def)

section \<open>Properties\<close>

text \<open>
  Expansion replaces a reference by the variable's value, or by its default, or leaves
  a plain reference to an unset variable as it is; text before it without a dollar sign is kept and
  the replacement is not scanned again.
\<close>

theorem expandEnvVars_reference:
  assumes "CHR ''$'' \<notin> set pre" and "valid_name v" and "CHR ''}'' \<notin> set d"
  shows "expandEnvVars env (pre @ ''${'' @ v @ ''}'' @ post) =
           pre @ (case env v of Some x \<Rightarrow> x | None \<Rightarrow> ''${'' @ v @ ''}'') @ expandEnvVars env post \<and>
         expandEnvVars env (pre @ ''${'' @ v @ '':-'' @ d @ ''}'' @ post) =
           pre @ (case env v of Some x \<Rightarrow> x | None \<Rightarrow> d) @ expandEnvVars env post"
proof (rule conjI)
  have "expandEnvVars env (''${'' @ v @ CHR ''}'' # post) =
      (case env v of Some x \<Rightarrow> x | None \<Rightarrow> ''${'' @ v @ ''}'') @ expandEnvVars env post"
    using expandEnvVars_match [OF match_env_plain [OF assms(2)], of env] plain_no_default [OF assms(2)]
    unfolding env_value_def by (simp only: if_False)
  then show "expandEnvVars env (pre @ ''${'' @ v @ ''}'' @ post) =
      pre @ (case env v of Some x \<Rightarrow> x | None \<Rightarrow> ''${'' @ v @ ''}'') @ expandEnvVars env post"
    unfolding expandEnvVars_skip [OF assms(1)] append_Cons append_Nil by (simp only:)
  have "expandEnvVars env (''${'' @ v @ '':-'' @ d @ CHR ''}'' # post) =
      (case env v of Some x \<Rightarrow> x | None \<Rightarrow> d) @ expandEnvVars env post"
    using expandEnvVars_match [OF match_env_default [OF assms(2,3)], of env]
    unfolding env_value_def by (simp only: default_has_default if_True)
  then show "expandEnvVars env (pre @ ''${'' @ v @ '':-'' @ d @ ''}'' @ post) =
      pre @ (case env v of Some x \<Rightarrow> x | None \<Rightarrow> d) @ expandEnvVars env post"
    unfolding expandEnvVars_skip [OF assms(1)] append_Cons append_Nil by (simp only:)
qed

theorem expandEnvVars_reference_witness:
  "expandEnvVars (\<lambda>v. if v = ''A'' then Some ''1'' else None) ''x=${A}'' = ''x=1'' \<and>
   expandEnvVars (\<lambda>v. if v = ''A'' then Some ''1'' else None) ''x=${B:-2}'' = ''x=2''"
  using expandEnvVars_reference [of "''x=''" "''A''" "[]" "\<lambda>v. if v = ''A'' then Some ''1'' else None" "[]"]
    expandEnvVars_reference [of "''x=''" "''B''" "''2''" "\<lambda>v. if v = ''A'' then Some ''1'' else None" "[]"]
  by (simp add: valid_name_def name_start_def name_char_def less_eq_char_def)


definition zeroConfig :: Config where
  "zeroConfig =
     \<lparr>cfg_service = '''', cfg_hostname = '''', cfg_origins = [],
      cfg_prometheus = \<lparr>pm_listen = '''', pm_max_check_cardinality = 0, pm_remote_write_url = '''',
        pm_remote_write_interval = 0, pm_remote_write_sigv4 = False, pm_remote_write_region = '''',
        pm_remote_write_headers = []\<rparr>,
      cfg_otel = \<lparr>ot_endpoint = '''', ot_metrics = False\<rparr>,
      cfg_artifacts = \<lparr>ar_driver = '''', ar_bucket = '''', ar_region = '''', ar_retention = '''',
        ar_path = ''''\<rparr>,
      cfg_playwright = \<lparr>pw_mode = '''', pw_server_url = '''', pw_max_browsers = 0\<rparr>,
      cfg_webhooks = [], cfg_check_filter = \<lparr>f_types = [], f_groups = [], f_tags = []\<rparr>,
      cfg_logging = \<lparr>lg_format = '''', lg_level = ''''\<rparr>,
      cfg_persistence = \<lparr>pe_enabled = True, pe_retention = 0\<rparr>\<rparr>"


text \<open>
  \<open>ResolveOrigin\<close> returns the first configured origin with the requested id, otherwise the
  first configured origin, and nothing only when no origin is configured at all.
\<close>

theorem ResolveOrigin_cases:
  "ResolveOrigin c i =
     (case find (\<lambda>org. i \<noteq> '''' \<and> o_id org = i) (cfg_origins c) of
        Some org \<Rightarrow> Some org
      | None \<Rightarrow> if cfg_origins c = [] then None else Some (hd (cfg_origins c)))"
proof -
  have "OriginByID os i = find (\<lambda>org. o_id org = i) os" for os
    by (induction os) auto
  moreover have "find (\<lambda>_. False) os = None" for os :: "Origin list"
    by (simp add: find_None_iff)
  ultimately show ?thesis
    by (cases "cfg_origins c"; cases "i = ''''") (auto simp: ResolveOrigin_def split: option.splits)
qed

lemma MetricLabels_fold:
  "map_of (fold (\<lambda>(k, v) m. if map_of m k = None then AList.update k v m else m) kvs m) =
     map_of kvs ++ map_of m"
proof (induction kvs arbitrary: m)
  case (Cons kv kvs)
  obtain k v where kv: "kv = (k, v)" by (cases kv)
  show ?case
    by (cases "map_of m k")
       (auto simp: kv Cons.IH gm.lookup_put fun_eq_iff map_add_def split: option.splits)
qed simp

text \<open>
  The metric labels of an origin are its user labels overridden by region, city and
  country: a user label never replaces a built-in one and every other user label is kept.
\<close>

theorem MetricLabels_lookup:
  "map_of (MetricLabels org) =
     map_of (o_labels org) ++ [''region'' \<mapsto> o_id org, ''city'' \<mapsto> o_city org, ''country'' \<mapsto> o_country org]"
  by (simp add: MetricLabels_def MetricLabels_fold builtinLabels_def fun_eq_iff map_add_def)

end
