(* ===== verification/Config_Checks.thy ===== *)
theory Config_Checks
  imports Config_Data Config_Main
begin

text \<open>
  Loading check definitions: the functions of \<open>internal/config/checks.go\<close>. \<open>convertCheck\<close> is
  one definition per \<open>case\<close> of its switch; the process environment, the file system and the YAML decoder are parameters
  (\<open>env\<close> and the record \<open>files\<close>). The theorems show what a loaded check satisfies (\<open>valid_check\<close>) and that
  loading is all or nothing.
\<close>

section \<open>TLS versions\<close>

definition TLSVersion :: "string \<Rightarrow> nat option" where
  "TLSVersion s =
     (if s = ''1.0'' then Some 0x0301
      else if s = ''1.1'' then Some 0x0302
      else if s = ''1.2'' then Some 0x0303
      else if s = ''1.3'' then Some 0x0304
      else None)"

definition validateTLSVersions :: "string \<Rightarrow> string \<Rightarrow> string \<Rightarrow> config_error option" where
  "validateTLSVersions name minTLS maxTLS =
     (if minTLS \<noteq> '''' \<and> TLSVersion minTLS = None then Some (InvalidMinTLS name minTLS)
      else if maxTLS \<noteq> '''' \<and> TLSVersion maxTLS = None then Some (InvalidMaxTLS name maxTLS)
      else
        let minV = (if minTLS \<noteq> '''' then the (TLSVersion minTLS) else 0);
            maxV = (if maxTLS \<noteq> '''' then the (TLSVersion maxTLS) else 0)
        in if minV \<noteq> 0 \<and> maxV \<noteq> 0 \<and> minV > maxV then Some (MinTLSAboveMaxTLS name minTLS maxTLS)
           else None)"

section \<open>Assertions\<close>

definition validAssertionTypes :: "string list" where
  "validAssertionTypes = [''contains'', ''not_contains'', ''regex'',
     ''header_contains'', ''header_not_contains'', ''header_regex'']"

fun validateAssertions_from ::
  "golib \<Rightarrow> string \<Rightarrow> nat \<Rightarrow> Assertion list \<Rightarrow> config_error option" where
  "validateAssertions_from lib name j [] = None"
| "validateAssertions_from lib name j (a # as) =
     (if a_type a \<notin> set validAssertionTypes then Some (AssertionInvalidType name j (a_type a))
      else if a_target a = '''' then Some (AssertionTargetRequired name j)
      else if HasPrefix (a_type a) ''header_'' \<and> a_header a = ''''
        then Some (AssertionHeaderRequired name j (a_type a))
      else if (a_type a = ''regex'' \<or> a_type a = ''header_regex'') \<and> \<not> regex_ok lib (a_target a)
        then Some (AssertionInvalidRegex name j (a_target a))
      else validateAssertions_from lib name (Suc j) as)"

definition validateAssertions :: "golib \<Rightarrow> string \<Rightarrow> Assertion list \<Rightarrow> config_error option" where
  "validateAssertions lib name as = validateAssertions_from lib name 0 as"

definition valid_assertion :: "golib \<Rightarrow> Assertion \<Rightarrow> bool" where
  "valid_assertion lib a \<longleftrightarrow>
     a_type a \<in> set validAssertionTypes \<and> a_target a \<noteq> '''' \<and>
     (HasPrefix (a_type a) ''header_'' \<longrightarrow> a_header a \<noteq> '''') \<and>
     (a_type a \<in> {''regex'', ''header_regex''} \<longrightarrow> regex_ok lib (a_target a))"

section \<open>Conversion of one entry\<close>

definition emptyCheck :: "checkYAML \<Rightarrow> CheckConfig" where
  "emptyCheck r =
     \<lparr>c_name = y_name r, c_type = y_type r, c_group = y_group r, c_tags = y_tags r,
      c_schedule = y_schedule r, c_timeout = y_timeout r, c_retry = y_retry r,
      c_degraded_after = y_degraded_after r,
      c_http = None, c_smtp = None, c_traceroute = None, c_playwright = None, c_tcp = None,
      c_dns = None, c_icmp = None, c_grpc = None, c_ntp = None, c_tls = None, c_udp = None,
      c_bgp = None, c_domain_expiry = None, c_websocket = None\<rparr>"

definition convertHTTP :: "golib \<Rightarrow> checkYAML \<Rightarrow> CheckConfig \<Rightarrow> config_error + CheckConfig" where
  "convertHTTP lib r c =
     (let h = \<lparr>h_url = y_url r,
               h_method = (if y_method r = '''' then ''GET'' else y_method r),
               h_expected_status = (if y_expected_status r = 0 then 200 else y_expected_status r),
               h_headers = y_headers r, h_body = y_body r, h_skip_tls = y_skip_tls r,
               h_follow_redirects = y_follow_redirects r, h_ip_version = y_ip_version r,
               h_min_tls = y_min_tls r, h_max_tls = y_max_tls r, h_basic_auth = y_basic_auth r,
               h_bearer_token = y_bearer_token r, h_proxy = y_proxy r,
               h_assertions = y_assertions r\<rparr>
      in case validateTLSVersions (c_name c) (h_min_tls h) (h_max_tls h) of
           Some e \<Rightarrow> Inl e
         | None \<Rightarrow>
             if h_basic_auth h \<noteq> None \<and> h_bearer_token h \<noteq> '''' then Inl (AuthExclusive (c_name c))
             else if h_proxy h \<noteq> '''' \<and>
                     (case url_parse lib (h_proxy h) of None \<Rightarrow> True
                      | Some u \<Rightarrow> u_scheme u = '''' \<or> u_host u = '''')
               then Inl (InvalidProxy (c_name c) (h_proxy h))
             else (case validateAssertions lib (c_name c) (h_assertions h) of
                     Some e \<Rightarrow> Inl e
                   | None \<Rightarrow> Inr (c\<lparr>c_http := Some h\<rparr>)))"

definition convertTCP :: "checkYAML \<Rightarrow> CheckConfig \<Rightarrow> config_error + CheckConfig" where
  "convertTCP r c =
     (let t = \<lparr>t_host = y_host r, t_port = y_port r, t_ip_version = y_ip_version r,
               t_tls = y_tls r, t_min_tls = y_min_tls r, t_max_tls = y_max_tls r,
               t_send = y_send r, t_expect_recv = y_expect_recv r\<rparr>
      in case validateTLSVersions (c_name c) (t_min_tls t) (t_max_tls t) of
           Some e \<Rightarrow> Inl e
         | None \<Rightarrow> Inr (c\<lparr>c_tcp := Some t\<rparr>))"

definition convertDNS :: "checkYAML \<Rightarrow> CheckConfig \<Rightarrow> config_error + CheckConfig" where
  "convertDNS r c =
     Inr (c\<lparr>c_dns := Some
       \<lparr>d_domain = y_domain r,
        d_server = (if y_server r = '''' then ''8.8.8.8:53'' else y_server r),
        d_record_type = (if y_record_type r = '''' then ''A'' else y_record_type r),
        d_expected = y_expected r\<rparr>\<rparr>)"

definition convertICMP :: "checkYAML \<Rightarrow> CheckConfig \<Rightarrow> config_error + CheckConfig" where
  "convertICMP r c =
     Inr (c\<lparr>c_icmp := Some
       \<lparr>i_host = y_host r, i_count = (if y_count r = 0 then 3 else y_count r),
        i_ip_version = y_ip_version r\<rparr>\<rparr>)"

definition convertGRPC :: "checkYAML \<Rightarrow> CheckConfig \<Rightarrow> config_error + CheckConfig" where
  "convertGRPC r c =
     Inr (c\<lparr>c_grpc := Some
       \<lparr>g_host = y_host r, g_service = y_service r, g_tls = y_tls r, g_skip_tls = y_skip_tls r\<rparr>\<rparr>)"

definition convertNTP :: "checkYAML \<Rightarrow> CheckConfig \<Rightarrow> config_error + CheckConfig" where
  "convertNTP r c =
     Inr (c\<lparr>c_ntp := Some
       \<lparr>n_server = y_server r, n_port = (if y_port r = 0 then 123 else y_port r)\<rparr>\<rparr>)"

definition convertTLS :: "checkYAML \<Rightarrow> CheckConfig \<Rightarrow> config_error + CheckConfig" where
  "convertTLS r c =
     (let checkExpiry = (case y_check_expiry r of None \<Rightarrow> True | Some b \<Rightarrow> b);
          warnDays = (if y_warn_days r = 0 then 30 else y_warn_days r);
          criticalDays = (if y_critical_days r = 0 then 7 else y_critical_days r)
      in Inr (c\<lparr>c_tls := Some
           \<lparr>tl_host = y_host r, tl_check_expiry = checkExpiry, tl_warn_days = warnDays,
            tl_critical_days = criticalDays\<rparr>\<rparr>))"

definition convertUDP :: "checkYAML \<Rightarrow> CheckConfig \<Rightarrow> config_error + CheckConfig" where
  "convertUDP r c =
     (let maxResp = (if y_max_response_bytes r = 0 then 4096 else y_max_response_bytes r)
      in Inr (c\<lparr>c_udp := Some
           \<lparr>ud_host = y_host r, ud_port = y_port r, ud_ip_version = y_ip_version r,
            ud_send = y_send r, ud_send_hex = y_send_hex r,
            ud_expect_response = y_expect_response r, ud_expect_recv = y_expect_recv r,
            ud_max_response_bytes = maxResp\<rparr>\<rparr>))"

definition convertBGP :: "golib \<Rightarrow> checkYAML \<Rightarrow> CheckConfig \<Rightarrow> config_error + CheckConfig" where
  "convertBGP lib r c =
     (if \<not> prefix_ok lib (y_prefix r) then Inl (InvalidPrefix (y_name r) (y_prefix r))
      else if y_expected_origin r \<le> 0 then Inl (ExpectedOriginRequired (y_name r))
      else Inr (c\<lparr>c_bgp := Some
             \<lparr>b_prefix = y_prefix r, b_expected_origin = y_expected_origin r\<rparr>\<rparr>))"

definition convertDomainExpiry :: "checkYAML \<Rightarrow> CheckConfig \<Rightarrow> config_error + CheckConfig" where
  "convertDomainExpiry r c =
     (let warnDays = (if y_warn_days r = 0 then 30 else y_warn_days r);
          criticalDays = (if y_critical_days r = 0 then 7 else y_critical_days r)
      in Inr (c\<lparr>c_domain_expiry := Some
           \<lparr>de_domain = y_domain r, de_warn_days = warnDays, de_critical_days = criticalDays\<rparr>\<rparr>))"

definition convertSMTP :: "checkYAML \<Rightarrow> CheckConfig \<Rightarrow> config_error + CheckConfig" where
  "convertSMTP r c =
     (let s = \<lparr>s_host = y_host r, s_port = (if y_port r = 0 then 25 else y_port r),
               s_timeout = y_timeout r, s_start_tls = y_start_tls r, s_skip_tls = y_skip_tls r,
               s_username = y_username r, s_password = y_password r\<rparr>
      in if (s_username s \<noteq> '''') \<noteq> (s_password s \<noteq> '''')
           then Inl (SMTPCredentialsTogether (c_name c))
         else if s_username s \<noteq> '''' \<and> \<not> s_start_tls s
           then Inl (SMTPAuthRequiresStartTLS (c_name c))
         else Inr (c\<lparr>c_smtp := Some s\<rparr>))"

definition convertTraceroute :: "checkYAML \<Rightarrow> CheckConfig \<Rightarrow> config_error + CheckConfig" where
  "convertTraceroute r c =
     Inr (c\<lparr>c_traceroute := Some
       \<lparr>tr_host = y_host r, tr_max_hops = (if y_max_hops r = 0 then 30 else y_max_hops r),
        tr_count = (if y_count r = 0 then 3 else y_count r)\<rparr>\<rparr>)"

definition IsAbs :: "string \<Rightarrow> bool" where
  "IsAbs p \<longleftrightarrow> HasPrefix p ''/''"

definition convertPlaywright ::
  "golib \<Rightarrow> checkYAML \<Rightarrow> string \<Rightarrow> CheckConfig \<Rightarrow> config_error + CheckConfig" where
  "convertPlaywright lib r sourcePath c =
     (let script = (if \<not> IsAbs (y_script r) \<and> y_script r \<noteq> ''''
                    then path_join lib (path_dir lib sourcePath) (y_script r) else y_script r)
      in Inr (c\<lparr>c_playwright := Some
           \<lparr>p_script = script, p_authenticator = y_authenticator r, p_base_url = y_base_url r,
            p_video = y_video r, p_network = y_network r, p_device = y_device r\<rparr>\<rparr>))"

definition convertWebSocket :: "golib \<Rightarrow> checkYAML \<Rightarrow> CheckConfig \<Rightarrow> config_error + CheckConfig" where
  "convertWebSocket lib r c =
     (let w = \<lparr>ws_url = y_url r, ws_send = y_send r, ws_expect_recv = y_expect_recv r,
               ws_skip_tls = y_skip_tls r, ws_headers = y_headers r\<rparr>
      in case url_parse lib (ws_url w) of
           None \<Rightarrow> Inl (InvalidWebSocketURL (c_name c) (ws_url w))
         | Some u \<Rightarrow>
             if (u_scheme u \<noteq> ''ws'' \<and> u_scheme u \<noteq> ''wss'') \<or> u_host u = ''''
             then Inl (InvalidWebSocketURL (c_name c) (ws_url w))
             else Inr (c\<lparr>c_websocket := Some w\<rparr>))"

definition convertCheck :: "golib \<Rightarrow> checkYAML \<Rightarrow> string \<Rightarrow> config_error + CheckConfig" where
  "convertCheck lib r sourcePath =
     (if y_type r = '''' then Inl (TypeRequired (y_name r))
      else
        let c = emptyCheck r in
        if y_type r = CheckTypeHTTP then convertHTTP lib r c
        else if y_type r = CheckTypeTCP then convertTCP r c
        else if y_type r = CheckTypeDNS then convertDNS r c
        else if y_type r = CheckTypeICMP then convertICMP r c
        else if y_type r = CheckTypeGRPC then convertGRPC r c
        else if y_type r = CheckTypeNTP then convertNTP r c
        else if y_type r = CheckTypeTLS then convertTLS r c
        else if y_type r = CheckTypeUDP then convertUDP r c
        else if y_type r = CheckTypeBGP then convertBGP lib r c
        else if y_type r = CheckTypeDomainExpiry then convertDomainExpiry r c
        else if y_type r = CheckTypeSMTP then convertSMTP r c
        else if y_type r = CheckTypeTraceroute then convertTraceroute r c
        else if y_type r = CheckTypePlaywright then convertPlaywright lib r sourcePath c
        else if y_type r = CheckTypeWebSocket then convertWebSocket lib r c
        else Inl (UnknownCheckType (y_type r)))"

section \<open>Target\<close>

definition host_of_url :: "golib \<Rightarrow> string \<Rightarrow> string" where
  "host_of_url lib s = (case url_parse lib s of None \<Rightarrow> '''' | Some u \<Rightarrow> Hostname u)"

definition opt_string :: "('a \<Rightarrow> string) \<Rightarrow> 'a option \<Rightarrow> string" where
  "opt_string f x = (case x of None \<Rightarrow> '''' | Some v \<Rightarrow> f v)"

definition raw_target :: "golib \<Rightarrow> CheckConfig \<Rightarrow> string" where
  "raw_target lib p =
     (if c_type p = CheckTypeHTTP then opt_string (\<lambda>h. host_of_url lib (h_url h)) (c_http p)
      else if c_type p = CheckTypeTCP then opt_string t_host (c_tcp p)
      else if c_type p = CheckTypeUDP then opt_string ud_host (c_udp p)
      else if c_type p = CheckTypeDNS then opt_string d_domain (c_dns p)
      else if c_type p = CheckTypeICMP then opt_string i_host (c_icmp p)
      else if c_type p = CheckTypeGRPC then opt_string g_host (c_grpc p)
      else if c_type p = CheckTypeNTP then opt_string n_server (c_ntp p)
      else if c_type p = CheckTypeTLS then opt_string tl_host (c_tls p)
      else if c_type p = CheckTypeSMTP then opt_string s_host (c_smtp p)
      else if c_type p = CheckTypeTraceroute then opt_string tr_host (c_traceroute p)
      else if c_type p = CheckTypeBGP then opt_string b_prefix (c_bgp p)
      else if c_type p = CheckTypeDomainExpiry then opt_string de_domain (c_domain_expiry p)
      else if c_type p = CheckTypePlaywright
        then opt_string (\<lambda>w. host_of_url lib (p_base_url w)) (c_playwright p)
      else if c_type p = CheckTypeWebSocket
        then opt_string (\<lambda>w. host_of_url lib (ws_url w)) (c_websocket p)
      else '''')"

definition Target :: "golib \<Rightarrow> CheckConfig \<Rightarrow> string" where
  "Target lib p =
     (let raw = raw_target lib p in
      if raw = '''' then ''''
      else (case SplitHostPort raw of None \<Rightarrow> raw | Some (host, _) \<Rightarrow> host))"

section \<open>Loading files\<close>

record files =
  stat_is_dir :: "string \<Rightarrow> bool option"
  read_dir :: "string \<Rightarrow> (string \<times> bool) list option"
  read_file :: "string \<Rightarrow> string option"
  yaml_checks :: "string \<Rightarrow> checkYAML list option"

fun convertAll ::
  "golib \<Rightarrow> string \<Rightarrow> nat \<Rightarrow> checkYAML list \<Rightarrow> config_error + CheckConfig list" where
  "convertAll lib path i [] = Inr []"
| "convertAll lib path i (r # rs) =
     (case convertCheck lib r path of
        Inl e \<Rightarrow> Inl (InEntry path i (y_name r) e)
      | Inr c \<Rightarrow> (case convertAll lib path (Suc i) rs of Inl e \<Rightarrow> Inl e | Inr cs \<Rightarrow> Inr (c # cs)))"

definition loadChecksFromFile ::
  "golib \<Rightarrow> files \<Rightarrow> (string \<Rightarrow> string option) \<Rightarrow> string \<Rightarrow> config_error + CheckConfig list" where
  "loadChecksFromFile lib fs env path =
     (case read_file fs path of
        None \<Rightarrow> Inl (ReadFileFailed path)
      | Some text \<Rightarrow>
          (case yaml_checks fs (expandEnvVars env text) of
             None \<Rightarrow> Inl (ParsingFailed path)
           | Some raw \<Rightarrow> convertAll lib path 0 raw))"

fun loadEntries ::
  "golib \<Rightarrow> files \<Rightarrow> (string \<Rightarrow> string option) \<Rightarrow> string \<Rightarrow> (string \<times> bool) list \<Rightarrow>
     config_error + CheckConfig list" where
  "loadEntries lib fs env dir [] = Inr []"
| "loadEntries lib fs env dir ((name, isDir) # es) =
     (if isDir then loadEntries lib fs env dir es
      else if \<not> HasSuffix name ''.yml'' \<and> \<not> HasSuffix name ''.yaml''
        then loadEntries lib fs env dir es
      else (case loadChecksFromFile lib fs env (path_join lib dir name) of
              Inl e \<Rightarrow> Inl (InFile name e)
            | Inr cs \<Rightarrow> (case loadEntries lib fs env dir es of
                           Inl e \<Rightarrow> Inl e | Inr rest \<Rightarrow> Inr (cs @ rest))))"

definition loadChecksFromDir ::
  "golib \<Rightarrow> files \<Rightarrow> (string \<Rightarrow> string option) \<Rightarrow> string \<Rightarrow> config_error + CheckConfig list" where
  "loadChecksFromDir lib fs env dir =
     (case read_dir fs dir of
        None \<Rightarrow> Inl (ReadDirFailed dir)
      | Some entries \<Rightarrow> loadEntries lib fs env dir entries)"

definition defaultSchedule :: string where
  "defaultSchedule = ''*/30 * * * * *''"

definition applyDefaults :: "CheckConfig \<Rightarrow> CheckConfig" where
  "applyDefaults c =
     (let c1 = (if c_timeout c = 0 then c\<lparr>c_timeout := 30 * Second\<rparr> else c)
      in if c_schedule c1 = '''' then c1\<lparr>c_schedule := defaultSchedule\<rparr> else c1)"

definition LoadChecks ::
  "golib \<Rightarrow> files \<Rightarrow> (string \<Rightarrow> string option) \<Rightarrow> string \<Rightarrow> config_error + CheckConfig list" where
  "LoadChecks lib fs env path =
     (case stat_is_dir fs path of
        None \<Rightarrow> Inl (StatFailed path)
      | Some isDir \<Rightarrow>
          (case (if isDir then loadChecksFromDir lib fs env path
                 else loadChecksFromFile lib fs env path) of
             Inl e \<Rightarrow> Inl e
           | Inr checks \<Rightarrow> Inr (map applyDefaults checks)))"

fun FindCheckByName :: "CheckConfig list \<Rightarrow> string \<Rightarrow> CheckConfig option" where
  "FindCheckByName [] name = None"
| "FindCheckByName (c # cs) name = (if c_name c = name then Some c else FindCheckByName cs name)"

section \<open>What a converted check satisfies\<close>

definition tls_range_ok :: "string \<Rightarrow> string \<Rightarrow> bool" where
  "tls_range_ok lo hi \<longleftrightarrow>
     (lo \<noteq> '''' \<longrightarrow> TLSVersion lo \<noteq> None) \<and> (hi \<noteq> '''' \<longrightarrow> TLSVersion hi \<noteq> None) \<and>
     (case (TLSVersion lo, TLSVersion hi) of (Some l, Some h) \<Rightarrow> l \<le> h | _ \<Rightarrow> True)"

text \<open>The sub-configuration of the check's own type is present and no other one is.\<close>

definition sub_configs :: "CheckConfig \<Rightarrow> (check_type \<times> bool) list" where
  "sub_configs c =
     [(CheckTypeHTTP, c_http c \<noteq> None), (CheckTypeSMTP, c_smtp c \<noteq> None),
      (CheckTypeTraceroute, c_traceroute c \<noteq> None), (CheckTypePlaywright, c_playwright c \<noteq> None),
      (CheckTypeTCP, c_tcp c \<noteq> None), (CheckTypeDNS, c_dns c \<noteq> None),
      (CheckTypeICMP, c_icmp c \<noteq> None), (CheckTypeGRPC, c_grpc c \<noteq> None),
      (CheckTypeNTP, c_ntp c \<noteq> None), (CheckTypeTLS, c_tls c \<noteq> None),
      (CheckTypeUDP, c_udp c \<noteq> None), (CheckTypeBGP, c_bgp c \<noteq> None),
      (CheckTypeDomainExpiry, c_domain_expiry c \<noteq> None),
      (CheckTypeWebSocket, c_websocket c \<noteq> None)]"

definition well_typed :: "CheckConfig \<Rightarrow> bool" where
  "well_typed c \<longleftrightarrow>
     c_type c \<in> set checkTypes \<and> list_all (\<lambda>(t, present). present = (t = c_type c)) (sub_configs c)"

definition opt_all :: "('a \<Rightarrow> bool) \<Rightarrow> 'a option \<Rightarrow> bool" where
  "opt_all P x = (case x of None \<Rightarrow> True | Some v \<Rightarrow> P v)"

lemma opt_all_simps [simp]: "opt_all P None" "opt_all P (Some v) = P v"
  by (simp_all add: opt_all_def)

definition valid_http :: "golib \<Rightarrow> HTTPCheckConfig \<Rightarrow> bool" where
  "valid_http lib h \<longleftrightarrow>
     h_method h \<noteq> '''' \<and> h_expected_status h \<noteq> 0 \<and> tls_range_ok (h_min_tls h) (h_max_tls h) \<and>
     (h_basic_auth h = None \<or> h_bearer_token h = '''') \<and>
     (h_proxy h \<noteq> '''' \<longrightarrow>
       (case url_parse lib (h_proxy h) of None \<Rightarrow> False
        | Some u \<Rightarrow> u_scheme u \<noteq> '''' \<and> u_host u \<noteq> '''')) \<and>
     list_all (valid_assertion lib) (h_assertions h)"

definition valid_smtp :: "SMTPCheckConfig \<Rightarrow> bool" where
  "valid_smtp s \<longleftrightarrow>
     s_port s \<noteq> 0 \<and> (s_username s = '''' \<longleftrightarrow> s_password s = '''') \<and>
     (s_username s \<noteq> '''' \<longrightarrow> s_start_tls s)"

definition valid_websocket :: "golib \<Rightarrow> WebSocketCheckConfig \<Rightarrow> bool" where
  "valid_websocket lib w \<longleftrightarrow>
     (case url_parse lib (ws_url w) of None \<Rightarrow> False
      | Some u \<Rightarrow> u_scheme u \<in> {''ws'', ''wss''} \<and> u_host u \<noteq> '''')"

definition valid_check :: "golib \<Rightarrow> CheckConfig \<Rightarrow> bool" where
  "valid_check lib c \<longleftrightarrow>
     well_typed c \<and>
     opt_all (valid_http lib) (c_http c) \<and>
     opt_all (\<lambda>t. tls_range_ok (t_min_tls t) (t_max_tls t)) (c_tcp c) \<and>
     opt_all valid_smtp (c_smtp c) \<and>
     opt_all (\<lambda>b. prefix_ok lib (b_prefix b) \<and> 0 < b_expected_origin b) (c_bgp c) \<and>
     opt_all (valid_websocket lib) (c_websocket c) \<and>
     opt_all (\<lambda>t. tl_warn_days t \<noteq> 0 \<and> tl_critical_days t \<noteq> 0) (c_tls c) \<and>
     opt_all (\<lambda>d. de_warn_days d \<noteq> 0 \<and> de_critical_days d \<noteq> 0) (c_domain_expiry c) \<and>
     opt_all (\<lambda>u. ud_max_response_bytes u \<noteq> 0) (c_udp c) \<and>
     opt_all (\<lambda>i. i_count i \<noteq> 0) (c_icmp c) \<and>
     opt_all (\<lambda>n. n_port n \<noteq> 0) (c_ntp c) \<and>
     opt_all (\<lambda>d. d_server d \<noteq> '''' \<and> d_record_type d \<noteq> '''') (c_dns c) \<and>
     opt_all (\<lambda>t. tr_max_hops t \<noteq> 0 \<and> tr_count t \<noteq> 0) (c_traceroute c)"

text \<open>The fields every type shares are copied from the entry.\<close>

definition same_common :: "checkYAML \<Rightarrow> CheckConfig \<Rightarrow> bool" where
  "same_common r c \<longleftrightarrow>
     c_name c = y_name r \<and> c_type c = y_type r \<and> c_group c = y_group r \<and> c_tags c = y_tags r \<and>
     c_schedule c = y_schedule r \<and> c_timeout c = y_timeout r \<and> c_retry c = y_retry r \<and>
     c_degraded_after c = y_degraded_after r"

named_theorems convert_defs "definitions of the cases of convertCheck"

lemmas [convert_defs] = convertHTTP_def convertTCP_def convertDNS_def convertICMP_def
  convertGRPC_def convertNTP_def convertTLS_def convertUDP_def convertBGP_def
  convertDomainExpiry_def convertSMTP_def convertTraceroute_def convertPlaywright_def
  convertWebSocket_def

lemma TLSVersion_nonzero: "TLSVersion s = Some v \<Longrightarrow> v \<noteq> 0"
  by (auto simp: TLSVersion_def split: if_splits)

lemma TLSVersion_empty [simp]: "TLSVersion '''' = None"
  by (simp add: TLSVersion_def)

lemma validateTLSVersions_ok: "validateTLSVersions name lo hi = None \<longleftrightarrow> tls_range_ok lo hi"
  by (auto simp: validateTLSVersions_def tls_range_ok_def Let_def dest: TLSVersion_nonzero
      split: if_splits option.splits)

lemma validateAssertions_from_ok:
  "validateAssertions_from lib name j as = None \<longleftrightarrow> list_all (valid_assertion lib) as"
  by (induction as arbitrary: j) (auto simp: valid_assertion_def)

lemma validateAssertions_ok:
  "validateAssertions lib name as = None \<longleftrightarrow> list_all (valid_assertion lib) as"
  by (simp add: validateAssertions_def validateAssertions_from_ok)

text \<open>Each case of the switch only sets its own sub-configuration.\<close>

lemma convertHTTP_cases:
  "convertHTTP lib r c0 = Inr c \<Longrightarrow> \<exists>h. c = c0\<lparr>c_http := Some h\<rparr> \<and> valid_http lib h"
  by (fastforce simp: convertHTTP_def Let_def valid_http_def validateTLSVersions_ok
      validateAssertions_ok split: option.splits if_splits)

lemma convertTCP_cases:
  "convertTCP r c0 = Inr c \<Longrightarrow>
     \<exists>t. c = c0\<lparr>c_tcp := Some t\<rparr> \<and> tls_range_ok (t_min_tls t) (t_max_tls t)"
  by (fastforce simp: convertTCP_def Let_def validateTLSVersions_ok split: option.splits)

lemma convertDNS_cases:
  "convertDNS r c0 = Inr c \<Longrightarrow>
     \<exists>d. c = c0\<lparr>c_dns := Some d\<rparr> \<and> d_server d \<noteq> '''' \<and> d_record_type d \<noteq> ''''"
  by (fastforce simp: convertDNS_def)

lemma convertICMP_cases:
  "convertICMP r c0 = Inr c \<Longrightarrow> \<exists>i. c = c0\<lparr>c_icmp := Some i\<rparr> \<and> i_count i \<noteq> 0"
  by (fastforce simp: convertICMP_def)

lemma convertGRPC_cases: "convertGRPC r c0 = Inr c \<Longrightarrow> \<exists>g. c = c0\<lparr>c_grpc := Some g\<rparr>"
  by (auto simp: convertGRPC_def)

lemma convertNTP_cases:
  "convertNTP r c0 = Inr c \<Longrightarrow> \<exists>n. c = c0\<lparr>c_ntp := Some n\<rparr> \<and> n_port n \<noteq> 0"
  by (fastforce simp: convertNTP_def)

lemma convertTLS_cases:
  "convertTLS r c0 = Inr c \<Longrightarrow>
     \<exists>t. c = c0\<lparr>c_tls := Some t\<rparr> \<and> tl_warn_days t \<noteq> 0 \<and> tl_critical_days t \<noteq> 0"
  by (fastforce simp: convertTLS_def Let_def)

lemma convertUDP_cases:
  "convertUDP r c0 = Inr c \<Longrightarrow> \<exists>u. c = c0\<lparr>c_udp := Some u\<rparr> \<and> ud_max_response_bytes u \<noteq> 0"
  by (fastforce simp: convertUDP_def Let_def)

lemma convertBGP_cases:
  "convertBGP lib r c0 = Inr c \<Longrightarrow>
     \<exists>b. c = c0\<lparr>c_bgp := Some b\<rparr> \<and> prefix_ok lib (b_prefix b) \<and> 0 < b_expected_origin b"
  by (fastforce simp: convertBGP_def split: if_splits)

lemma convertDomainExpiry_cases:
  "convertDomainExpiry r c0 = Inr c \<Longrightarrow>
     \<exists>d. c = c0\<lparr>c_domain_expiry := Some d\<rparr> \<and> de_warn_days d \<noteq> 0 \<and> de_critical_days d \<noteq> 0"
  by (fastforce simp: convertDomainExpiry_def Let_def)

lemma convertSMTP_cases:
  "convertSMTP r c0 = Inr c \<Longrightarrow> \<exists>s. c = c0\<lparr>c_smtp := Some s\<rparr> \<and> valid_smtp s"
  by (fastforce simp: convertSMTP_def Let_def valid_smtp_def split: if_splits)

lemma convertTraceroute_cases:
  "convertTraceroute r c0 = Inr c \<Longrightarrow>
     \<exists>t. c = c0\<lparr>c_traceroute := Some t\<rparr> \<and> tr_max_hops t \<noteq> 0 \<and> tr_count t \<noteq> 0"
  by (fastforce simp: convertTraceroute_def)

lemma convertPlaywright_cases:
  "convertPlaywright lib r p c0 = Inr c \<Longrightarrow> \<exists>w. c = c0\<lparr>c_playwright := Some w\<rparr>"
  by (auto simp: convertPlaywright_def Let_def)

lemma convertWebSocket_cases:
  "convertWebSocket lib r c0 = Inr c \<Longrightarrow> \<exists>w. c = c0\<lparr>c_websocket := Some w\<rparr> \<and> valid_websocket lib w"
  by (fastforce simp: convertWebSocket_def Let_def valid_websocket_def split: option.splits if_splits)

lemmas convert_cases = convertHTTP_cases convertTCP_cases convertDNS_cases convertICMP_cases
  convertGRPC_cases convertNTP_cases convertTLS_cases convertUDP_cases convertBGP_cases
  convertDomainExpiry_cases convertSMTP_cases convertTraceroute_cases convertPlaywright_cases
  convertWebSocket_cases

lemma same_common_empty:
  "same_common r (emptyCheck r)"
  "same_common r (c\<lparr>c_http := x1\<rparr>) = same_common r c"
  "same_common r (c\<lparr>c_tcp := x2\<rparr>) = same_common r c"
  "same_common r (c\<lparr>c_dns := x3\<rparr>) = same_common r c"
  "same_common r (c\<lparr>c_icmp := x4\<rparr>) = same_common r c"
  "same_common r (c\<lparr>c_grpc := x5\<rparr>) = same_common r c"
  "same_common r (c\<lparr>c_ntp := x6\<rparr>) = same_common r c"
  "same_common r (c\<lparr>c_tls := x7\<rparr>) = same_common r c"
  "same_common r (c\<lparr>c_udp := x8\<rparr>) = same_common r c"
  "same_common r (c\<lparr>c_bgp := x9\<rparr>) = same_common r c"
  "same_common r (c\<lparr>c_domain_expiry := x10\<rparr>) = same_common r c"
  "same_common r (c\<lparr>c_smtp := x11\<rparr>) = same_common r c"
  "same_common r (c\<lparr>c_traceroute := x12\<rparr>) = same_common r c"
  "same_common r (c\<lparr>c_playwright := x13\<rparr>) = same_common r c"
  "same_common r (c\<lparr>c_websocket := x14\<rparr>) = same_common r c"
  by (simp_all add: same_common_def emptyCheck_def)

lemmas valid_defs = emptyCheck_def valid_check_def well_typed_def sub_configs_def checkTypes_def

text \<open>An empty check with one sub-configuration is valid when that one is.\<close>

lemma valid_single:
  "y_type r = CheckTypeHTTP \<Longrightarrow> valid_http lib h \<Longrightarrow>
     valid_check lib ((emptyCheck r)\<lparr>c_http := Some h\<rparr>)"
  "y_type r = CheckTypeTCP \<Longrightarrow> tls_range_ok (t_min_tls t) (t_max_tls t) \<Longrightarrow>
     valid_check lib ((emptyCheck r)\<lparr>c_tcp := Some t\<rparr>)"
  "y_type r = CheckTypeDNS \<Longrightarrow> d_server d \<noteq> '''' \<Longrightarrow> d_record_type d \<noteq> '''' \<Longrightarrow>
     valid_check lib ((emptyCheck r)\<lparr>c_dns := Some d\<rparr>)"
  "y_type r = CheckTypeICMP \<Longrightarrow> i_count i \<noteq> 0 \<Longrightarrow>
     valid_check lib ((emptyCheck r)\<lparr>c_icmp := Some i\<rparr>)"
  "y_type r = CheckTypeGRPC \<Longrightarrow> valid_check lib ((emptyCheck r)\<lparr>c_grpc := Some g\<rparr>)"
  "y_type r = CheckTypeNTP \<Longrightarrow> n_port n \<noteq> 0 \<Longrightarrow>
     valid_check lib ((emptyCheck r)\<lparr>c_ntp := Some n\<rparr>)"
  "y_type r = CheckTypeTLS \<Longrightarrow> tl_warn_days ct \<noteq> 0 \<Longrightarrow> tl_critical_days ct \<noteq> 0 \<Longrightarrow>
     valid_check lib ((emptyCheck r)\<lparr>c_tls := Some ct\<rparr>)"
  "y_type r = CheckTypeUDP \<Longrightarrow> ud_max_response_bytes u \<noteq> 0 \<Longrightarrow>
     valid_check lib ((emptyCheck r)\<lparr>c_udp := Some u\<rparr>)"
  by (simp_all add: valid_defs)

lemma valid_single':
  "y_type r = CheckTypeBGP \<Longrightarrow> prefix_ok lib (b_prefix b) \<Longrightarrow> 0 < b_expected_origin b \<Longrightarrow>
     valid_check lib ((emptyCheck r)\<lparr>c_bgp := Some b\<rparr>)"
  "y_type r = CheckTypeDomainExpiry \<Longrightarrow> de_warn_days d \<noteq> 0 \<Longrightarrow> de_critical_days d \<noteq> 0 \<Longrightarrow>
     valid_check lib ((emptyCheck r)\<lparr>c_domain_expiry := Some d\<rparr>)"
  "y_type r = CheckTypeSMTP \<Longrightarrow> valid_smtp s \<Longrightarrow>
     valid_check lib ((emptyCheck r)\<lparr>c_smtp := Some s\<rparr>)"
  "y_type r = CheckTypeTraceroute \<Longrightarrow> tr_max_hops t \<noteq> 0 \<Longrightarrow> tr_count t \<noteq> 0 \<Longrightarrow>
     valid_check lib ((emptyCheck r)\<lparr>c_traceroute := Some t\<rparr>)"
  "y_type r = CheckTypePlaywright \<Longrightarrow> valid_check lib ((emptyCheck r)\<lparr>c_playwright := Some w\<rparr>)"
  "y_type r = CheckTypeWebSocket \<Longrightarrow> valid_websocket lib v \<Longrightarrow>
     valid_check lib ((emptyCheck r)\<lparr>c_websocket := Some v\<rparr>)"
  by (simp_all add: valid_defs)

lemma convertCheck_sound:
  assumes "convertCheck lib r p = Inr c"
  shows "valid_check lib c \<and> same_common r c"
  using assms unfolding convertCheck_def Let_def
  by (fastforce dest!: convert_cases intro: valid_single valid_single'
      simp: same_common_empty split: if_splits)

section \<open>Which entries are accepted\<close>

definition acceptable :: "golib \<Rightarrow> checkYAML \<Rightarrow> bool" where
  "acceptable lib r \<longleftrightarrow>
     (if y_type r = CheckTypeHTTP then
        tls_range_ok (y_min_tls r) (y_max_tls r) \<and>
        (y_basic_auth r = None \<or> y_bearer_token r = '''') \<and>
        (y_proxy r = '''' \<or>
          (case url_parse lib (y_proxy r) of None \<Rightarrow> False
           | Some u \<Rightarrow> u_scheme u \<noteq> '''' \<and> u_host u \<noteq> '''')) \<and>
        list_all (valid_assertion lib) (y_assertions r)
      else if y_type r = CheckTypeTCP then tls_range_ok (y_min_tls r) (y_max_tls r)
      else if y_type r = CheckTypeBGP then prefix_ok lib (y_prefix r) \<and> 0 < y_expected_origin r
      else if y_type r = CheckTypeSMTP then
        (y_username r = '''' \<longleftrightarrow> y_password r = '''') \<and> (y_username r \<noteq> '''' \<longrightarrow> y_start_tls r)
      else if y_type r = CheckTypeWebSocket then
        (case url_parse lib (y_url r) of None \<Rightarrow> False
         | Some u \<Rightarrow> u_scheme u \<in> {''ws'', ''wss''} \<and> u_host u \<noteq> '''')
      else y_type r \<in> set checkTypes)"

lemma convertHTTP_accepts:
  "(\<exists>c. convertHTTP lib r c0 = Inr c) \<longleftrightarrow>
     tls_range_ok (y_min_tls r) (y_max_tls r) \<and>
     (y_basic_auth r = None \<or> y_bearer_token r = '''') \<and>
     (y_proxy r = '''' \<or>
       (case url_parse lib (y_proxy r) of None \<Rightarrow> False
        | Some u \<Rightarrow> u_scheme u \<noteq> '''' \<and> u_host u \<noteq> '''')) \<and>
     list_all (valid_assertion lib) (y_assertions r)"
  by (auto simp: convertHTTP_def Let_def
      validateTLSVersions_ok [of "c_name c0", symmetric]
      validateAssertions_ok [of lib "c_name c0", symmetric] split: option.splits)

lemma convert_accepts:
  "(\<exists>c. convertTCP r c0 = Inr c) \<longleftrightarrow> tls_range_ok (y_min_tls r) (y_max_tls r)"
  "(\<exists>c. convertBGP lib r c0 = Inr c) \<longleftrightarrow> prefix_ok lib (y_prefix r) \<and> 0 < y_expected_origin r"
  "(\<exists>c. convertSMTP r c0 = Inr c) \<longleftrightarrow>
     (y_username r = '''' \<longleftrightarrow> y_password r = '''') \<and> (y_username r \<noteq> '''' \<longrightarrow> y_start_tls r)"
  "(\<exists>c. convertWebSocket lib r c0 = Inr c) \<longleftrightarrow>
     (case url_parse lib (y_url r) of None \<Rightarrow> False
      | Some u \<Rightarrow> u_scheme u \<in> {''ws'', ''wss''} \<and> u_host u \<noteq> '''')"
  by (auto simp: convert_defs Let_def validateTLSVersions_ok [of "c_name c0", symmetric]
      split: option.splits)

lemma convert_total:
  "\<exists>c. convertDNS r c0 = Inr c" "\<exists>c. convertICMP r c0 = Inr c" "\<exists>c. convertGRPC r c0 = Inr c"
  "\<exists>c. convertNTP r c0 = Inr c" "\<exists>c. convertTLS r c0 = Inr c" "\<exists>c. convertUDP r c0 = Inr c"
  "\<exists>c. convertDomainExpiry r c0 = Inr c" "\<exists>c. convertTraceroute r c0 = Inr c"
  "\<exists>c. convertPlaywright lib r p c0 = Inr c"
  by (simp_all add: convert_defs Let_def)

section \<open>Lists of entries and directories\<close>

lemma convertAll_Inr:
  "convertAll lib path i rs = Inr cs \<Longrightarrow> list_all2 (\<lambda>r c. convertCheck lib r path = Inr c) rs cs"
  by (induction rs arbitrary: i cs) (auto split: sum.splits)

lemma loadChecksFromFile_valid:
  assumes "loadChecksFromFile lib fs env path = Inr cs"
  shows "list_all (valid_check lib) cs"
proof -
  from assms obtain raw where "convertAll lib path 0 raw = Inr cs"
    by (auto simp: loadChecksFromFile_def split: option.splits)
  then have "list_all2 (\<lambda>r c. convertCheck lib r path = Inr c) raw cs"
    by (rule convertAll_Inr)
  then show ?thesis
    by (induction rule: list_all2_induct) (auto dest: convertCheck_sound)
qed

text \<open>The names of the definition files of a directory listing, in its order.\<close>

definition yaml_names :: "(string \<times> bool) list \<Rightarrow> string list" where
  "yaml_names es =
     map fst (filter (\<lambda>(n, isDir). \<not> isDir \<and> (HasSuffix n ''.yml'' \<or> HasSuffix n ''.yaml'')) es)"

lemma loadEntries_Inr:
  "loadEntries lib fs env dir es = Inr cs \<Longrightarrow>
     \<exists>css. list_all2 (\<lambda>n l. loadChecksFromFile lib fs env (path_join lib dir n) = Inr l)
             (yaml_names es) css \<and> cs = concat css"
proof (induction es arbitrary: cs)
  case Nil
  then show ?case by (auto simp: yaml_names_def)
next
  case (Cons e es)
  obtain n d where e: "e = (n, d)" by (cases e)
  show ?case
  proof (cases "\<not> d \<and> (HasSuffix n ''.yml'' \<or> HasSuffix n ''.yaml'')")
    case False
    with Cons show ?thesis by (auto simp: e yaml_names_def split: if_splits)
  next
    case True
    with Cons.prems obtain l rest where
      l: "loadChecksFromFile lib fs env (path_join lib dir n) = Inr l"
      and rest: "loadEntries lib fs env dir es = Inr rest" and cs: "cs = l @ rest"
      by (auto simp: e split: sum.splits)
    from Cons.IH [OF rest] obtain css where
      "list_all2 (\<lambda>n l. loadChecksFromFile lib fs env (path_join lib dir n) = Inr l) (yaml_names es) css"
      and "rest = concat css" by blast
    with True l cs show ?thesis
      by (intro exI [of _ "l # css"]) (auto simp: e yaml_names_def)
  qed
qed

lemma loadEntries_valid:
  assumes "loadEntries lib fs env dir es = Inr cs"
  shows "list_all (valid_check lib) cs"
proof -
  from loadEntries_Inr [OF assms] obtain css where
    all: "list_all2 (\<lambda>n l. loadChecksFromFile lib fs env (path_join lib dir n) = Inr l) (yaml_names es) css"
    and cs: "cs = concat css" by blast
  from all have "list_all (list_all (valid_check lib)) css"
    by (induction rule: list_all2_induct) (auto dest: loadChecksFromFile_valid)
  then show ?thesis
    by (auto simp: cs list_all_iff)
qed

lemma valid_check_applyDefaults: "valid_check lib (applyDefaults c) = valid_check lib c"
  by (simp add: applyDefaults_def Let_def valid_check_def well_typed_def sub_configs_def)

lemma applyDefaults_set: "c_timeout (applyDefaults c) \<noteq> 0 \<and> c_schedule (applyDefaults c) \<noteq> ''''"
  by (simp add: applyDefaults_def Let_def defaultSchedule_def)

section \<open>Properties\<close>

definition zeroYAML :: checkYAML where
  "zeroYAML =
     \<lparr>y_name = '''', y_type = '''', y_group = '''', y_tags = [], y_schedule = '''', y_timeout = 0,
      y_retry = None, y_degraded_after = 0, y_url = '''', y_method = '''', y_expected_status = 0,
      y_headers = [], y_body = '''', y_skip_tls = False, y_follow_redirects = False,
      y_basic_auth = None, y_bearer_token = '''', y_proxy = '''', y_assertions = [],
      y_min_tls = '''', y_max_tls = '''', y_host = '''', y_port = 0, y_ip_version = '''',
      y_send = '''', y_expect_recv = '''', y_tls = False, y_start_tls = False, y_username = '''',
      y_password = '''', y_domain = '''', y_server = '''', y_record_type = '''', y_expected = [],
      y_count = 0, y_max_hops = 0, y_service = '''', y_check_expiry = None, y_warn_days = 0,
      y_critical_days = 0, y_send_hex = '''', y_expect_response = None, y_max_response_bytes = 0,
      y_prefix = '''', y_expected_origin = 0, y_script = '''', y_authenticator = '''',
      y_base_url = '''', y_video = False, y_network = '''', y_device = ''''\<rparr>"

text \<open>A concrete library and a directory with one file, for evaluating the functions above.\<close>

definition sample_lib :: golib where
  "sample_lib =
     \<lparr>url_parse = (\<lambda>s. if s = ''wss://h'' then Some \<lparr>u_scheme = ''wss'', u_host = ''h''\<rparr> else None),
      prefix_ok = (\<lambda>s. s = ''10.0.0.0/8''), regex_ok = (\<lambda>s. s \<noteq> ''(''),
      path_join = (\<lambda>d n. d @ ''/'' @ n), path_dir = (\<lambda>p. ''conf'')\<rparr>"

definition sample_mail :: checkYAML where
  "sample_mail = zeroYAML\<lparr>y_name := ''mail'', y_type := CheckTypeSMTP, y_host := ''mx:25'',
     y_start_tls := True, y_username := ''u'', y_password := ''p''\<rparr>"

definition sample_files :: files where
  "sample_files =
     \<lparr>stat_is_dir = (\<lambda>p. Some True), read_dir = (\<lambda>d. Some [(''a.yml'', False), (''b.txt'', False)]),
      read_file = (\<lambda>p. if p = ''checks/a.yml'' then Some ''mail'' else None),
      yaml_checks = (\<lambda>t. if t = ''mail'' then Some [sample_mail] else None)\<rparr>"



text \<open>
  Property C13. Exactly the entries that satisfy the documented rules of their type are accepted;
  every other entry, an unknown or missing type included, is an error.
\<close>

theorem convertCheck_accepts_iff: "(\<exists>c. convertCheck lib r p = Inr c) = acceptable lib r"
proof -
  consider "y_type r \<in> set checkTypes" | "y_type r \<notin> set checkTypes" by blast
  then show ?thesis
  proof cases
    case 1
    then show ?thesis
      unfolding convertCheck_def acceptable_def Let_def
      by (auto simp: checkTypes_def convertHTTP_accepts convert_accepts convert_total)
  next
    case 2
    then show ?thesis
      by (auto simp: convertCheck_def acceptable_def Let_def checkTypes_def)
  qed
qed

text \<open>
  Loading is all or nothing and fills the defaults: when \<open>LoadChecks\<close> succeeds, every
  check it returns is valid and has a timeout and a schedule; for a directory the result is the
  concatenation, in listing order, of what each definition file (and no other entry) loads, so one
  bad file fails the whole load.
\<close>

theorem LoadChecks_complete:
  assumes "LoadChecks lib fs env path = Inr cs"
  shows "list_all (\<lambda>c. valid_check lib c \<and> c_timeout c \<noteq> 0 \<and> c_schedule c \<noteq> '''') cs \<and>
    (\<forall>es. stat_is_dir fs path = Some True \<and> read_dir fs path = Some es \<longrightarrow>
      (\<exists>css. list_all2 (\<lambda>n l. loadChecksFromFile lib fs env (path_join lib path n) = Inr l)
              (yaml_names es) css \<and> cs = map applyDefaults (concat css)))"
proof -
  from assms obtain d cs0 where d: "stat_is_dir fs path = Some d"
    and cs0: "(if d then loadChecksFromDir lib fs env path else loadChecksFromFile lib fs env path) = Inr cs0"
    and cs: "cs = map applyDefaults cs0"
    by (auto simp: LoadChecks_def split: option.splits sum.splits)
  from cs0 have "list_all (valid_check lib) cs0"
    by (auto simp: loadChecksFromDir_def dest: loadChecksFromFile_valid loadEntries_valid
        split: if_splits option.splits)
  then have "list_all (\<lambda>c. valid_check lib c \<and> c_timeout c \<noteq> 0 \<and> c_schedule c \<noteq> '''') cs"
    by (auto simp: cs list_all_iff valid_check_applyDefaults applyDefaults_set)
  moreover have "\<exists>css. list_all2 (\<lambda>n l. loadChecksFromFile lib fs env (path_join lib path n) = Inr l)
              (yaml_names es) css \<and> cs = map applyDefaults (concat css)"
    if "stat_is_dir fs path = Some True" "read_dir fs path = Some es" for es
  proof -
    from that d cs0 have "loadEntries lib fs env path es = Inr cs0"
      by (auto simp: loadChecksFromDir_def)
    then show ?thesis by (auto simp: cs dest: loadEntries_Inr)
  qed
  ultimately show ?thesis by blast
qed

theorem LoadChecks_complete_witness:
  "\<exists>cs. LoadChecks sample_lib sample_files Map.empty ''checks'' = Inr cs \<and> cs \<noteq> [] \<and>
     list_all (\<lambda>c. valid_check sample_lib c \<and> c_timeout c \<noteq> 0 \<and> c_schedule c \<noteq> '''') cs"
proof -
  obtain c where "LoadChecks sample_lib sample_files Map.empty ''checks'' = Inr [c]"
    by (simp add: LoadChecks_def sample_files_def loadChecksFromDir_def loadChecksFromFile_def
        HasSuffix_def sample_lib_def convertCheck_def sample_mail_def zeroYAML_def convertSMTP_def
        match_env_def HasPrefix_def Let_def)
  with LoadChecks_complete [OF this] show ?thesis by blast
qed

text \<open>
  \<open>Target\<close> is the host without its port: a configured target \<open>host:port\<close> yields the
  host and a bare host yields itself.
\<close>

theorem Target_host:
  assumes "raw_target lib c = h @ CHR '':'' # port \<or> raw_target lib c = h"
    and "CHR '':'' \<notin> set h \<union> set port" "CHR ''['' \<notin> set h \<union> set port" "CHR '']'' \<notin> set h \<union> set port"
  shows "Target lib c = h"
  using assms SplitHostPort_plain [of h port] SplitHostPort_no_colon [of h]
  by (auto simp: Target_def Let_def)

theorem Target_host_witness:
  "Target sample_lib ((emptyCheck sample_mail)\<lparr>c_smtp :=
     Some \<lparr>s_host = ''mx:25'', s_port = 25, s_timeout = 0, s_start_tls = True, s_skip_tls = False,
           s_username = '''', s_password = ''''\<rparr>\<rparr>) = ''mx''"
  by (rule Target_host [where port = "''25''"])
     (simp_all add: raw_target_def emptyCheck_def sample_mail_def zeroYAML_def opt_string_def)

end
