(* ===== verification/Check_Filter.thy ===== *)
theory Check_Filter
  imports Config_Checks
begin

text \<open>
  Selecting checks: \<open>internal/config/filter.go\<close>, the command-line overrides of
  \<open>cmd/filter.go\<close> and the type sets of \<open>cmd/validate.go\<close>. The theorems relate the loops to a
  declarative reading of the filter (\<open>selects\<close>) and show what the load path of every command
  returns.
\<close>

section \<open>The filter\<close>

definition allCheckTypes :: "check_type \<Rightarrow> bool" where
  "allCheckTypes t \<longleftrightarrow> t \<in> set checkTypes"

definition IsEmpty :: "CheckFilter \<Rightarrow> bool" where
  "IsEmpty f \<longleftrightarrow> length (f_types f) = 0 \<and> length (f_groups f) = 0 \<and> length (f_tags f) = 0"

definition validTypesList :: string where
  "validTypesList = Join (sort checkTypes) '', ''"

datatype filter_error = UnknownFilterType string string

fun validateTypes :: "string list \<Rightarrow> filter_error option" where
  "validateTypes [] = None"
| "validateTypes (t # ts) =
     (if \<not> allCheckTypes (ToLower (TrimSpace t)) then Some (UnknownFilterType t validTypesList)
      else validateTypes ts)"

definition Validate :: "CheckFilter \<Rightarrow> filter_error option" where
  "Validate f = validateTypes (f_types f)"

fun containsFold :: "string list \<Rightarrow> string \<Rightarrow> bool" where
  "containsFold [] want = False"
| "containsFold (s # ss) want = (if EqualFold (TrimSpace s) want then True else containsFold ss want)"

fun intersectsFold :: "string list \<Rightarrow> string list \<Rightarrow> bool" where
  "intersectsFold [] b = False"
| "intersectsFold (x # a) b = (if containsFold b (TrimSpace x) then True else intersectsFold a b)"

definition Matches :: "CheckFilter \<Rightarrow> CheckConfig \<Rightarrow> bool" where
  "Matches f c =
     (if length (f_types f) > 0 \<and> \<not> containsFold (f_types f) (c_type c) then False
      else if length (f_groups f) > 0 \<and> \<not> containsFold (f_groups f) (c_group c) then False
      else if length (f_tags f) > 0 \<and> \<not> intersectsFold (f_tags f) (c_tags c) then False
      else True)"

fun filterLoop :: "CheckFilter \<Rightarrow> CheckConfig list \<Rightarrow> CheckConfig list \<Rightarrow> CheckConfig list" where
  "filterLoop f out [] = out"
| "filterLoop f out (c # cs) = filterLoop f (if Matches f c then out @ [c] else out) cs"

definition FilterChecks :: "CheckConfig list \<Rightarrow> CheckFilter \<Rightarrow> CheckConfig list" where
  "FilterChecks checks f = (if IsEmpty f then checks else filterLoop f [] checks)"

fun splitLoop :: "string list \<Rightarrow> string list \<Rightarrow> string list" where
  "splitLoop out [] = out"
| "splitLoop out (p # ps) =
     (let p' = TrimSpace p in splitLoop (if p' \<noteq> '''' then out @ [p'] else out) ps)"

definition SplitCSV :: "string \<Rightarrow> string list" where
  "SplitCSV s = (if TrimSpace s = '''' then [] else splitLoop [] (Split CHR '','' s))"

section \<open>The command line\<close>

record filter_flags =
  filterTypes :: string
  filterGroups :: string
  filterTags :: string

definition effectiveFilter :: "filter_flags \<Rightarrow> CheckFilter \<Rightarrow> CheckFilter" where
  "effectiveFilter fl f0 =
     (let f1 = (if filterTypes fl \<noteq> '''' then f0\<lparr>f_types := SplitCSV (filterTypes fl)\<rparr> else f0);
          f2 = (if filterGroups fl \<noteq> '''' then f1\<lparr>f_groups := SplitCSV (filterGroups fl)\<rparr> else f1)
      in if filterTags fl \<noteq> '''' then f2\<lparr>f_tags := SplitCSV (filterTags fl)\<rparr> else f2)"

datatype cmd_error = LoadingChecks config_error | BadFilter filter_error

definition loadFilteredChecks ::
  "filter_flags \<Rightarrow> CheckFilter \<Rightarrow> config_error + CheckConfig list \<Rightarrow> cmd_error + CheckConfig list" where
  "loadFilteredChecks fl cfgFilter loaded =
     (case loaded of
        Inl e \<Rightarrow> Inl (LoadingChecks e)
      | Inr checks \<Rightarrow>
          (let f = effectiveFilter fl cfgFilter in
           case Validate f of
             Some e \<Rightarrow> Inl (BadFilter e)
           | None \<Rightarrow> if IsEmpty f then Inr checks else Inr (FilterChecks checks f)))"

text \<open>\<open>parseTypeSet\<close> distinguishes a nil set (no restriction) from an empty one.\<close>

fun typeSetLoop :: "check_type list \<Rightarrow> string list \<Rightarrow> check_type list" where
  "typeSetLoop m [] = m"
| "typeSetLoop m (t # ts) =
     (let t' = TrimSpace t in typeSetLoop (if t' \<noteq> '''' then m @ [t'] else m) ts)"

definition parseTypeSet :: "string \<Rightarrow> check_type list option" where
  "parseTypeSet flag = (if flag = '''' then None else Some (typeSetLoop [] (Split CHR '','' flag)))"

definition shouldRun :: "check_type \<Rightarrow> check_type list option \<Rightarrow> check_type list option \<Rightarrow> bool" where
  "shouldRun ct incl excl =
     (if incl \<noteq> None \<and> ct \<notin> set (the incl) then False
      else if excl \<noteq> None \<and> ct \<in> set (the excl) then False
      else True)"

section \<open>Declarative reading\<close>

definition fold_eq :: "string \<Rightarrow> string \<Rightarrow> bool" where
  "fold_eq s t \<longleftrightarrow> ToLower (TrimSpace s) = ToLower t"

definition selects :: "CheckFilter \<Rightarrow> CheckConfig \<Rightarrow> bool" where
  "selects f c \<longleftrightarrow>
     (f_types f = [] \<or> list_ex (\<lambda>s. fold_eq s (c_type c)) (f_types f)) \<and>
     (f_groups f = [] \<or> list_ex (\<lambda>s. fold_eq s (c_group c)) (f_groups f)) \<and>
     (f_tags f = [] \<or> list_ex (\<lambda>x. list_ex (\<lambda>s. fold_eq s (TrimSpace x)) (c_tags c)) (f_tags f))"

lemma containsFold_iff: "containsFold ss want \<longleftrightarrow> list_ex (\<lambda>s. fold_eq s want) ss"
  by (induction ss) (auto simp: fold_eq_def EqualFold_def)

lemma intersectsFold_iff:
  "intersectsFold a b \<longleftrightarrow> list_ex (\<lambda>x. list_ex (\<lambda>s. fold_eq s (TrimSpace x)) b) a"
  by (induction a) (auto simp: containsFold_iff)

lemma Matches_iff: "Matches f c = selects f c"
  by (auto simp: Matches_def selects_def containsFold_iff intersectsFold_iff)

lemma filterLoop_filter: "filterLoop f out cs = out @ filter (selects f) cs"
  by (induction cs arbitrary: out) (auto simp: Matches_iff)

lemma FilterChecks_filter: "FilterChecks checks f = filter (selects f) checks"
proof (cases "IsEmpty f")
  case True
  then have "selects f c" for c by (simp add: IsEmpty_def selects_def)
  with True show ?thesis by (simp add: FilterChecks_def)
qed (simp add: FilterChecks_def filterLoop_filter)

lemma validateTypes_ok:
  "validateTypes ts = None \<longleftrightarrow> list_all (\<lambda>t. ToLower (TrimSpace t) \<in> set checkTypes) ts"
  by (induction ts) (auto simp: allCheckTypes_def)

lemma splitLoop_filter: "splitLoop out ps = out @ filter (\<lambda>p. p \<noteq> '''') (map TrimSpace ps)"
  by (induction ps arbitrary: out) (auto simp: Let_def)

lemma typeSetLoop_filter: "typeSetLoop m ts = m @ filter (\<lambda>p. p \<noteq> '''') (map TrimSpace ts)"
  by (induction ts arbitrary: m) (auto simp: Let_def)

lemma TrimSpace_empty_iff: "TrimSpace s = '''' \<longleftrightarrow> list_all is_space s"
proof -
  let ?d = "dropWhile is_space s"
  have "TrimSpace s = '''' \<longleftrightarrow> (\<forall>x \<in> set ?d. is_space x)"
    by (simp add: TrimSpace_def dropWhile_eq_Nil_conv)
  also have "\<dots> \<longleftrightarrow> ?d = []"
    by (metis empty_iff hd_dropWhile hd_in_set list.set(1))
  finally show ?thesis by (simp add: dropWhile_eq_Nil_conv list_all_iff)
qed

lemma set_TrimSpace: "set (TrimSpace s) \<subseteq> set s"
  unfolding TrimSpace_def by (auto dest!: set_dropWhileD)

lemma TrimSpace_prefix_space: "is_space c \<Longrightarrow> TrimSpace (c # s) = TrimSpace s"
  by (simp add: TrimSpace_def)

text \<open>A blank text splits into blank parts, so the early return of \<open>SplitCSV\<close> changes nothing.\<close>

lemma Split_blank: "list_all is_space s \<Longrightarrow> Split CHR '','' s = [s]"
  by (induction s) (auto simp: is_space_def)

lemma SplitCSV_eq: "SplitCSV s = filter (\<lambda>p. p \<noteq> '''') (map TrimSpace (Split CHR '','' s))"
  by (auto simp: SplitCSV_def splitLoop_filter TrimSpace_empty_iff Split_blank)

lemma Split_append_sep: "c \<notin> set w \<Longrightarrow> Split c (w @ c # s) = w # Split c s"
  by (induction w) auto

lemma Split_plain: "c \<notin> set w \<Longrightarrow> Split c w = [w]"
  by (induction w) auto

lemma Split_Join:
  "ws \<noteq> [] \<Longrightarrow> list_all (\<lambda>w. c \<notin> set w) ws \<Longrightarrow> Split c (Join ws [c]) = ws"
proof (induction ws)
  case (Cons w ws)
  then show ?case
    by (cases "ws = []") (auto simp: Split_plain Join_Cons Split_append_sep)
qed simp

section \<open>Properties\<close>

text \<open>
  \<open>FilterChecks\<close> keeps, in order, exactly the checks that satisfy every specified
  dimension (any of its values, ignoring case and surrounding space); an empty dimension imposes no
  restriction.
\<close>

theorem FilterChecks_selects: "FilterChecks checks f = filter (selects f) checks"
  by (rule FilterChecks_filter)

text \<open>
  \<open>SplitCSV\<close> returns trimmed, non-empty values without commas, and writing such values
  back with commas and splitting again gives the same list.
\<close>

theorem SplitCSV_roundtrip:
  "list_all (\<lambda>w. w \<noteq> '''' \<and> TrimSpace w = w \<and> CHR '','' \<notin> set w) (SplitCSV s) \<and>
   SplitCSV (Join (SplitCSV s) '','') = SplitCSV s"
proof
  show ok: "list_all (\<lambda>w. w \<noteq> '''' \<and> TrimSpace w = w \<and> CHR '','' \<notin> set w) (SplitCSV s)"
    using set_TrimSpace Split_no_sep by (fastforce simp: SplitCSV_eq list_all_iff TrimSpace_id)
  show "SplitCSV (Join (SplitCSV s) '','') = SplitCSV s"
  proof (cases "SplitCSV s = []")
    case True
    then show ?thesis by (simp add: SplitCSV_def TrimSpace_def)
  next
    case False
    from ok have "map TrimSpace (SplitCSV s) = SplitCSV s"
      by (auto simp: list_all_iff intro: map_idI)
    moreover from ok have "filter (\<lambda>p. p \<noteq> '''') (SplitCSV s) = SplitCSV s"
      by (auto simp: list_all_iff)
    moreover have "Split CHR '','' (Join (SplitCSV s) '','') = SplitCSV s"
      using False ok by (intro Split_Join) (auto simp: list_all_iff)
    ultimately show ?thesis by (subst SplitCSV_eq) simp
  qed
qed

text \<open>
  The single load path of worker, check and validate returns the loaded checks that the
  effective filter selects, and it fails when loading fails or when the effective filter names an
  unknown type; a misspelled type is never a silent selection of nothing.
\<close>

theorem loadFilteredChecks_spec:
  "loadFilteredChecks fl cfgFilter loaded =
     (case loaded of
        Inl e \<Rightarrow> Inl (LoadingChecks e)
      | Inr checks \<Rightarrow>
          (case find (\<lambda>t. ToLower (TrimSpace t) \<notin> set checkTypes) (f_types (effectiveFilter fl cfgFilter)) of
             Some t \<Rightarrow> Inl (BadFilter (UnknownFilterType t validTypesList))
           | None \<Rightarrow> Inr (filter (selects (effectiveFilter fl cfgFilter)) checks)))"
proof -
  have v: "validateTypes ts = map_option (\<lambda>t. UnknownFilterType t validTypesList)
      (find (\<lambda>t. ToLower (TrimSpace t) \<notin> set checkTypes) ts)" for ts
    by (induction ts) (auto simp: allCheckTypes_def)
  show ?thesis
    by (auto simp: loadFilteredChecks_def Let_def Validate_def v FilterChecks_filter [symmetric]
        FilterChecks_def split: sum.splits option.splits)
qed

end
