(* ===== verification/Check_Result.thy ===== *)
theory Check_Result
  imports Config_Data Config_Main
begin

text \<open>
  The result of a check, \<open>internal/check/check.go\<close>: the struct \<open>Result\<close> with the fields in
  the order of the source, the structs it refers to, the accessors with defaults and the
  constructor \<open>NewResult\<close>. \<open>time.Now()\<close> is the argument \<open>now\<close>. A \<open>Checker\<close> is its method
  \<open>Run\<close>; what it observes of the network is an argument of the definitions of the checkers.
\<close>

record AssertionResult =
  ar_type :: string
  ar_target :: string
  ar_passed :: bool
  ar_message :: string

record WebVitals =
  wv_ttfb :: float64
  wv_fcp :: float64
  wv_lcp :: float64
  wv_cls :: float64
  wv_inp :: float64
  wv_dom_complete :: float64

record HAREntry =
  he_url :: string
  he_resource_type :: string
  he_duration :: float64
  he_transfer_size :: int
  he_response_size :: int
  he_status :: int

record HARData =
  hd_entries :: "HAREntry list"
  hd_total_transfer_bytes :: int

record TracerouteHop =
  th_hop :: int
  th_host :: string
  th_ip :: string
  th_asn :: int
  th_avg_ms :: float64
  th_loss_percent :: float64

record Result =
  r_name :: string
  r_type :: check_type
  r_group :: string
  r_target :: string
  r_success :: bool
  r_infra_error :: bool
  r_duration :: duration
  r_error :: string
  r_timestamp :: gotime
  r_status_code :: int
  r_dns_duration :: duration
  r_tls_duration :: duration
  r_conn_duration :: duration
  r_ttfb_duration :: duration
  r_transfer_duration :: duration
  r_response_bytes :: int
  r_assertions :: "AssertionResult list"
  r_web_vitals :: "WebVitals option"
  r_har_data :: "HARData option"
  r_video_path :: string
  r_resource_count :: int
  r_hops :: "TracerouteHop list"
  r_tcp_conn_duration :: duration
  r_tcp_tls_duration :: duration
  r_dns_answers :: "string list"
  r_dns_query_time :: duration
  r_icmp_sent :: int
  r_icmp_recv :: int
  r_icmp_loss :: float64
  r_icmp_min_rtt :: duration
  r_icmp_avg_rtt :: duration
  r_icmp_max_rtt :: duration
  r_grpc_status :: string
  r_ntp_offset_ms :: float64
  r_ntp_stratum :: int
  r_ntp_rtt :: duration
  r_udp_rtt :: duration
  r_udp_response_bytes :: int
  r_ws_connect_duration :: duration
  r_ws_message_duration :: duration
  r_bgp_origin_asn :: int
  r_bgp_prefix_visible :: bool
  r_bgp_origin_match :: bool
  r_bgp_rpki_status :: string
  r_domain_expiry_date :: gotime
  r_domain_expiry_days :: int
  r_domain_registrar :: string
  r_domain_registered :: bool
  r_domain_warn_days_val :: int
  r_domain_crit_days_val :: int
  r_cert_subject :: string
  r_cert_issuer :: string
  r_cert_sans :: "string list"
  r_cert_expiry :: gotime
  r_cert_days_remaining :: int
  r_cert_valid :: bool
  r_cert_chain_length :: int
  r_cert_warn_days_val :: int
  r_cert_crit_days_val :: int
  r_degraded :: bool
  r_retries :: int
  r_labels :: "(string, string) gomap"

definition DegradedLatency :: "Result \<Rightarrow> duration" where
  "DegradedLatency r =
     (if r_type r = CheckTypeICMP \<and> r_icmp_recv r > 0 then r_icmp_avg_rtt r else r_duration r)"

definition CertWarnDays :: "Result \<Rightarrow> int" where
  "CertWarnDays r = (if r_cert_warn_days_val r > 0 then r_cert_warn_days_val r else 30)"

definition CertCriticalDays :: "Result \<Rightarrow> int" where
  "CertCriticalDays r = (if r_cert_crit_days_val r > 0 then r_cert_crit_days_val r else 7)"

definition DomainWarnDays :: "Result \<Rightarrow> int" where
  "DomainWarnDays r = (if r_domain_warn_days_val r > 0 then r_domain_warn_days_val r else 30)"

definition DomainCriticalDays :: "Result \<Rightarrow> int" where
  "DomainCriticalDays r = (if r_domain_crit_days_val r > 0 then r_domain_crit_days_val r else 7)"

text \<open>The zero value of the struct; \<open>NewResult\<close> fills in four of its fields.\<close>

definition zeroResult :: Result where
  "zeroResult = \<lparr> r_name = '''', r_type = '''', r_group = '''', r_target = '''',
     r_success = False, r_infra_error = False, r_duration = 0, r_error = '''', r_timestamp = 0,
     r_status_code = 0, r_dns_duration = 0, r_tls_duration = 0, r_conn_duration = 0,
     r_ttfb_duration = 0, r_transfer_duration = 0, r_response_bytes = 0, r_assertions = [],
     r_web_vitals = None, r_har_data = None, r_video_path = '''', r_resource_count = 0,
     r_hops = [], r_tcp_conn_duration = 0, r_tcp_tls_duration = 0, r_dns_answers = [],
     r_dns_query_time = 0, r_icmp_sent = 0, r_icmp_recv = 0, r_icmp_loss = 0,
     r_icmp_min_rtt = 0, r_icmp_avg_rtt = 0, r_icmp_max_rtt = 0, r_grpc_status = '''',
     r_ntp_offset_ms = 0, r_ntp_stratum = 0, r_ntp_rtt = 0, r_udp_rtt = 0,
     r_udp_response_bytes = 0, r_ws_connect_duration = 0, r_ws_message_duration = 0,
     r_bgp_origin_asn = 0, r_bgp_prefix_visible = False, r_bgp_origin_match = False,
     r_bgp_rpki_status = '''', r_domain_expiry_date = 0, r_domain_expiry_days = 0,
     r_domain_registrar = '''', r_domain_registered = False, r_domain_warn_days_val = 0,
     r_domain_crit_days_val = 0, r_cert_subject = '''', r_cert_issuer = '''', r_cert_sans = [],
     r_cert_expiry = 0, r_cert_days_remaining = 0, r_cert_valid = False,
     r_cert_chain_length = 0, r_cert_warn_days_val = 0, r_cert_crit_days_val = 0,
     r_degraded = False, r_retries = 0, r_labels = [] \<rparr>"

definition NewResult :: "gotime \<Rightarrow> string \<Rightarrow> check_type \<Rightarrow> Origin option \<Rightarrow> Result" where
  "NewResult now name checkType origin =
     (let r = zeroResult \<lparr> r_name := name, r_type := checkType, r_timestamp := now,
                r_labels := [] \<rparr>
      in case origin of None \<Rightarrow> r | Some org \<Rightarrow> r \<lparr> r_labels := MetricLabels org \<rparr>)"

lemma NewResult_sel [simp]:
  "r_name (NewResult now n t og) = n" "r_type (NewResult now n t og) = t"
  "r_success (NewResult now n t og) = False" "r_infra_error (NewResult now n t og) = False"
  "r_timestamp (NewResult now n t og) = now" "r_error (NewResult now n t og) = ''''"
  "r_retries (NewResult now n t og) = 0" "r_degraded (NewResult now n t og) = False"
  "r_cert_days_remaining (NewResult now n t og) = 0" "r_cert_expiry (NewResult now n t og) = 0"
  "r_domain_expiry_days (NewResult now n t og) = 0"
  by (simp_all add: NewResult_def zeroResult_def Let_def split: option.split)

lemma NewResult_labels: "r_labels (NewResult now n t og) = (case og of None \<Rightarrow> [] | Some org \<Rightarrow> MetricLabels org)"
  by (simp add: NewResult_def zeroResult_def Let_def split: option.split)

text \<open>The effective thresholds are always positive.\<close>

lemma threshold_days_pos:
  "0 < CertWarnDays r" "0 < CertCriticalDays r" "0 < DomainWarnDays r" "0 < DomainCriticalDays r"
  by (simp_all add: CertWarnDays_def CertCriticalDays_def DomainWarnDays_def DomainCriticalDays_def)

end
