(* ===== verification/Notify.thy ===== *)
theory Notify
  imports Check_Result
begin

text \<open>
  Webhook notifications: \<open>internal/notify/notify.go\<close> and the three senders.

  A \<open>Manager\<close> carries the maps of the struct; \<open>m_sent\<close> is the sequence of goroutines that
  \<open>dispatch\<close> starts, each with the index of its webhook and the time. A nil \<open>*Manager\<close> is
  \<open>None\<close>. \<open>time.Now()\<close> is an argument of each handler; \<open>handle\<close> gives the three handlers one
  shape, so that the properties range over every interleaving of them. The maps from event types
  and severities to \<open>true\<close> are the lists of their keys.
\<close>

section \<open>Data\<close>

abbreviation EventCheckDown :: string where "EventCheckDown \<equiv> ''check_down''"
abbreviation EventCheckUp :: string where "EventCheckUp \<equiv> ''check_up''"
abbreviation EventBudgetViolation :: string where "EventBudgetViolation \<equiv> ''budget_violation''"
abbreviation EventCertExpiring :: string where "EventCertExpiring \<equiv> ''cert_expiring''"

abbreviation SeverityWarning :: string where "SeverityWarning \<equiv> ''warning''"
abbreviation SeverityCritical :: string where "SeverityCritical \<equiv> ''critical''"

record Event =
  ev_type :: string
  ev_severity :: string
  ev_check :: string
  ev_check_type :: check_type
  ev_message :: string
  ev_details :: "(string, string) gomap"
  ev_timestamp :: gotime

datatype Sender = DiscordSender string | SlackSender string | GenericSender string

record webhook =
  wh_sender :: Sender
  wh_events :: "string list"
  wh_severities :: "string list option"
  wh_cooldown :: duration

record sending =
  sd_index :: nat
  sd_time :: gotime
  sd_sender :: Sender
  sd_event :: Event

record Manager =
  m_webhooks :: "webhook list"
  m_checkStates :: "string \<Rightarrow> bool option"
  m_failCounts :: "string \<Rightarrow> int option"
  m_notifiedDown :: "string \<Rightarrow> bool option"
  m_budgetStates :: "string \<Rightarrow> bool option"
  m_certStates :: "string \<Rightarrow> string option"
  m_lastSent :: "string \<Rightarrow> gotime option"
  m_sent :: "sending list"

definition consecutiveFailThreshold :: int where
  "consecutiveFailThreshold = 3"

section \<open>Construction\<close>

definition newWebhook :: "WebhookConfig \<Rightarrow> webhook" where
  "newWebhook wc =
     \<lparr> wh_sender = (if wc_type wc = ''discord'' then DiscordSender (wc_url wc)
                    else if wc_type wc = ''slack'' then SlackSender (wc_url wc)
                    else GenericSender (wc_url wc)),
       wh_events = (if length (wc_events wc) = 0
                    then [EventCheckDown, EventCheckUp, EventBudgetViolation, EventCertExpiring]
                    else wc_events wc),
       wh_severities = (if length (wc_severities wc) > 0 then Some (wc_severities wc) else None),
       wh_cooldown = (if wc_cooldown wc > 0 then wc_cooldown wc else 5 * Minute) \<rparr>"

definition NewManager :: "WebhookConfig list \<Rightarrow> Manager option" where
  "NewManager cfgWebhooks =
     (if length cfgWebhooks = 0 then None
      else Some \<lparr> m_webhooks = map newWebhook cfgWebhooks, m_checkStates = Map.empty,
                  m_failCounts = Map.empty, m_notifiedDown = Map.empty,
                  m_budgetStates = Map.empty, m_certStates = Map.empty,
                  m_lastSent = Map.empty, m_sent = [] \<rparr>)"

section \<open>Dispatch\<close>

definition cooldownKey :: "nat \<Rightarrow> string \<Rightarrow> string \<Rightarrow> string" where
  "cooldownKey i chk ty = utoa i @ '':'' @ chk @ '':'' @ ty"

definition wants :: "webhook \<Rightarrow> Event \<Rightarrow> bool" where
  "wants wh ev \<longleftrightarrow> ev_type ev \<in> set (wh_events wh)
     \<and> \<not> (case wh_severities wh of None \<Rightarrow> False
          | Some sevs \<Rightarrow> ev_severity ev \<noteq> '''' \<and> ev_severity ev \<notin> set sevs)"

definition suppressed :: "gotime \<Rightarrow> Event \<Rightarrow> nat \<Rightarrow> webhook \<Rightarrow> Manager \<Rightarrow> bool" where
  "suppressed now ev i wh m \<longleftrightarrow>
     (case m_lastSent m (cooldownKey i (ev_check ev) (ev_type ev)) of
        None \<Rightarrow> False | Some lst \<Rightarrow> time_sub now lst < wh_cooldown wh)"

definition start_send :: "gotime \<Rightarrow> Event \<Rightarrow> nat \<Rightarrow> webhook \<Rightarrow> Manager \<Rightarrow> Manager" where
  "start_send now ev i wh m =
     m \<lparr> m_lastSent := (m_lastSent m)(cooldownKey i (ev_check ev) (ev_type ev) \<mapsto> now),
         m_sent := m_sent m @ [\<lparr> sd_index = i, sd_time = now, sd_sender = wh_sender wh, sd_event = ev \<rparr>] \<rparr>"

fun dispatchLoop :: "gotime \<Rightarrow> Event \<Rightarrow> nat \<Rightarrow> webhook list \<Rightarrow> Manager \<Rightarrow> Manager" where
  "dispatchLoop now ev i [] m = m"
| "dispatchLoop now ev i (wh # whs) m =
     (if \<not> wants wh ev then dispatchLoop now ev (Suc i) whs m
      else if suppressed now ev i wh m then dispatchLoop now ev (Suc i) whs m
      else dispatchLoop now ev (Suc i) whs (start_send now ev i wh m))"

definition dispatch :: "gotime \<Rightarrow> Event \<Rightarrow> Manager \<Rightarrow> Manager" where
  "dispatch now ev m = dispatchLoop now ev 0 (m_webhooks m) m"

definition dispatch_opt :: "gotime \<Rightarrow> Event option \<Rightarrow> Manager \<Rightarrow> Manager" where
  "dispatch_opt now ev m = (case ev of None \<Rightarrow> m | Some e \<Rightarrow> dispatch now e m)"

section \<open>Handlers\<close>

definition check_key :: "Result \<Rightarrow> string" where
  "check_key r = r_type r @ '':'' @ r_name r"

definition upEvent :: "Result \<Rightarrow> Event" where
  "upEvent r = \<lparr> ev_type = EventCheckUp, ev_severity = '''', ev_check = r_name r,
     ev_check_type = r_type r, ev_message = ''Check '' @ r_name r @ '' is back up'',
     ev_details = [], ev_timestamp = r_timestamp r \<rparr>"

definition downEvent :: "Result \<Rightarrow> int \<Rightarrow> Event" where
  "downEvent r count = \<lparr> ev_type = EventCheckDown, ev_severity = SeverityCritical,
     ev_check = r_name r, ev_check_type = r_type r,
     ev_message = ''Check '' @ r_name r @ '' is down ('' @ itoa count @ '' consecutive failures)'',
     ev_details = (if r_error r \<noteq> '''' then [(''error'', r_error r)] else [])
        @ (if r_status_code r > 0 then [(''status_code'', itoa (r_status_code r))] else [])
        @ [(''consecutive_failures'', itoa count)],
     ev_timestamp = r_timestamp r \<rparr>"

text \<open>\<open>HandleResult\<close> up to its call of \<open>dispatch\<close>: the new state and the event.\<close>

definition trackResult :: "Manager \<Rightarrow> Result \<Rightarrow> Manager \<times> Event option" where
  "trackResult m r =
     (let key = check_key r; seen = (m_checkStates m key \<noteq> None);
          m1 = m \<lparr> m_checkStates := (m_checkStates m)(key \<mapsto> r_success r) \<rparr>
      in if \<not> seen then (m1, None)
         else if r_success r then
           (let wasDown = get_or False (m_notifiedDown m1) key;
                m2 = m1 \<lparr> m_failCounts := (m_failCounts m1)(key \<mapsto> 0),
                          m_notifiedDown := (m_notifiedDown m1)(key := None) \<rparr>
            in (m2, if wasDown then Some (upEvent r) else None))
         else
           (let count = get_or 0 (m_failCounts m1) key + 1;
                m2 = m1 \<lparr> m_failCounts := (m_failCounts m1)(key \<mapsto> count) \<rparr>
            in if count = consecutiveFailThreshold \<and> \<not> get_or False (m_notifiedDown m2) key
               then (m2 \<lparr> m_notifiedDown := (m_notifiedDown m2)(key \<mapsto> True) \<rparr>, Some (downEvent r count))
               else (m2, None)))"

definition HandleResult :: "gotime \<Rightarrow> Manager option \<Rightarrow> Result \<Rightarrow> Manager option" where
  "HandleResult now mgr r =
     (case mgr of
        None \<Rightarrow> None
      | Some m \<Rightarrow>
          if r_infra_error r then Some m
          else (case trackResult m r of (m', ev) \<Rightarrow> Some (dispatch_opt now ev m')))"

definition budgetEvent :: "gotime \<Rightarrow> string \<Rightarrow> string \<Rightarrow> Event" where
  "budgetEvent ts checkName metric = \<lparr> ev_type = EventBudgetViolation,
     ev_severity = SeverityWarning, ev_check = checkName, ev_check_type = '''',
     ev_message = ''Budget violation: '' @ checkName @ '' exceeds '' @ metric @ '' threshold'',
     ev_details = [(''metric'', metric)], ev_timestamp = ts \<rparr>"

definition budget_key :: "string \<Rightarrow> string \<Rightarrow> string" where
  "budget_key checkName metric = checkName @ '':'' @ metric"

definition trackBudget ::
  "gotime \<Rightarrow> Manager \<Rightarrow> string \<Rightarrow> string \<Rightarrow> bool \<Rightarrow> Manager \<times> Event option"
where
  "trackBudget ts m checkName metric violated =
     (let key = budget_key checkName metric;
          prevViolated = get_or False (m_budgetStates m) key
      in (m \<lparr> m_budgetStates := (m_budgetStates m)(key \<mapsto> violated) \<rparr>,
          if violated \<and> \<not> prevViolated then Some (budgetEvent ts checkName metric) else None))"

definition HandleBudgetViolation ::
  "gotime \<Rightarrow> gotime \<Rightarrow> Manager option \<Rightarrow> string \<Rightarrow> string \<Rightarrow> bool \<Rightarrow> Manager option"
where
  "HandleBudgetViolation ts now mgr checkName metric violated =
     (case mgr of
        None \<Rightarrow> None
      | Some m \<Rightarrow> (case trackBudget ts m checkName metric violated of
                    (m', ev) \<Rightarrow> Some (dispatch_opt now ev m')))"

definition cert_key :: "Result \<Rightarrow> string" where
  "cert_key r = ''cert:'' @ r_name r"

definition certEvent :: "Result \<Rightarrow> string \<Rightarrow> Event" where
  "certEvent r sev = \<lparr> ev_type = EventCertExpiring, ev_severity = sev, ev_check = r_name r,
     ev_check_type = r_type r,
     ev_message = ''TLS certificate for '' @ r_name r @ '' expires in ''
        @ itoa (r_cert_days_remaining r) @ '' days'',
     ev_details = [(''days_remaining'', itoa (r_cert_days_remaining r)),
                   (''expiry'', FormatDate (r_cert_expiry r)),
                   (''subject'', r_cert_subject r)]
        @ (if \<not> r_cert_valid r then [(''chain_valid'', ''false'')] else []),
     ev_timestamp = r_timestamp r \<rparr>"

text \<open>The \<open>switch\<close> of \<open>HandleCertResult\<close>; \<open>None\<close> is its default case.\<close>

definition certSeverity :: "Result \<Rightarrow> string option" where
  "certSeverity r =
     (if r_cert_days_remaining r \<le> CertCriticalDays r then Some SeverityCritical
      else if r_cert_days_remaining r \<le> CertWarnDays r then Some SeverityWarning
      else None)"

definition trackCert :: "Manager \<Rightarrow> Result \<Rightarrow> Manager \<times> Event option" where
  "trackCert m r =
     (case certSeverity r of
        None \<Rightarrow> (m \<lparr> m_certStates := (m_certStates m)(cert_key r := None) \<rparr>, None)
      | Some severity \<Rightarrow>
          if get_or '''' (m_certStates m) (cert_key r) = severity then (m, None)
          else (m \<lparr> m_certStates := (m_certStates m)(cert_key r \<mapsto> severity) \<rparr>,
                Some (certEvent r severity)))"

definition HandleCertResult :: "gotime \<Rightarrow> Manager option \<Rightarrow> Result \<Rightarrow> Manager option" where
  "HandleCertResult now mgr r =
     (case mgr of
        None \<Rightarrow> None
      | Some m \<Rightarrow>
          if r_type r \<noteq> CheckTypeTLS then Some m
          else if r_cert_days_remaining r = 0 \<and> \<not> r_cert_valid r then Some m
          else (case trackCert m r of (m', ev) \<Rightarrow> Some (dispatch_opt now ev m')))"

section \<open>Sequences of calls\<close>

datatype input =
    ResultIn gotime Result
  | BudgetIn gotime gotime string string bool
  | CertIn gotime Result

fun track :: "input \<Rightarrow> Manager \<Rightarrow> Manager \<times> Event option" where
  "track (ResultIn now r) m = (if r_infra_error r then (m, None) else trackResult m r)"
| "track (BudgetIn ts now c metric v) m = trackBudget ts m c metric v"
| "track (CertIn now r) m =
     (if r_type r \<noteq> CheckTypeTLS \<or> r_cert_days_remaining r = 0 \<and> \<not> r_cert_valid r
      then (m, None) else trackCert m r)"

fun input_time :: "input \<Rightarrow> gotime" where
  "input_time (ResultIn now r) = now"
| "input_time (BudgetIn ts now c metric v) = now"
| "input_time (CertIn now r) = now"

definition raised :: "input \<Rightarrow> Manager \<Rightarrow> Event option" where
  "raised i m = snd (track i m)"

definition handle :: "input \<Rightarrow> Manager \<Rightarrow> Manager" where
  "handle i m = dispatch_opt (input_time i) (raised i m) (fst (track i m))"

lemma handle_is_handler:
  "HandleResult now (Some m) r = Some (handle (ResultIn now r) m)"
  "HandleBudgetViolation ts now (Some m) c metric v = Some (handle (BudgetIn ts now c metric v) m)"
  "HandleCertResult now (Some m) r = Some (handle (CertIn now r) m)"
  by (auto simp: HandleResult_def HandleBudgetViolation_def HandleCertResult_def handle_def
      raised_def dispatch_opt_def case_prod_beta)

subsection \<open>What dispatch changes\<close>

lemma start_send_frame [simp]:
  "m_webhooks (start_send now ev i wh m) = m_webhooks m"
  "m_checkStates (start_send now ev i wh m) = m_checkStates m"
  "m_failCounts (start_send now ev i wh m) = m_failCounts m"
  "m_notifiedDown (start_send now ev i wh m) = m_notifiedDown m"
  "m_budgetStates (start_send now ev i wh m) = m_budgetStates m"
  "m_certStates (start_send now ev i wh m) = m_certStates m"
  by (simp_all add: start_send_def)

lemma dispatchLoop_frame [simp]:
  "m_webhooks (dispatchLoop now ev i whs m) = m_webhooks m"
  "m_checkStates (dispatchLoop now ev i whs m) = m_checkStates m"
  "m_failCounts (dispatchLoop now ev i whs m) = m_failCounts m"
  "m_notifiedDown (dispatchLoop now ev i whs m) = m_notifiedDown m"
  "m_budgetStates (dispatchLoop now ev i whs m) = m_budgetStates m"
  "m_certStates (dispatchLoop now ev i whs m) = m_certStates m"
  by (induction whs arbitrary: i m) simp_all

lemma dispatch_opt_frame [simp]:
  "m_webhooks (dispatch_opt now ev m) = m_webhooks m"
  "m_checkStates (dispatch_opt now ev m) = m_checkStates m"
  "m_failCounts (dispatch_opt now ev m) = m_failCounts m"
  "m_notifiedDown (dispatch_opt now ev m) = m_notifiedDown m"
  "m_budgetStates (dispatch_opt now ev m) = m_budgetStates m"
  "m_certStates (dispatch_opt now ev m) = m_certStates m"
  by (simp_all add: dispatch_opt_def dispatch_def split: option.split)

lemma trackResult_frame [simp]:
  "m_webhooks (fst (trackResult m r)) = m_webhooks m"
  "m_lastSent (fst (trackResult m r)) = m_lastSent m" "m_sent (fst (trackResult m r)) = m_sent m"
  "m_budgetStates (fst (trackResult m r)) = m_budgetStates m"
  "m_certStates (fst (trackResult m r)) = m_certStates m"
  by (simp_all add: trackResult_def Let_def)

lemma trackBudget_frame [simp]:
  "m_webhooks (fst (trackBudget ts m c t v)) = m_webhooks m"
  "m_lastSent (fst (trackBudget ts m c t v)) = m_lastSent m" "m_sent (fst (trackBudget ts m c t v)) = m_sent m"
  "m_checkStates (fst (trackBudget ts m c t v)) = m_checkStates m"
  "m_failCounts (fst (trackBudget ts m c t v)) = m_failCounts m"
  "m_notifiedDown (fst (trackBudget ts m c t v)) = m_notifiedDown m"
  "m_certStates (fst (trackBudget ts m c t v)) = m_certStates m"
  by (simp_all add: trackBudget_def Let_def)

lemma trackCert_frame [simp]:
  "m_webhooks (fst (trackCert m r)) = m_webhooks m"
  "m_lastSent (fst (trackCert m r)) = m_lastSent m" "m_sent (fst (trackCert m r)) = m_sent m"
  "m_checkStates (fst (trackCert m r)) = m_checkStates m"
  "m_failCounts (fst (trackCert m r)) = m_failCounts m"
  "m_notifiedDown (fst (trackCert m r)) = m_notifiedDown m"
  "m_budgetStates (fst (trackCert m r)) = m_budgetStates m"
  by (simp_all add: trackCert_def split: option.split)

lemma track_frame [simp]:
  "m_webhooks (fst (track i m)) = m_webhooks m"
  "m_lastSent (fst (track i m)) = m_lastSent m" "m_sent (fst (track i m)) = m_sent m"
  by (cases i; simp)+

section \<open>Debouncing\<close>

definition concerns_check :: "string \<Rightarrow> input \<Rightarrow> bool" where
  "concerns_check key i = (case i of ResultIn now r \<Rightarrow> \<not> r_infra_error r \<and> check_key r = key | _ \<Rightarrow> False)"

definition failing :: "input \<Rightarrow> bool" where
  "failing i = (case i of ResultIn now r \<Rightarrow> \<not> r_success r | _ \<Rightarrow> False)"

definition fails :: "string \<Rightarrow> Manager \<Rightarrow> int" where
  "fails key m = get_or 0 (m_failCounts m) key"

definition seen :: "string \<Rightarrow> Manager \<Rightarrow> bool" where
  "seen key m \<longleftrightarrow> m_checkStates m key \<noteq> None"

definition down :: "string \<Rightarrow> Manager \<Rightarrow> bool" where
  "down key m \<longleftrightarrow> get_or False (m_notifiedDown m) key"

lemma handle_result:
  assumes "\<not> r_infra_error r" "check_key r = key"
  shows "seen key (handle (ResultIn now r) m)"
    and "fails key (handle (ResultIn now r) m) =
      (if \<not> seen key m then fails key m else if r_success r then 0 else fails key m + 1)"
    and "down key (handle (ResultIn now r) m) \<longleftrightarrow>
      (if \<not> seen key m then down key m
       else \<not> r_success r \<and> (down key m \<or> fails key m = 2))"
  using assms
  by (auto simp: handle_def raised_def trackResult_def Let_def seen_def fails_def down_def
      consecutiveFailThreshold_def)

lemma handle_other:
  assumes "\<not> concerns_check key i"
  shows "seen key (handle i m) = seen key m" "fails key (handle i m) = fails key m"
    "down key (handle i m) = down key m"
  using assms
  by (cases i; auto simp: handle_def raised_def concerns_check_def seen_def fails_def down_def
      trackResult_def Let_def)+

interpretation nf: streak handle "concerns_check key" failing "fails key" "seen key" for key
proof (unfold_locales, goal_cases)
  case (1 m i)
  then show ?case
    by (cases "concerns_check key i")
       (auto simp: handle_other handle_result(1) concerns_check_def split: input.splits)
qed (auto simp: concerns_check_def failing_def handle_result(2) handle_other(2) split: input.splits)

text \<open>The two maps agree: a check is notified down iff three failures are counted.\<close>

definition down_inv :: "string \<Rightarrow> Manager \<Rightarrow> bool" where
  "down_inv key m \<longleftrightarrow> (down key m \<longleftrightarrow> 3 \<le> fails key m) \<and> 0 \<le> fails key m \<and> (\<not> seen key m \<longrightarrow> fails key m = 0)"

lemma handle_down_inv: "down_inv key m \<Longrightarrow> down_inv key (handle i m)"
proof (cases "concerns_check key i")
  case True
  then obtain now r where "i = ResultIn now r" "\<not> r_infra_error r" "check_key r = key"
    by (auto simp: concerns_check_def split: input.splits)
  then show "down_inv key m \<Longrightarrow> down_inv key (handle i m)"
    by (auto simp: down_inv_def handle_result)
qed (simp add: down_inv_def handle_other)

lemma run_down_inv: "down_inv key m \<Longrightarrow> down_inv key (fold handle is m)"
  by (induction "is" arbitrary: m) (auto simp: handle_down_inv)

lemma run_unseen:
  "filter (concerns_check key) is = [] \<Longrightarrow>
   seen key (fold handle is m) = seen key m \<and> fails key (fold handle is m) = fails key m"
  by (induction "is" arbitrary: m) (auto simp: handle_other split: if_splits)

lemma run_counts:
  assumes "\<not> seen key m" "fails key m = 0"
  shows "seen key (fold handle is m) \<longleftrightarrow> filter (concerns_check key) is \<noteq> []"
    and "fails key (fold handle is m) = int (trailing failing (tl (filter (concerns_check key) is)))"
proof -
  have "(seen key (fold handle is m) \<longleftrightarrow> filter (concerns_check key) is \<noteq> [])
    \<and> fails key (fold handle is m) = int (trailing failing (tl (filter (concerns_check key) is)))"
  proof (cases "filter (concerns_check key) is = []")
    case True
    with assms show ?thesis using run_unseen [OF True] by simp
  next
    case False
    then obtain i where "i \<in> set is" "concerns_check key i" by (auto simp: filter_empty_conv)
    then obtain pre x post where sp: "is = pre @ x # post" "concerns_check key x"
        "\<forall>y \<in> set pre. \<not> concerns_check key y"
      using split_list_first_prop [of "is" "concerns_check key"] by blast
    then have pre: "filter (concerns_check key) pre = []" by simp
    let ?m1 = "handle x (fold handle pre m)"
    from sp(2) obtain now r where x: "x = ResultIn now r" "\<not> r_infra_error r" "check_key r = key"
      by (auto simp: concerns_check_def split: input.splits)
    with run_unseen [OF pre] assms have "seen key ?m1" "fails key ?m1 = 0"
      by (auto simp: handle_result)
    with nf.count_run_zero [of key ?m1 post] nf.ok_run [of key ?m1 post] sp(1,2) pre
    show ?thesis by simp
  qed
  then show "seen key (fold handle is m) \<longleftrightarrow> filter (concerns_check key) is \<noteq> []"
    and "fails key (fold handle is m) = int (trailing failing (tl (filter (concerns_check key) is)))"
    by simp_all
qed

lemma NewManager_fresh:
  "NewManager whs = Some m \<Longrightarrow> \<not> seen key m \<and> fails key m = 0 \<and> down_inv key m"
  by (auto simp: NewManager_def seen_def fails_def down_inv_def down_def split: if_splits)


definition sample_hook :: WebhookConfig where
  "sample_hook = \<lparr> wc_url = ''https://hooks.example'', wc_type = ''slack'', wc_events = [],
     wc_severities = [], wc_cooldown = 0 \<rparr>"

definition sample_outcome :: "bool \<Rightarrow> Result" where
  "sample_outcome ok = (NewResult 5 ''web'' CheckTypeHTTP None) \<lparr> r_success := ok \<rparr>"

definition sample_calls :: "input list" where
  "sample_calls = map (\<lambda>ok. ResultIn 9 (sample_outcome ok)) [True, False, False]"

lemma sample_outcome_sel [simp]:
  "r_success (sample_outcome b) = b" "r_infra_error (sample_outcome b) = False"
  "check_key (sample_outcome b) = ''http:web''"
  by (simp_all add: sample_outcome_def check_key_def)


subsection \<open>Alternation\<close>

text \<open>The events raised for one check along a sequence of calls.\<close>

fun check_events :: "string \<Rightarrow> input list \<Rightarrow> Manager \<Rightarrow> Event list" where
  "check_events key [] m = []"
| "check_events key (i # is) m =
     (if concerns_check key i then (case raised i m of None \<Rightarrow> [] | Some e \<Rightarrow> [e]) else [])
     @ check_events key is (handle i m)"

lemma check_events_append:
  "check_events key (is @ js) m = check_events key is m @ check_events key js (fold handle is m)"
  by (induction "is" arbitrary: m) auto

lemma raised_check:
  assumes "down_inv (check_key r) m" "\<not> r_infra_error r"
  shows "raised (ResultIn now r) m =
    (if \<not> seen (check_key r) m then None
     else if r_success r then (if down (check_key r) m then Some (upEvent r) else None)
     else (if fails (check_key r) m = 2 then Some (downEvent r 3) else None))"
  using assms
  by (auto simp: raised_def trackResult_def Let_def seen_def fails_def down_def down_inv_def
      consecutiveFailThreshold_def)

definition alternating :: "string list \<Rightarrow> bool" where
  "alternating ts \<longleftrightarrow> (\<forall>j < length ts. ts ! j = (if even j then EventCheckDown else EventCheckUp))"

lemma alternating_snoc:
  "alternating ts \<Longrightarrow> t = (if even (length ts) then EventCheckDown else EventCheckUp) \<Longrightarrow> alternating (ts @ [t])"
  by (auto simp: alternating_def nth_append less_Suc_eq)

lemma check_events_alternate:
  assumes "down_inv key m" "\<not> seen key m"
  shows "alternating (map ev_type (check_events key is m))
    \<and> (down key (fold handle is m) \<longleftrightarrow> odd (length (check_events key is m)))"
proof (induction "is" rule: rev_induct)
  case Nil
  from assms show ?case by (simp add: alternating_def down_inv_def)
next
  case (snoc i "is")
  let ?m = "fold handle is m"
  have inv: "down_inv key ?m" using assms(1) by (rule run_down_inv)
  show ?case
  proof (cases "concerns_check key i")
    case True
    then obtain now r where i: "i = ResultIn now r" "\<not> r_infra_error r" "check_key r = key"
      by (auto simp: concerns_check_def split: input.splits)
    with inv have rz: "raised i ?m =
      (if \<not> seen key ?m then None
       else if r_success r then (if down key ?m then Some (upEvent r) else None)
       else (if fails key ?m = 2 then Some (downEvent r 3) else None))"
      using raised_check [of r ?m now] by simp
    have "down key (handle i ?m) \<longleftrightarrow>
      (if \<not> seen key ?m then down key ?m else \<not> r_success r \<and> (down key ?m \<or> fails key ?m = 2))"
      using i by (simp add: handle_result)
    with snoc rz inv True show ?thesis
      by (auto simp: check_events_append down_inv_def upEvent_def downEvent_def intro!: alternating_snoc)
  next
    case False
    with snoc show ?thesis by (simp add: check_events_append handle_other)
  qed
qed

text \<open>
  The notifications of one check alternate: whatever the sequence of calls, the
  events raised for its results are \<open>check_down\<close>, \<open>check_up\<close>, \<open>check_down\<close>, and so on,
  beginning with \<open>check_down\<close>.
\<close>

theorem check_events_alternating:
  assumes "NewManager whs = Some m0"
  shows "alternating (map ev_type (check_events key is m0))"
  using check_events_alternate [of key m0 "is"] NewManager_fresh [OF assms, of key] by blast

theorem check_events_alternating_witness:
  "\<exists>m0. NewManager [sample_hook] = Some m0
     \<and> alternating (map ev_type (check_events ''http:web'' (sample_calls @ sample_calls) m0))"
proof -
  obtain m0 where m0: "NewManager [sample_hook] = Some m0" by (simp add: NewManager_def)
  from m0 check_events_alternating [OF m0] show ?thesis by blast
qed

section \<open>Routing and cooldown\<close>

lemma cooldownKey_index:
  "cooldownKey i c t = cooldownKey j c' t' \<Longrightarrow> i = j \<and> c @ '':'' @ t = c' @ '':'' @ t'"
  using key_first_inj [of "utoa i" "c @ '':'' @ t" "utoa j" "c' @ '':'' @ t'"]
  by (auto simp: cooldownKey_def utoa_no_colon dest: utoa_inj)

lemma cooldownKey_inj [key_inj]:
  assumes "cooldownKey i c t = cooldownKey j c' t'" and "CHR '':'' \<notin> set t" "CHR '':'' \<notin> set t'"
  shows "i = j \<and> c = c' \<and> t = t'"
  using cooldownKey_index [OF assms(1)] key_last_inj [of c t c' t'] assms(2,3) by simp

lemma suppressed_start_send:
  "i \<noteq> j \<Longrightarrow> suppressed now ev j wh (start_send now ev i wh' m) = suppressed now ev j wh m"
  by (auto simp: suppressed_def start_send_def dest: cooldownKey_index)

definition sends_to :: "gotime \<Rightarrow> Event \<Rightarrow> Manager \<Rightarrow> nat \<Rightarrow> webhook \<Rightarrow> bool" where
  "sends_to now ev m i wh \<longleftrightarrow> wants wh ev \<and> \<not> suppressed now ev i wh m"

definition sending_of :: "gotime \<Rightarrow> Event \<Rightarrow> nat \<times> webhook \<Rightarrow> sending" where
  "sending_of now ev p = \<lparr> sd_index = fst p, sd_time = now, sd_sender = wh_sender (snd p), sd_event = ev \<rparr>"

lemma dispatchLoop_sent:
  "m_sent (dispatchLoop now ev i whs m) = m_sent m @
     map (sending_of now ev) (filter (\<lambda>(j, wh). sends_to now ev m j wh) (enumerate i whs))"
proof (induction whs arbitrary: i m)
  case (Cons wh whs)
  have "filter (\<lambda>(j, wh). sends_to now ev (start_send now ev i w m) j wh) (enumerate (Suc i) whs) =
        filter (\<lambda>(j, wh). sends_to now ev m j wh) (enumerate (Suc i) whs)" for w
    by (rule filter_cong) (auto simp: sends_to_def suppressed_start_send in_set_enumerate_eq)
  with Cons show ?case
    by (auto simp: sends_to_def sending_of_def start_send_def)
qed simp

text \<open>
  Dispatch: an event is sent to exactly the webhooks that want its type and severity
  and have not sent an event of that type for that check within their cooldown, in the order of
  the configuration; the sends of one event do not influence each other.
\<close>

theorem dispatch_routes:
  "m_sent (dispatch now ev m) = m_sent m @
     map (\<lambda>(i, wh). \<lparr> sd_index = i, sd_time = now, sd_sender = wh_sender wh, sd_event = ev \<rparr>)
       (filter (\<lambda>(i, wh). wants wh ev \<and> \<not> suppressed now ev i wh m) (enumerate 0 (m_webhooks m)))"
  by (simp add: dispatch_def dispatchLoop_sent sends_to_def sending_of_def case_prod_beta)

definition sending_key :: "sending \<Rightarrow> string" where
  "sending_key s = cooldownKey (sd_index s) (ev_check (sd_event s)) (ev_type (sd_event s))"

definition spaced :: "webhook list \<Rightarrow> sending \<Rightarrow> sending \<Rightarrow> bool" where
  "spaced whs a b \<longleftrightarrow> sending_key a = sending_key b \<longrightarrow>
     wh_cooldown (whs ! sd_index b) \<le> sd_time b - sd_time a"

definition allowed :: "webhook list \<Rightarrow> sending \<Rightarrow> bool" where
  "allowed whs s \<longleftrightarrow> sd_index s < length whs \<and> wants (whs ! sd_index s) (sd_event s)
     \<and> sd_sender s = wh_sender (whs ! sd_index s)"

definition send_inv :: "Manager \<Rightarrow> bool" where
  "send_inv m \<longleftrightarrow> list_all (\<lambda>wh. 0 < wh_cooldown wh) (m_webhooks m)
     \<and> list_all (allowed (m_webhooks m)) (m_sent m)
     \<and> (\<forall>s \<in> set (m_sent m). \<exists>lst. m_lastSent m (sending_key s) = Some lst \<and> sd_time s \<le> lst)
     \<and> sorted_wrt (spaced (m_webhooks m)) (m_sent m)"

lemma time_sub_ge: "0 < c \<Longrightarrow> c \<le> time_sub t u \<Longrightarrow> c \<le> t - u"
  by (auto simp: time_sub_def)

lemma start_send_inv:
  assumes "send_inv m" "i < length (m_webhooks m)" "wants (m_webhooks m ! i) ev"
    and "\<not> suppressed now ev i (m_webhooks m ! i) m"
  shows "send_inv (start_send now ev i (m_webhooks m ! i) m)"
proof -
  let ?wh = "m_webhooks m ! i"
  let ?s = "\<lparr> sd_index = i, sd_time = now, sd_sender = wh_sender ?wh, sd_event = ev \<rparr>"
  have pos: "0 < wh_cooldown ?wh"
    using assms(1,2) by (simp add: send_inv_def list_all_length)
  have gap: "wh_cooldown ?wh \<le> now - lst" if "m_lastSent m (sending_key ?s) = Some lst" for lst
    using that assms(4) pos time_sub_ge [of "wh_cooldown ?wh" now lst]
    by (simp add: suppressed_def sending_key_def)
  have sp: "spaced (m_webhooks m) a ?s" and le: "sending_key a = sending_key ?s \<Longrightarrow> sd_time a \<le> now"
    if "a \<in> set (m_sent m)" for a
    using that assms(1) gap pos unfolding send_inv_def spaced_def by fastforce+
  have "m_lastSent (start_send now ev i ?wh m) = (m_lastSent m)(sending_key ?s \<mapsto> now)"
    "m_sent (start_send now ev i ?wh m) = m_sent m @ [?s]"
    by (simp_all add: start_send_def sending_key_def)
  with assms(1,2,3) sp le show ?thesis
    by (auto simp: send_inv_def sorted_wrt_append allowed_def)
qed

lemma dispatchLoop_inv:
  "send_inv m \<Longrightarrow> whs = drop i (m_webhooks m) \<Longrightarrow> send_inv (dispatchLoop now ev i whs m)"
proof (induction whs arbitrary: i m)
  case (Cons wh whs)
  then have i: "i < length (m_webhooks m)" "wh = m_webhooks m ! i" "whs = drop (Suc i) (m_webhooks m)"
    by (metis drop_all list.distinct(1) not_le, metis nth_via_drop, metis drop_Suc list.sel(3) tl_drop)
  then show ?case
    using Cons.IH [of m "Suc i"] Cons.IH [of "start_send now ev i wh m" "Suc i"] Cons.prems(1)
      start_send_inv [of m i ev now] by simp
qed simp

lemma dispatch_opt_inv: "send_inv m \<Longrightarrow> send_inv (dispatch_opt now ev m)"
  by (auto simp: dispatch_opt_def dispatch_def intro: dispatchLoop_inv split: option.split)

lemma handle_send_inv: "send_inv m \<Longrightarrow> send_inv (handle i m)"
  unfolding handle_def by (rule dispatch_opt_inv) (simp add: send_inv_def)

lemma run_send_inv: "send_inv m \<Longrightarrow> send_inv (fold handle is m)"
  by (induction "is" arbitrary: m) (auto simp: handle_send_inv)

lemma run_webhooks [simp]: "m_webhooks (fold handle is m) = m_webhooks m"
  by (induction "is" arbitrary: m) (auto simp: handle_def)

lemma NewManager_send_inv: "NewManager whs = Some m \<Longrightarrow> send_inv m \<and> m_webhooks m = map newWebhook whs"
  by (auto simp: NewManager_def send_inv_def newWebhook_def list_all_iff split: if_splits)

text \<open>
  Property C14. Cooldown, over every sequence of calls at arbitrary times: two sends of a webhook
  for the same check and event type are at least its cooldown apart (five minutes unless
  configured), and every send goes to a configured webhook that wants the event's type and
  severity.
\<close>

theorem cooldown_respected:
  assumes "NewManager whs = Some m0" and "m = fold handle is m0"
    and "a < b" and "b < length (m_sent m)"
    and "sd_index (m_sent m ! a) = sd_index (m_sent m ! b)"
    and "ev_check (sd_event (m_sent m ! a)) = ev_check (sd_event (m_sent m ! b))"
    and "ev_type (sd_event (m_sent m ! a)) = ev_type (sd_event (m_sent m ! b))"
  shows "sd_index (m_sent m ! b) < length whs
    \<and> wants (newWebhook (whs ! sd_index (m_sent m ! b))) (sd_event (m_sent m ! b))
    \<and> wh_cooldown (newWebhook (whs ! sd_index (m_sent m ! b))) \<le> sd_time (m_sent m ! b) - sd_time (m_sent m ! a)"
proof -
  have inv: "send_inv m" and w: "m_webhooks m = map newWebhook whs"
    using NewManager_send_inv [OF assms(1)] run_send_inv [of m0 "is"] assms(2) by auto
  have "spaced (m_webhooks m) (m_sent m ! a) (m_sent m ! b)"
    using inv assms(3,4) by (auto simp: send_inv_def sorted_wrt_iff_nth_less)
  moreover have "allowed (m_webhooks m) (m_sent m ! b)"
    using inv assms(4) by (simp add: send_inv_def list_all_length)
  ultimately show ?thesis
    using assms(5-7) w by (auto simp: spaced_def allowed_def sending_key_def)
qed

definition sample_budget_calls :: "input list" where
  "sample_budget_calls = [BudgetIn 1 1 ''web'' ''lcp'' True, BudgetIn 2 2 ''web'' ''lcp'' False,
     BudgetIn (6 * Minute) (6 * Minute) ''web'' ''lcp'' True]"

lemma sample_budget_sent:
  "NewManager [sample_hook] = Some m0 \<Longrightarrow> m_sent (fold handle sample_budget_calls m0) =
     [\<lparr> sd_index = 0, sd_time = 1, sd_sender = SlackSender ''https://hooks.example'',
        sd_event = budgetEvent 1 ''web'' ''lcp'' \<rparr>,
      \<lparr> sd_index = 0, sd_time = 6 * Minute, sd_sender = SlackSender ''https://hooks.example'',
        sd_event = budgetEvent (6 * Minute) ''web'' ''lcp'' \<rparr>]"
  by (auto simp: sample_budget_calls_def NewManager_def sample_hook_def newWebhook_def handle_def
      raised_def trackBudget_def Let_def dispatch_opt_def dispatch_def wants_def budgetEvent_def
      suppressed_def start_send_def time_sub_def)

theorem cooldown_respected_witness:
  "\<exists>m0. NewManager [sample_hook] = Some m0
     \<and> 5 * Minute \<le> sd_time (m_sent (fold handle sample_budget_calls m0) ! 1)
                    - sd_time (m_sent (fold handle sample_budget_calls m0) ! 0)"
proof -
  obtain m0 where m0: "NewManager [sample_hook] = Some m0" by (simp add: NewManager_def)
  from cooldown_respected [OF m0 refl, of 0 1 sample_budget_calls] sample_budget_sent [OF m0] m0
  show ?thesis
    by (simp add: budgetEvent_def sample_hook_def newWebhook_def)
qed

section \<open>Budget and certificate notifications\<close>

definition concerns_budget :: "string \<Rightarrow> input \<Rightarrow> bool" where
  "concerns_budget key i = (case i of BudgetIn ts now c metric v \<Rightarrow> budget_key c metric = key | _ \<Rightarrow> False)"

definition violating :: "input \<Rightarrow> bool" where
  "violating i = (case i of BudgetIn ts now c metric v \<Rightarrow> v | _ \<Rightarrow> False)"

lemma handle_budget_state:
  "get_or False (m_budgetStates (handle i m)) key =
     (if concerns_budget key i then violating i else get_or False (m_budgetStates m) key)"
  by (cases i) (auto simp: handle_def raised_def concerns_budget_def violating_def trackBudget_def
      Let_def get_or_def)

lemma run_budget_state:
  assumes "m_budgetStates m key = None"
  shows "get_or False (m_budgetStates (fold handle is m)) key \<longleftrightarrow>
    (let h = filter (concerns_budget key) is in h \<noteq> [] \<and> violating (last h))"
proof (induction "is" rule: rev_induct)
  case (snoc i "is")
  then show ?case by (simp add: handle_budget_state Let_def)
qed (simp add: assms get_or_def)

text \<open>
  A budget call raises \<open>budget_violation\<close> exactly on the transition into violation:
  when it reports a violation and the last call for the same check and metric, if there was one,
  did not.
\<close>

theorem HandleBudgetViolation_transition:
  assumes "NewManager whs = Some m0"
    and "hist = filter (concerns_budget (budget_key c metric)) is"
  shows "raised (BudgetIn ts now c metric v) (fold handle is m0) =
    (if v \<and> (hist = [] \<or> \<not> violating (last hist)) then Some (budgetEvent ts c metric) else None)"
proof -
  have "m_budgetStates m0 (budget_key c metric) = None"
    using assms(1) by (auto simp: NewManager_def split: if_splits)
  from run_budget_state [OF this, of "is"] assms(2) show ?thesis
    by (auto simp: raised_def trackBudget_def Let_def)
qed

theorem HandleBudgetViolation_transition_witness:
  "\<exists>m0. NewManager [sample_hook] = Some m0
     \<and> raised (BudgetIn 7 7 ''web'' ''lcp'' True) (fold handle (take 2 sample_budget_calls) m0)
        = Some (budgetEvent 7 ''web'' ''lcp'')
     \<and> raised (BudgetIn 7 7 ''web'' ''lcp'' True) (fold handle sample_budget_calls m0) = None"
proof -
  obtain m0 where m0: "NewManager [sample_hook] = Some m0" by (simp add: NewManager_def)
  note t = HandleBudgetViolation_transition [OF m0 refl,
      where c = "''web''" and metric = "''lcp''" and ts = 7 and now = 7 and v = True]
  have "filter (concerns_budget (budget_key ''web'' ''lcp'')) is = is"
    if "set is \<subseteq> set sample_budget_calls" for "is"
    using that by (intro filter_True) (auto simp: sample_budget_calls_def concerns_budget_def)
  then have "filter (concerns_budget (budget_key ''web'' ''lcp'')) (take 2 sample_budget_calls) = take 2 sample_budget_calls"
    "filter (concerns_budget (budget_key ''web'' ''lcp'')) sample_budget_calls = sample_budget_calls"
    by (meson set_take_subset, blast)
  with m0 t [of "take 2 sample_budget_calls"] t [of sample_budget_calls] show ?thesis
    by (simp add: sample_budget_calls_def violating_def)
qed

definition concerns_cert :: "string \<Rightarrow> input \<Rightarrow> bool" where
  "concerns_cert key i = (case i of
     CertIn now r \<Rightarrow> r_type r = CheckTypeTLS \<and> \<not> (r_cert_days_remaining r = 0 \<and> \<not> r_cert_valid r)
                    \<and> cert_key r = key
   | _ \<Rightarrow> False)"

definition cert_level :: "input \<Rightarrow> string option" where
  "cert_level i = (case i of CertIn now r \<Rightarrow> certSeverity r | _ \<Rightarrow> None)"

lemma certSeverity_nonempty: "certSeverity r \<noteq> Some ''''"
  by (simp add: certSeverity_def)

lemma handle_cert_state:
  "m_certStates (handle i m) key =
     (if concerns_cert key i then cert_level i else m_certStates m key)"
proof (cases i)
  case (CertIn now r)
  then show ?thesis
    using certSeverity_nonempty [of r]
    by (auto simp: handle_def raised_def concerns_cert_def cert_level_def trackCert_def get_or_def
        split: option.splits)
qed (auto simp: handle_def raised_def concerns_cert_def)

lemma run_cert_state:
  assumes "m_certStates m key = None"
  shows "m_certStates (fold handle is m) key =
    (let h = filter (concerns_cert key) is in if h = [] then None else cert_level (last h))"
proof (induction "is" rule: rev_induct)
  case (snoc i "is")
  then show ?case by (simp add: handle_cert_state Let_def)
qed (simp add: assms)


definition sample_cert :: "int \<Rightarrow> Result" where
  "sample_cert days = (NewResult 5 ''api'' CheckTypeTLS None)
     \<lparr> r_cert_days_remaining := days, r_cert_valid := True \<rparr>"


subsection \<open>The baseline is not counted\<close>

text \<open>
  A check that fails from its very first result on is reported with the fourth failure, since the
  first one is only the baseline; and once three failures are counted, further failures raise
  nothing, also when the cooldown suppressed the notification of the third.
\<close>

lemma first_failure_not_counted:
  assumes "NewManager whs = Some m0" "\<not> r_infra_error r" "\<not> r_success r"
  shows "raised (ResultIn now r) (fold handle (replicate k (ResultIn now r)) m0) =
    (if k = 3 then Some (downEvent r 3) else None)"
proof -
  let ?k = "check_key r" and ?is = "replicate k (ResultIn now r)"
  note fresh = NewManager_fresh [OF assms(1), of ?k]
  have h: "filter (concerns_check ?k) ?is = ?is"
    using assms(2) by (simp add: concerns_check_def)
  have "trailing failing (tl ?is) = k - 1"
    using assms(3) by (cases k) (auto simp: trailing_all list_all_iff failing_def)
  with run_counts [of ?k m0 ?is] fresh h
  have "seen ?k (fold handle ?is m0) \<longleftrightarrow> k \<noteq> 0" "fails ?k (fold handle ?is m0) = int (k - 1)"
    by auto
  moreover have "down_inv ?k (fold handle ?is m0)" using fresh by (simp only: run_down_inv)
  ultimately show ?thesis
    using raised_check [of r "fold handle ?is m0" now] assms(2,3) by auto
qed

lemma failing_while_down:
  assumes "down_inv (check_key r) m" "down (check_key r) m" "\<not> r_success r"
  shows "raised (ResultIn now r) m = None"
  using assms raised_check [of r m now]
  by (cases "r_infra_error r") (auto simp: down_inv_def raised_def)

end
