(* ===== verification/Notify_Senders.thy ===== *)
theory Notify_Senders
  imports Notify
begin

text \<open>
  The payloads and the outcome of the three senders, \<open>internal/notify/discord.go\<close>,
  \<open>slack.go\<close> and \<open>generic.go\<close>, and the delivery goroutine of \<open>notify.go\<close>. The payload is
  the struct handed to \<open>json.Marshal\<close> (which does not fail on these types); what the HTTP client
  reports is an argument.
\<close>

section \<open>Discord\<close>

record discordEmbedField =
  df_name :: string
  df_value :: string
  df_inline :: bool

record discordEmbed =
  dm_title :: string
  dm_description :: string
  dm_color :: int
  dm_fields :: "discordEmbedField list"
  dm_timestamp :: string
  dm_footer :: "string option"

definition colorRed :: int where "colorRed = 0xFF0000"
definition colorAmber :: int where "colorAmber = 0xF5A623"
definition colorGreen :: int where "colorGreen = 0x00FF00"

definition detail :: "Event \<Rightarrow> string \<Rightarrow> string option" where
  "detail ev k = map_of (ev_details ev) k"

definition field_if :: "string option \<Rightarrow> bool \<Rightarrow> string \<Rightarrow> bool \<Rightarrow> discordEmbedField list" where
  "field_if v nonempty name inline =
     (case v of None \<Rightarrow> []
      | Some x \<Rightarrow> if nonempty \<and> x = '''' then []
                  else [\<lparr> df_name = name, df_value = x, df_inline = inline \<rparr>])"

definition discordEmbed_of :: "Event \<Rightarrow> discordEmbed" where
  "discordEmbed_of ev =
     (let embed = \<lparr> dm_title = '''', dm_description = '''', dm_color = 0, dm_fields = [],
                    dm_timestamp = FormatRFC3339 (ev_timestamp ev), dm_footer = Some ''Technician'' \<rparr>
      in if ev_type ev = EventCheckDown then
           embed \<lparr> dm_title := ''Check Down: '' @ ev_check ev, dm_color := colorRed,
             dm_description := ''Check **'' @ ev_check ev @ ''**''
               @ (if ev_check_type ev \<noteq> '''' then '' ('' @ ev_check_type ev @ '')'' else '''')
               @ '' is down.'',
             dm_fields := field_if (detail ev ''error'') True ''Error'' False
               @ field_if (detail ev ''status_code'') False ''Status Code'' True \<rparr>
         else if ev_type ev = EventCheckUp then
           embed \<lparr> dm_title := ''Check Recovered: '' @ ev_check ev, dm_color := colorGreen,
             dm_description := ''Check **'' @ ev_check ev @ ''** is back up.'' \<rparr>
         else if ev_type ev = EventBudgetViolation then
           embed \<lparr> dm_title := ''Budget Violation: '' @ ev_check ev, dm_color := colorAmber,
             dm_description := ''Check **'' @ ev_check ev @ ''** exceeds **''
               @ get_or '''' (detail ev) ''metric'' @ ''** budget threshold.'' \<rparr>
         else if ev_type ev = EventCertExpiring then
           embed \<lparr> dm_title := ''['' @ ToUpper (ev_severity ev) @ ''] Certificate Expiring: '' @ ev_check ev,
             dm_color := (if ev_severity ev = SeverityCritical then colorRed else colorAmber),
             dm_description := ev_message ev,
             dm_fields := field_if (detail ev ''days_remaining'') False ''Days Remaining'' True
               @ field_if (detail ev ''expiry'') False ''Expiry Date'' True
               @ field_if (detail ev ''subject'') True ''Subject'' True \<rparr>
         else embed)"

section \<open>Slack and generic\<close>

record slackAttachment =
  sa_color :: string
  sa_text :: string

record slackPayload =
  sp_text :: string
  sp_attachments :: "slackAttachment list"

fun slackDetails :: "(string, string) gomap \<Rightarrow> string" where
  "slackDetails [] = ''''"
| "slackDetails ((k, v) # kvs) =
     (if v \<noteq> '''' then k @ '': '' @ v @ [CHR 10] else []) @ slackDetails kvs"

definition slackPayload_of :: "Event \<Rightarrow> slackPayload" where
  "slackPayload_of ev =
     \<lparr> sp_text = (if ev_severity ev \<noteq> '''' then ''['' @ ToUpper (ev_severity ev) @ ''] '' else '''')
                 @ ev_message ev,
       sp_attachments = [\<lparr> sa_color = (if ev_type ev = EventCheckUp then ''#00ff00''
                                       else if ev_severity ev = SeverityWarning then ''#f5a623''
                                       else ''#ff0000''),
                           sa_text = slackDetails (ev_details ev) \<rparr>] \<rparr>"

record genericPayload =
  gp_type :: string
  gp_severity :: string
  gp_check :: string
  gp_check_type :: string
  gp_message :: string
  gp_details :: "(string, string) gomap"
  gp_timestamp :: gotime

definition genericPayload_of :: "Event \<Rightarrow> genericPayload" where
  "genericPayload_of ev =
     \<lparr> gp_type = ev_type ev, gp_severity = ev_severity ev, gp_check = ev_check ev,
       gp_check_type = ev_check_type ev, gp_message = ev_message ev, gp_details = ev_details ev,
       gp_timestamp = ev_timestamp ev \<rparr>"

section \<open>Sending\<close>

datatype payload = DiscordPayload discordEmbed | SlackPayload slackPayload | GenericPayload genericPayload

datatype http_outcome = RequestInvalid | RequestFailed | Responded int

datatype send_error = CreateRequest string | WebhookRequest string | WebhookReturned string int

fun payload_of :: "Sender \<Rightarrow> Event \<Rightarrow> payload" where
  "payload_of (DiscordSender u) ev = DiscordPayload (discordEmbed_of ev)"
| "payload_of (SlackSender u) ev = SlackPayload (slackPayload_of ev)"
| "payload_of (GenericSender u) ev = GenericPayload (genericPayload_of ev)"

text \<open>
  The end of the three \<open>Send\<close> methods, with the name each puts into its errors; \<open>None\<close> is a nil
  error. \<open>post\<close> is the HTTP client, from the address and the payload to the outcome.
\<close>

type_synonym poster = "string \<Rightarrow> payload \<Rightarrow> http_outcome"

definition send_status :: "string \<Rightarrow> http_outcome \<Rightarrow> send_error option" where
  "send_status kind oc =
     (case oc of
        RequestInvalid \<Rightarrow> Some (CreateRequest kind)
      | RequestFailed \<Rightarrow> Some (WebhookRequest kind)
      | Responded code \<Rightarrow> if code < 200 \<or> code \<ge> 300 then Some (WebhookReturned kind code) else None)"

definition Discord_Send :: "poster \<Rightarrow> string \<Rightarrow> Event \<Rightarrow> send_error option" where
  "Discord_Send post url ev = send_status ''discord'' (post url (DiscordPayload (discordEmbed_of ev)))"

definition Slack_Send :: "poster \<Rightarrow> string \<Rightarrow> Event \<Rightarrow> send_error option" where
  "Slack_Send post url ev = send_status ''slack'' (post url (SlackPayload (slackPayload_of ev)))"

definition Generic_Send :: "poster \<Rightarrow> string \<Rightarrow> Event \<Rightarrow> send_error option" where
  "Generic_Send post url ev = send_status ''generic'' (post url (GenericPayload (genericPayload_of ev)))"

text \<open>The interface \<open>Sender\<close>.\<close>

fun Send :: "poster \<Rightarrow> Sender \<Rightarrow> Event \<Rightarrow> send_error option" where
  "Send post (DiscordSender url) ev = Discord_Send post url ev"
| "Send post (SlackSender url) ev = Slack_Send post url ev"
| "Send post (GenericSender url) ev = Generic_Send post url ev"

fun sender_url :: "Sender \<Rightarrow> string" where
  "sender_url (DiscordSender url) = url"
| "sender_url (SlackSender url) = url"
| "sender_url (GenericSender url) = url"

text \<open>
  The goroutine that delivers an event: one attempt and one more after an error, the second error
  being logged only. The result lists the payloads posted.
\<close>

definition deliver :: "(nat \<Rightarrow> poster) \<Rightarrow> Sender \<Rightarrow> Event \<Rightarrow> payload list \<times> send_error option" where
  "deliver post s ev =
     (case Send (post 0) s ev of
        None \<Rightarrow> ([payload_of s ev], None)
      | Some err \<Rightarrow> ([payload_of s ev, payload_of s ev], Send (post 1) s ev))"

lemmas send_defs = Discord_Send_def Slack_Send_def Generic_Send_def send_status_def

lemma Send_ok:
  "Send post s ev = None \<longleftrightarrow> (\<exists>code. post (sender_url s) (payload_of s ev) = Responded code \<and> 200 \<le> code \<and> code < 300)"
  by (cases s) (auto simp: send_defs split: http_outcome.splits)

lemma Send_cong:
  "post (sender_url s) (payload_of s ev) = post' (sender_url s) (payload_of s ev) \<Longrightarrow> Send post s ev = Send post' s ev"
  by (cases s) (simp_all add: send_defs)

text \<open>
  Delivery is at most two identical posts to the webhook's address: the second one happens exactly
  when the first did not get a 2xx answer, and the delivery ends without an error exactly when one of
  them did.
\<close>

theorem deliver_two_attempts:
  "fst (deliver post s ev) =
     (if \<exists>code. post 0 (sender_url s) (payload_of s ev) = Responded code \<and> 200 \<le> code \<and> code < 300
      then [payload_of s ev] else [payload_of s ev, payload_of s ev])
   \<and> (snd (deliver post s ev) = None \<longleftrightarrow>
       (\<exists>n<2. \<exists>code. post n (sender_url s) (payload_of s ev) = Responded code \<and> 200 \<le> code \<and> code < 300))"
proof -
  have two: "(\<exists>n<2. P n) \<longleftrightarrow> P 0 \<or> P 1" for P :: "nat \<Rightarrow> bool"
    by (auto simp: less_2_cases_iff)
  show ?thesis
    unfolding two
    by (cases "Send (post 0) s ev")
       (auto simp: deliver_def Send_ok [symmetric] simp del: split_paired_Ex)
qed

section \<open>What a reader of the message sees\<close>

lemma slackDetails_lines:
  "slackDetails kvs = concat (map (\<lambda>(k, v). k @ '': '' @ v @ [CHR 10]) (filter (\<lambda>(k, v). v \<noteq> '''') kvs))"
  by (induction kvs rule: slackDetails.induct) auto

lemma detail_down:
  "detail (downEvent r n) ''error'' = (if r_error r \<noteq> '''' then Some (r_error r) else None)"
  "detail (downEvent r n) ''status_code'' = (if r_status_code r > 0 then Some (itoa (r_status_code r)) else None)"
  by (simp_all add: detail_def downEvent_def)

definition urgency_colors :: "Event \<Rightarrow> int \<times> string" where
  "urgency_colors ev = (dm_color (discordEmbed_of ev), sa_color (hd (sp_attachments (slackPayload_of ev))))"

text \<open>
  Colour codes the urgency in the same way for Discord and Slack, for the four
  events that the manager raises: recovery is green, an outage and a certificate in the critical
  window are red, a budget violation and a certificate in the warning window are amber.
\<close>

theorem message_colors:
  "urgency_colors (upEvent r) = (colorGreen, ''#00ff00'')
   \<and> urgency_colors (downEvent r n) = (colorRed, ''#ff0000'')
   \<and> urgency_colors (budgetEvent ts c metric) = (colorAmber, ''#f5a623'')
   \<and> urgency_colors (certEvent r SeverityCritical) = (colorRed, ''#ff0000'')
   \<and> urgency_colors (certEvent r SeverityWarning) = (colorAmber, ''#f5a623'')"
  by (simp add: urgency_colors_def discordEmbed_of_def slackPayload_of_def upEvent_def downEvent_def
      budgetEvent_def certEvent_def Let_def)

end
