(* ===== verification/Status_Data.thy ===== *)
theory Status_Data
  imports Check_Result
begin

text \<open>
  The data of the status store, \<open>internal/status/store.go\<close>: entries, the circular buffer
  \<open>checkRing\<close> with its operations \<open>push\<close> and \<open>ordered\<close>, and the statistics computed from
  a history. The contract of the buffer is the locale \<open>bounded_history\<close>: pushing appends, and
  only the last \<open>cap\<close> items are kept.
\<close>

section \<open>Data\<close>

definition maxHistory :: nat where
  "maxHistory = 90"

record Entry =
  e_success :: bool
  e_infra_error :: bool
  e_duration_ms :: float64
  e_timestamp :: gotime
  e_error :: string
  e_status_code :: int
  e_dns_ms :: float64
  e_tls_ms :: float64
  e_ttfb_ms :: float64
  e_ntp_offset_ms :: float64
  e_cert_days_remaining :: int
  e_cert_valid :: bool
  e_cert_expiry :: gotime
  e_icmp_packet_loss :: float64
  e_grpc_status :: string

record BudgetCheck =
  bc_metric :: string
  bc_severity :: string

definition BudgetFailThreshold :: int where
  "BudgetFailThreshold = 3"

record Latency =
  la_p50 :: float64
  la_p90 :: float64
  la_p95 :: float64
  la_p99 :: float64

record TimingBreakdown =
  ti_dns_ms :: float64
  ti_tls_ms :: float64
  ti_ttfb_ms :: float64
  ti_transfer_ms :: float64

record checkRing =
  ri_name :: string
  ri_typ :: check_type
  ri_group :: string
  ri_target :: string
  ri_entries :: "Entry list"
  ri_head :: nat
  ri_full :: bool
  ri_downSince :: gotime

section \<open>The circular buffer\<close>

definition push :: "Entry \<Rightarrow> checkRing \<Rightarrow> checkRing" where
  "push e r =
     (if length (ri_entries r) < maxHistory then r \<lparr> ri_entries := ri_entries r @ [e] \<rparr>
      else r \<lparr> ri_entries := (ri_entries r)[ri_head r := e],
               ri_head := (ri_head r + 1) mod maxHistory, ri_full := True \<rparr>)"

definition ordered :: "checkRing \<Rightarrow> Entry list" where
  "ordered r =
     (if \<not> ri_full r \<or> ri_head r = 0 then ri_entries r
      else drop (ri_head r) (ri_entries r) @ take (ri_head r) (ri_entries r))"

section \<open>Statistics\<close>

definition percentile :: "float64 list \<Rightarrow> float64 \<Rightarrow> float64" where
  "percentile srt p =
     (let idx = p * of_int (int (length srt) - 1);
          lower = truncate_float idx;
          upper = lower + 1
      in if upper \<ge> int (length srt) then srt ! (length srt - 1)
         else (let frac = idx - of_int lower
               in srt ! nat lower * (1 - frac) + srt ! nat upper * frac))"

fun latencyLoop :: "float64 list \<Rightarrow> Entry list \<Rightarrow> float64 list" where
  "latencyLoop ds [] = ds"
| "latencyLoop ds (e # es) =
     latencyLoop (if e_success e \<and> \<not> e_infra_error e then ds @ [e_duration_ms e] else ds) es"

definition computeLatency :: "Entry list \<Rightarrow> Latency option" where
  "computeLatency entries =
     (let durations = latencyLoop [] entries
      in if length durations < 2 then None
         else (let s = sort durations
               in Some \<lparr> la_p50 = percentile s (50 / 100), la_p90 = percentile s (90 / 100),
                         la_p95 = percentile s (95 / 100), la_p99 = percentile s (99 / 100) \<rparr>))"

fun timingLoop ::
  "float64 \<times> float64 \<times> float64 \<times> float64 \<times> int \<Rightarrow> Entry list \<Rightarrow> float64 \<times> float64 \<times> float64 \<times> float64 \<times> int"
where
  "timingLoop (dns, tls, ttfb, tot, n) [] = (dns, tls, ttfb, tot, n)"
| "timingLoop (dns, tls, ttfb, tot, n) (e # es) =
     (if \<not> e_success e \<or> e_infra_error e \<or> e_ttfb_ms e = 0
      then timingLoop (dns, tls, ttfb, tot, n) es
      else timingLoop (dns + e_dns_ms e, tls + e_tls_ms e, ttfb + e_ttfb_ms e,
                       tot + e_duration_ms e, n + 1) es)"

definition computeTiming :: "Entry list \<Rightarrow> TimingBreakdown option" where
  "computeTiming entries =
     (case timingLoop (0, 0, 0, 0, 0) entries of
        (dns, tls, ttfb, tot, n) \<Rightarrow>
          if n = 0 then None
          else (let fn = of_int n; transfer = tot / fn - ttfb / fn
                in Some \<lparr> ti_dns_ms = dns / fn, ti_tls_ms = tls / fn, ti_ttfb_ms = ttfb / fn,
                          ti_transfer_ms = (if transfer < 1 then 0 else transfer) \<rparr>))"

definition em_dash :: string where
  "em_dash = [CHR 0xE2, CHR 0x80, CHR 0x94]"

fun uptimeLoop :: "int \<times> int \<Rightarrow> Entry list \<Rightarrow> int \<times> int" where
  "uptimeLoop (up, tot) [] = (up, tot)"
| "uptimeLoop (up, tot) (e # es) =
     (if e_infra_error e then uptimeLoop (up, tot) es
      else uptimeLoop (if e_success e then up + 1 else up, tot + 1) es)"

definition uptimePercent :: "Entry list \<Rightarrow> string" where
  "uptimePercent entries =
     (if length entries = 0 then em_dash
      else (case uptimeLoop (0, 0) entries of
              (up, tot) \<Rightarrow>
                if tot = 0 then em_dash
                else (let pct = of_int up / of_int tot * 100
                      in if pct = 100 then ''100%'' else fmt_fixed 1 pct @ ''%'')))"

text \<open>\<open>Duration.Round(time.Second)\<close>: to the nearest second, halves away from zero, saturating.\<close>

definition round_second :: "duration \<Rightarrow> duration" where
  "round_second d =
     (if d < 0
      then (let r = (- d) mod Second in if r + r < Second then d + r else max (- (2 ^ 63)) (d - (Second - r)))
      else (let r = d mod Second in if r + r < Second then d - r else min (2 ^ 63 - 1) (d + (Second - r))))"

definition fmtDuration :: "duration \<Rightarrow> string" where
  "fmtDuration d0 =
     (let d = round_second d0
      in if d < Minute then ''for '' @ itoa (truncate_float (of_int d / of_int Second)) @ ''s''
         else if d < Hour then ''for '' @ itoa (truncate_float (of_int d / of_int Minute)) @ ''m''
         else (let h = truncate_float (of_int d / of_int Hour);
                   m = truncate_float (of_int d / of_int Minute) smod 60
               in if m = 0 then ''for '' @ itoa h @ ''h''
                  else ''for '' @ itoa h @ ''h '' @ itoa m @ ''m''))"

section \<open>A bounded history\<close>

locale bounded_history =
  fixes append :: "'a \<Rightarrow> 'h \<Rightarrow> 'h"
    and items :: "'h \<Rightarrow> 'a list"
    and ok :: "'h \<Rightarrow> bool"
    and cap :: nat
  assumes cap_pos: "0 < cap"
    and ok_append: "ok h \<Longrightarrow> ok (append x h)"
    and items_append: "ok h \<Longrightarrow> items (append x h) = lastn cap (items h @ [x])"
    and items_bound: "ok h \<Longrightarrow> length (items h) \<le> cap"
begin

lemma ok_run: "ok h \<Longrightarrow> ok (fold append xs h)"
  by (induction xs arbitrary: h) (auto simp: ok_append)

lemma items_run: "ok h \<Longrightarrow> items (fold append xs h) = lastn cap (items h @ xs)"
proof (induction xs rule: rev_induct)
  case Nil
  then show ?case by (simp add: lastn_id items_bound)
next
  case (snoc x xs)
  then have "items (fold append (xs @ [x]) h) = lastn cap (lastn cap (items h @ xs) @ [x])"
    by (simp add: items_append ok_run)
  also have "\<dots> = lastn cap (items h @ xs @ [x])"
    using lastn_snoc [OF cap_pos, of "items h @ xs" x] by simp
  finally show ?case .
qed

lemma length_run: "ok h \<Longrightarrow> length (items (fold append xs h)) = min cap (length (items h) + length xs)"
  by (simp add: items_run)

lemma last_append: "ok h \<Longrightarrow> items (append x h) \<noteq> [] \<and> last (items (append x h)) = x"
proof -
  assume "ok h"
  then have i: "items (append x h) = lastn cap (items h @ [x])" by (rule items_append)
  have "length (lastn cap (items h @ [x])) > 0" using cap_pos by simp
  then have "lastn cap (items h @ [x]) \<noteq> []" by blast
  with i cap_pos show ?thesis by (simp add: last_lastn)
qed

end

definition ring_ok :: "checkRing \<Rightarrow> bool" where
  "ring_ok r \<longleftrightarrow> length (ri_entries r) \<le> maxHistory \<and> ri_head r < maxHistory
     \<and> (ri_full r \<longrightarrow> length (ri_entries r) = maxHistory)
     \<and> (\<not> ri_full r \<longrightarrow> ri_head r = 0)"

lemma ordered_rotate:
  "ring_ok r \<Longrightarrow> ordered r = drop (ri_head r) (ri_entries r) @ take (ri_head r) (ri_entries r)"
  by (auto simp: ordered_def ring_ok_def)

lemma push_full_ordered:
  assumes "length es = n" "h < n"
  shows "drop (Suc h mod n) (es[h := e]) @ take (Suc h mod n) (es[h := e]) =
    tl (drop h es @ take h es) @ [e]"
proof (cases "Suc h = n")
  case True
  then have "es[h := e] = take h es @ [e]" using assms by (simp add: list_update_beyond upd_conv_take_nth_drop)
  moreover have "drop h es = [es ! h]" using True assms by (metis Cons_nth_drop_Suc drop_all le_refl)
  ultimately show ?thesis using True by simp
next
  case False
  with assms have "Suc h < n" by simp
  then have "drop (Suc h) (es[h := e]) = drop (Suc h) es" "take (Suc h) (es[h := e]) = take h es @ [e]"
    using assms by (simp_all add: take_Suc_conv_app_nth)
  moreover have "drop h es = es ! h # drop (Suc h) es"
    using assms by (simp add: Cons_nth_drop_Suc)
  ultimately show ?thesis using \<open>Suc h < n\<close> by simp
qed

interpretation rh: bounded_history push ordered ring_ok maxHistory
proof (unfold_locales, goal_cases)
  case 1
  show ?case by (simp add: maxHistory_def)
next
  case (2 r e)
  then show ?case by (auto simp: ring_ok_def push_def maxHistory_def)
next
  case (3 r e)
  show ?case
  proof (cases "length (ri_entries r) < maxHistory")
    case True
    with 3 show ?thesis by (auto simp: ordered_def push_def ring_ok_def lastn_id)
  next
    case False
    with 3 have l: "length (ri_entries r) = maxHistory" "ri_head r < maxHistory"
      by (auto simp: ring_ok_def)
    have "ordered (push e r) = tl (ordered r) @ [e]"
      using push_full_ordered [OF l, of e] l ordered_rotate [OF 3]
      by (auto simp: ordered_def push_def)
    moreover have "lastn maxHistory (ordered r @ [e]) = tl (ordered r) @ [e]"
      using l ordered_rotate [OF 3] by (intro lastn_snoc_full) (auto simp: maxHistory_def)
    ultimately show ?thesis by simp
  qed
next
  case (4 r)
  then show ?case by (auto simp: ordered_def ring_ok_def)
qed

definition newRing :: "string \<Rightarrow> check_type \<Rightarrow> string \<Rightarrow> string \<Rightarrow> Entry list \<Rightarrow> gotime \<Rightarrow> checkRing" where
  "newRing name typ grp target entries since = \<lparr> ri_name = name, ri_typ = typ, ri_group = grp,
     ri_target = target, ri_entries = entries, ri_head = 0, ri_full = False, ri_downSince = since \<rparr>"

lemma newRing_ok: "ring_ok (newRing n t g tg es ds) \<longleftrightarrow> length es \<le> maxHistory"
  by (auto simp: ring_ok_def newRing_def maxHistory_def)

lemma ordered_newRing [simp]: "ordered (newRing n t g tg es ds) = es"
  by (simp add: ordered_def newRing_def)

text \<open>
  Property C20. The circular buffer refines a bounded list: after any number of pushes onto a new
  buffer, \<open>ordered\<close> is exactly the last 90 entries pushed, oldest first.
\<close>

theorem ring_keeps_last_90:
  "ordered (fold push es (newRing n t g tg [] ds)) = lastn 90 es"
  using rh.items_run [of "newRing n t g tg [] ds" es] newRing_ok [of n t g tg "[]" ds]
  by (simp add: maxHistory_def)

section \<open>Percentiles\<close>

lemma latencyLoop_filter:
  "latencyLoop ds es = ds @ map e_duration_ms (filter (\<lambda>e. e_success e \<and> \<not> e_infra_error e) es)"
  by (induction es arbitrary: ds) auto

text \<open>Linear interpolation between neighbouring elements of a sorted list.\<close>

definition interp :: "float64 list \<Rightarrow> float64 \<Rightarrow> float64" where
  "interp xs x =
     (let l = nat \<lfloor>x\<rfloor>
      in if Suc l \<ge> length xs then xs ! (length xs - 1)
         else xs ! l * (1 - (x - of_int \<lfloor>x\<rfloor>)) + xs ! Suc l * (x - of_int \<lfloor>x\<rfloor>))"

lemma percentile_interp:
  assumes "xs \<noteq> []" "0 \<le> p"
  shows "percentile xs p = interp xs (p * of_nat (length xs - 1))"
proof -
  have n: "rat_of_int (int (length xs) - 1) = of_nat (length xs - 1)"
    using assms(1) by (cases xs) auto
  let ?x = "p * of_nat (length xs - 1)"
  have x: "0 \<le> ?x" using assms(2) by simp
  define l where "l = \<lfloor>?x\<rfloor>"
  have l: "truncate_float ?x = l" "0 \<le> l" using x by (simp_all add: truncate_float_def l_def)
  have "nat (l + 1) = Suc (nat l)" "int (length xs) \<le> l + 1 \<longleftrightarrow> length xs \<le> Suc (nat l)"
    using l(2) by linarith+
  then show ?thesis
    unfolding percentile_def interp_def n Let_def l(1) l_def [symmetric] by (simp only:)
qed

lemma convex_between:
  fixes a b t :: rat
  assumes "a \<le> b" "0 \<le> t" "t \<le> 1"
  shows "a \<le> a * (1 - t) + b * t \<and> a * (1 - t) + b * t \<le> b"
proof -
  have "a * (1 - t) + b * t = a + (b - a) * t" by (simp add: algebra_simps)
  moreover have "0 \<le> (b - a) * t" "(b - a) * t \<le> (b - a) * 1"
    using assms by (intro mult_nonneg_nonneg mult_left_mono; simp)+
  ultimately show ?thesis by simp
qed

lemma interp_between:
  assumes "sorted xs" "Suc (nat \<lfloor>x\<rfloor>) < length xs" "0 \<le> x"
  shows "xs ! nat \<lfloor>x\<rfloor> \<le> interp xs x \<and> interp xs x \<le> xs ! Suc (nat \<lfloor>x\<rfloor>)"
  using convex_between [of "xs ! nat \<lfloor>x\<rfloor>" "xs ! Suc (nat \<lfloor>x\<rfloor>)" "x - of_int \<lfloor>x\<rfloor>"] assms
    sorted_nth_mono [OF assms(1), of "nat \<lfloor>x\<rfloor>" "Suc (nat \<lfloor>x\<rfloor>)"]
  by (simp add: interp_def Let_def) linarith

lemma interp_mono:
  assumes "sorted xs" "0 \<le> x" "x \<le> y" "xs \<noteq> []"
  shows "interp xs x \<le> interp xs y"
proof (cases "Suc (nat \<lfloor>y\<rfloor>) < length xs")
  case True
  have fl: "nat \<lfloor>x\<rfloor> \<le> nat \<lfloor>y\<rfloor>" using assms(3) by (simp add: floor_mono nat_mono)
  have y: "xs ! nat \<lfloor>y\<rfloor> \<le> interp xs y" using interp_between [OF assms(1) True] assms(2,3) by simp
  show ?thesis
  proof (cases "nat \<lfloor>x\<rfloor> = nat \<lfloor>y\<rfloor>")
    case eq: True
    then have e: "\<lfloor>x\<rfloor> = \<lfloor>y\<rfloor>" using assms(2,3) by (simp add: nat_eq_iff)
    let ?a = "xs ! nat \<lfloor>y\<rfloor>" and ?b = "xs ! Suc (nat \<lfloor>y\<rfloor>)"
    have "?a \<le> ?b" using sorted_nth_mono [OF assms(1)] True by simp
    then have "(?b - ?a) * (x - of_int \<lfloor>y\<rfloor>) \<le> (?b - ?a) * (y - of_int \<lfloor>y\<rfloor>)"
      using assms(3) by (intro mult_left_mono) auto
    with True e show ?thesis by (simp add: interp_def Let_def algebra_simps)
  next
    case False
    with fl have lt: "Suc (nat \<lfloor>x\<rfloor>) \<le> nat \<lfloor>y\<rfloor>" by simp
    have "interp xs x \<le> xs ! Suc (nat \<lfloor>x\<rfloor>)"
      using interp_between [OF assms(1) _ assms(2)] lt True by simp
    also have "\<dots> \<le> xs ! nat \<lfloor>y\<rfloor>" using sorted_nth_mono [OF assms(1) lt] True by simp
    finally show ?thesis using y by simp
  qed
next
  case False
  then have iy: "interp xs y = xs ! (length xs - 1)" by (simp add: interp_def Let_def)
  show ?thesis
  proof (cases "Suc (nat \<lfloor>x\<rfloor>) < length xs")
    case True
    then have "interp xs x \<le> xs ! Suc (nat \<lfloor>x\<rfloor>)" using interp_between [OF assms(1) _ assms(2)] by simp
    also have "\<dots> \<le> xs ! (length xs - 1)" using sorted_nth_mono [OF assms(1)] True by simp
    finally show ?thesis by (simp add: iy)
  qed (simp add: iy interp_def [of xs x] Let_def)
qed

lemma percentile_mono:
  assumes "sorted xs" "xs \<noteq> []" "0 \<le> p" "p \<le> q"
  shows "percentile xs p \<le> percentile xs q"
  using assms
  by (auto simp: percentile_interp intro!: interp_mono mult_right_mono)

lemma percentile_ends:
  assumes "xs \<noteq> []"
  shows "percentile xs 0 = hd xs" "percentile xs 1 = last xs"
  using assms
  by (auto simp: percentile_def Let_def truncate_float_def hd_conv_nth last_conv_nth)

text \<open>
  Latency percentiles: there are some exactly when at least two entries succeeded;
  then they are ordered, p50 below p90 below p95 below p99, and lie between the smallest and the
  largest duration of the successful entries.
\<close>

theorem computeLatency_ordered:
  "let ds = map e_duration_ms (filter (\<lambda>e. e_success e \<and> \<not> e_infra_error e) es)
   in case computeLatency es of
        None \<Rightarrow> length ds < 2
      | Some l \<Rightarrow> 2 \<le> length ds \<and> Min (set ds) \<le> la_p50 l \<and> la_p50 l \<le> la_p90 l
          \<and> la_p90 l \<le> la_p95 l \<and> la_p95 l \<le> la_p99 l \<and> la_p99 l \<le> Max (set ds)"
proof -
  let ?ds = "map e_duration_ms (filter (\<lambda>e. e_success e \<and> \<not> e_infra_error e) es)"
  let ?s = "sort ?ds"
  have cl: "computeLatency es = (if length ?ds < 2 then None
      else Some \<lparr> la_p50 = percentile ?s (50 / 100), la_p90 = percentile ?s (90 / 100),
                  la_p95 = percentile ?s (95 / 100), la_p99 = percentile ?s (99 / 100) \<rparr>)"
    by (simp add: computeLatency_def Let_def latencyLoop_filter)
  have bounds: "Min (set ?ds) \<le> percentile ?s (50 / 100)" "percentile ?s (99 / 100) \<le> Max (set ?ds)"
    if ne: "?s \<noteq> []"
  proof -
    have "Min (set ?ds) \<le> hd ?s" "last ?s \<le> Max (set ?ds)"
      using hd_in_set [OF ne] last_in_set [OF ne] by simp_all
    with percentile_mono [OF sorted_sort ne, of 0 "50 / 100"] percentile_mono [OF sorted_sort ne, of "99 / 100" 1]
    show "Min (set ?ds) \<le> percentile ?s (50 / 100)" "percentile ?s (99 / 100) \<le> Max (set ?ds)"
      using percentile_ends [OF ne] by simp_all
  qed
  have mid: "percentile ?s (50 / 100) \<le> percentile ?s (90 / 100)"
    "percentile ?s (90 / 100) \<le> percentile ?s (95 / 100)"
    "percentile ?s (95 / 100) \<le> percentile ?s (99 / 100)" if "?s \<noteq> []"
    using that by (intro percentile_mono; simp)+
  have ne: "?s \<noteq> []" if "\<not> length ?ds < 2" using that by (metis length_0_conv length_sort zero_less_numeral)
  show ?thesis
    using bounds mid ne unfolding cl Let_def by (auto split: if_splits)
qed

section \<open>Uptime, timing and durations\<close>

definition counted :: "Entry \<Rightarrow> bool" where
  "counted e \<longleftrightarrow> \<not> e_infra_error e"

lemma uptimeLoop_counts:
  "uptimeLoop (u, n) es =
     (u + int (length (filter (\<lambda>e. counted e \<and> e_success e) es)), n + int (length (filter counted es)))"
  by (induction es arbitrary: u n) (auto simp: counted_def)

lemma length_filter_all: "length (filter P xs) = length xs \<longleftrightarrow> list_all P xs"
proof (induction xs)
  case (Cons x xs)
  have "length (filter P xs) \<noteq> Suc (length xs)" using length_filter_le [of P xs] by linarith
  with Cons show ?case by simp
qed simp

text \<open>
  Uptime is the share of successful entries among those that are no infrastructure
  errors: a dash when there are none, \<open>100%\<close> exactly when all of them succeeded, otherwise the
  percentage with one decimal.
\<close>

theorem uptimePercent_spec:
  "uptimePercent es =
     (if filter counted es = [] then em_dash
      else if list_all e_success (filter counted es) then ''100%''
      else fmt_fixed 1 (of_nat (length (filter e_success (filter counted es)))
                        / of_nat (length (filter counted es)) * 100) @ ''%'')"
proof (cases "filter counted es = []")
  case True
  then show ?thesis by (simp add: uptimePercent_def uptimeLoop_counts)
next
  case False
  let ?c = "filter counted es" and ?u = "filter e_success (filter counted es)"
  have ne: "es \<noteq> []" using False by auto
  have pos: "0 < length ?c" using False by simp
  have "rat_of_nat (length ?u) / of_nat (length ?c) * 100 = 100 \<longleftrightarrow> length ?u = length ?c"
    using pos by (simp add: field_simps)
  also have "\<dots> \<longleftrightarrow> list_all e_success ?c"
    by (rule length_filter_all)
  finally show ?thesis
    using False ne pos by (simp add: uptimePercent_def uptimeLoop_counts Let_def)
qed

definition timed :: "Entry \<Rightarrow> bool" where
  "timed e \<longleftrightarrow> e_success e \<and> \<not> e_infra_error e \<and> e_ttfb_ms e \<noteq> 0"

lemma timingLoop_sums:
  "timingLoop (a, b, c, d, n) es =
     (a + sum_list (map e_dns_ms (filter timed es)), b + sum_list (map e_tls_ms (filter timed es)),
      c + sum_list (map e_ttfb_ms (filter timed es)), d + sum_list (map e_duration_ms (filter timed es)),
      n + int (length (filter timed es)))"
  by (induction es arbitrary: a b c d n) (auto simp: timed_def)

lemma computeTiming_avg:
  "computeTiming es =
     (let ts = filter timed es; avg = (\<lambda>f. sum_list (map f ts) / of_nat (length ts));
          transfer = avg e_duration_ms - avg e_ttfb_ms
      in if ts = [] then None
         else Some \<lparr> ti_dns_ms = avg e_dns_ms, ti_tls_ms = avg e_tls_ms, ti_ttfb_ms = avg e_ttfb_ms,
                     ti_transfer_ms = (if transfer < 1 then 0 else transfer) \<rparr>)"
  by (simp add: computeTiming_def timingLoop_sums Let_def)

lemma truncate_div: "0 \<le> d \<Longrightarrow> 0 < k \<Longrightarrow> truncate_float (of_int d / of_int k) = d div k"
  by (simp add: truncate_float_def floor_divide_of_int_eq)

text \<open>
  The text for a non-negative duration: rounded to whole seconds, it shows the
  seconds below a minute, the whole minutes below an hour, and otherwise the hours and the
  remaining minutes, which are left out when 0.
\<close>

theorem fmtDuration_units:
  assumes "0 \<le> d" and "d < 2 ^ 62"
  shows "let s = (d + 500 * Millisecond) div Second
    in fmtDuration d =
      (if s < 60 then ''for '' @ itoa s @ ''s''
       else if s < 3600 then ''for '' @ itoa (s div 60) @ ''m''
       else if s mod 3600 div 60 = 0 then ''for '' @ itoa (s div 3600) @ ''h''
       else ''for '' @ itoa (s div 3600) @ ''h '' @ itoa (s mod 3600 div 60) @ ''m'')"
proof -
  define s where "s = (d + 500 * Millisecond) div Second"
  have rnd: "round_second d = s * Second"
  proof -
    define q r where "q = d div Second" and "r = d mod Second"
    have d: "d = q * Second + r" and r: "0 \<le> r" "r < Second" by (simp_all add: q_def r_def)
    show ?thesis
    proof (cases "r + r < Second")
      case True
      with r have "s = q" unfolding s_def d by (intro int_div_pos_eq [where r = "r + 500 * Millisecond"]) auto
      with True assms(1) show ?thesis by (simp add: round_second_def r_def [symmetric] d [symmetric]) (simp add: d)
    next
      case False
      with r have "s = q + 1" unfolding s_def d
        by (intro int_div_pos_eq [where r = "r - 500 * Millisecond"]) auto
      with False assms r show ?thesis
        by (simp add: round_second_def r_def [symmetric] Let_def) (simp add: d)
    qed
  qed
  have s0: "0 \<le> s" using assms unfolding s_def by simp
  have h: "truncate_float (of_int (s * Second) / of_int Hour) = s div 3600"
    "truncate_float (of_int (s * Second) / of_int Minute) = s div 60"
    "truncate_float (of_int (s * Second) / of_int Second) = s"
    using s0 truncate_div [of s 3600] truncate_div [of s 60] truncate_div [of s 1] by simp_all
  have sm: "(s div 60) smod 60 = s mod 3600 div 60"
  proof -
    have "a smod 60 = a mod 60" if "0 \<le> a" for a :: int
      using that by (cases "a = 0") (simp_all add: signed_modulo_int_def signed_divide_int_def minus_div_mult_eq_mod)
    moreover have "s mod (60 * 60) = 60 * (s div 60 mod 60) + s mod 60" by (rule zmod_zmult2_eq) simp
    ultimately show ?thesis using s0 by (simp add: pos_imp_zdiv_nonneg_iff)
  qed
  show ?thesis
    unfolding fmtDuration_def rnd Let_def h sm s_def [symmetric]
    using s0 by simp
qed

theorem fmtDuration_units_witness:
  "fmtDuration (8100 * Second) = ''for '' @ itoa 2 @ ''h '' @ itoa 15 @ ''m''"
  using fmtDuration_units [of "8100 * Second"] by simp

end
