(* ===== verification/Status_Store.thy ===== *)
theory Status_Store
  imports Status_Data "HOL-Library.Multiset"
begin

text \<open>
  The status store, \<open>internal/status/store.go\<close>: \<open>Push\<close>, \<open>Reconcile\<close>, \<open>RecordBudgetCheck\<close>
  and the snapshot with its cache. The two maps that the code ranges over are \<open>gomap\<close>s;
  \<open>st_history\<close> lists the results handed to the optional recorder, \<open>None\<close> when there is none.
  \<open>computeSnapshot\<close> yields \<open>None\<close> where the code would dereference the nil ring of a key
  without a ring.
\<close>

section \<open>Data\<close>

record CheckState =
  cs_name :: string
  cs_type :: check_type
  cs_domain :: string
  cs_status :: string
  cs_down_since :: string
  cs_uptime :: string
  cs_latency :: "Latency option"
  cs_timing :: "TimingBreakdown option"
  cs_latest :: "Entry option"
  cs_history :: "Entry list"
  cs_budget_checks :: "BudgetCheck list"

record CheckGroup =
  cg_name :: string
  cg_checks :: "CheckState list"

record Summary =
  su_total :: int
  su_up :: int
  su_down :: int
  su_error :: int
  su_budget_total :: int
  su_budget_violations :: int

record OriginInfo =
  oi_id :: string
  oi_city :: string
  oi_country :: string

record Snapshot =
  sn_service :: string
  sn_origin :: "OriginInfo option"
  sn_overall :: string
  sn_summary :: Summary
  sn_types :: "string list"
  sn_groups :: "CheckGroup list"
  sn_checks :: "CheckState list"
  sn_updated_at :: gotime

record budgetState =
  bs_violated :: bool
  bs_consecutive :: int

record Store =
  st_checks :: "(string, checkRing) gomap"
  st_order :: "string list"
  st_service :: string
  st_origin :: "OriginInfo option"
  st_path :: string
  st_budgetChecks :: "(string, budgetState) gomap"
  st_snapCache :: "Snapshot option"
  st_snapTime :: gotime
  st_consecutiveWriteFail :: int
  st_history :: "Result list option"

definition snapshotTTL :: duration where
  "snapshotTTL = 2 * Second"

definition emptyStore :: "string \<Rightarrow> Origin option \<Rightarrow> string \<Rightarrow> Store" where
  "emptyStore service origin path =
     \<lparr> st_checks = [], st_order = [], st_service = service,
       st_origin = map_option (\<lambda>og. \<lparr> oi_id = o_id og, oi_city = o_city og, oi_country = o_country og \<rparr>) origin,
       st_path = path, st_budgetChecks = [], st_snapCache = None, st_snapTime = 0,
       st_consecutiveWriteFail = 0, st_history = None \<rparr>"

definition SetHistory :: "Store \<Rightarrow> Store" where
  "SetHistory s = s \<lparr> st_history := Some [] \<rparr>"

section \<open>Keys\<close>

definition checkKey :: "check_type \<Rightarrow> string \<Rightarrow> string" where
  "checkKey typ name = typ @ '':'' @ name"

definition budgetKeyCheck :: "string \<Rightarrow> string option" where
  "budgetKeyCheck key =
     (case LastIndex key CHR '':'' of None \<Rightarrow> None | Some i \<Rightarrow> Some (take i key))"

section \<open>Operations\<close>

definition invalidateCache :: "Store \<Rightarrow> Store" where
  "invalidateCache s = s \<lparr> st_snapCache := None \<rparr>"

fun reconcileLoop ::
  "(string \<Rightarrow> bool) \<Rightarrow> string list \<Rightarrow> string list \<times> (string, checkRing) gomap \<Rightarrow> string list \<times> (string, checkRing) gomap"
where
  "reconcileLoop active [] acc = acc"
| "reconcileLoop active (key # keys) (kept, checks) =
     (if active key then reconcileLoop active keys (kept @ [key], checks)
      else reconcileLoop active keys (kept, AList.delete key checks))"

definition pruneBudgets :: "(string \<Rightarrow> bool) \<Rightarrow> (string, budgetState) gomap \<Rightarrow> (string, budgetState) gomap" where
  "pruneBudgets activeName bcs =
     fold (\<lambda>key m. case budgetKeyCheck key of
             None \<Rightarrow> m
           | Some name \<Rightarrow> if \<not> activeName name then AList.delete key m else m)
       (gokeys bcs) bcs"

definition Reconcile :: "CheckConfig list \<Rightarrow> Store \<Rightarrow> Store" where
  "Reconcile checks s =
     (let active = (\<lambda>k. k \<in> set (map (\<lambda>c. checkKey (c_type c) (c_name c)) checks));
          activeNames = (\<lambda>n. n \<in> set (map c_name checks))
      in case reconcileLoop active (st_order s) ([], st_checks s) of
           (kept, rings) \<Rightarrow> s \<lparr> st_order := kept, st_checks := rings,
              st_budgetChecks := pruneBudgets activeNames (st_budgetChecks s) \<rparr>)"

definition to_ms :: "duration \<Rightarrow> float64" where
  "to_ms d = of_int d / of_int Millisecond"

definition entry_of :: "Result \<Rightarrow> Entry" where
  "entry_of r = \<lparr> e_success = r_success r, e_infra_error = r_infra_error r,
     e_duration_ms = to_ms (r_duration r), e_timestamp = r_timestamp r, e_error = r_error r,
     e_status_code = r_status_code r, e_dns_ms = to_ms (r_dns_duration r),
     e_tls_ms = to_ms (r_tls_duration r), e_ttfb_ms = to_ms (r_ttfb_duration r),
     e_ntp_offset_ms = r_ntp_offset_ms r, e_cert_days_remaining = r_cert_days_remaining r,
     e_cert_valid = r_cert_valid r, e_cert_expiry = r_cert_expiry r,
     e_icmp_packet_loss = r_icmp_loss r, e_grpc_status = r_grpc_status r \<rparr>"

text \<open>The part of \<open>Push\<close> that updates the ring of the check.\<close>

definition updateRing :: "Result \<Rightarrow> checkRing \<Rightarrow> checkRing" where
  "updateRing r ring =
     (let r1 = (if r_group r \<noteq> '''' then ring \<lparr> ri_group := r_group r \<rparr> else ring);
          r2 = (if r_target r \<noteq> '''' then r1 \<lparr> ri_target := r_target r \<rparr> else r1);
          r3 = (if r_success r \<or> r_infra_error r then r2 \<lparr> ri_downSince := 0 \<rparr>
                else if IsZero (ri_downSince r2) then r2 \<lparr> ri_downSince := r_timestamp r \<rparr>
                else r2)
      in push (entry_of r) r3)"

definition Push :: "Result \<Rightarrow> Store \<Rightarrow> Store" where
  "Push r s =
     (let s1 = s \<lparr> st_history := map_option (\<lambda>rs. rs @ [r]) (st_history s) \<rparr>;
          key = checkKey (r_type r) (r_name r);
          (ring, s2) = (case map_of (st_checks s1) key of
                          Some ring \<Rightarrow> (ring, s1)
                        | None \<Rightarrow> (newRing (r_name r) (r_type r) (r_group r) (r_target r) [] 0,
                                   s1 \<lparr> st_order := st_order s1 @ [key] \<rparr>))
      in invalidateCache (s2 \<lparr> st_checks := AList.update key (updateRing r ring) (st_checks s2) \<rparr>))"

definition budgetKey :: "string \<Rightarrow> string \<Rightarrow> string" where
  "budgetKey chk metric = chk @ '':'' @ metric"

definition RecordBudgetCheck :: "string \<Rightarrow> string \<Rightarrow> bool \<Rightarrow> Store \<Rightarrow> bool \<times> Store" where
  "RecordBudgetCheck chk metric violated s =
     (let key = budgetKey chk metric;
          prev = get_or \<lparr> bs_violated = False, bs_consecutive = 0 \<rparr> (map_of (st_budgetChecks s)) key;
          bs = (if violated then \<lparr> bs_violated = True, bs_consecutive = bs_consecutive prev + 1 \<rparr>
                else \<lparr> bs_violated = False, bs_consecutive = 0 \<rparr>)
      in (bs_consecutive bs = BudgetFailThreshold,
          invalidateCache (s \<lparr> st_budgetChecks := AList.update key bs (st_budgetChecks s) \<rparr>)))"

section \<open>Snapshots\<close>

definition checkState_of :: "gotime \<Rightarrow> checkRing \<Rightarrow> CheckState" where
  "checkState_of now ring =
     (let entries = ordered ring;
          ps = \<lparr> cs_name = ri_name ring, cs_type = ri_typ ring, cs_domain = ri_target ring,
                 cs_status = ''pending'', cs_down_since = '''', cs_uptime = uptimePercent entries,
                 cs_latency = computeLatency entries, cs_timing = computeTiming entries,
                 cs_latest = None, cs_history = entries, cs_budget_checks = [] \<rparr>
      in if length entries > 0 then
           (let lst = entries ! (length entries - 1); ps1 = ps \<lparr> cs_latest := Some lst \<rparr>
            in if e_success lst then ps1 \<lparr> cs_status := ''up'' \<rparr>
               else if e_infra_error lst then ps1 \<lparr> cs_status := ''error'' \<rparr>
               else ps1 \<lparr> cs_status := ''down'',
                          cs_down_since := (if \<not> IsZero (ri_downSince ring)
                            then fmtDuration (time_sub now (ri_downSince ring)) else '''') \<rparr>)
         else ps)"

text \<open>
  The accumulators of the loop of \<open>computeSnapshot\<close>; \<open>groupMap\<close> with \<open>groupOrder\<close> is one
  association list in the order of insertion.
\<close>

record snap_acc =
  sx_up :: int
  sx_down :: int
  sx_err :: int
  sx_types :: "string list"
  sx_checks :: "CheckState list"
  sx_groups :: "(string, CheckState list) gomap"

definition snapStep :: "gotime \<Rightarrow> checkRing \<Rightarrow> snap_acc \<Rightarrow> snap_acc" where
  "snapStep now ring a =
     (let ps = checkState_of now ring
      in a \<lparr> sx_up := sx_up a + (if cs_status ps = ''up'' then 1 else 0),
             sx_down := sx_down a + (if cs_status ps = ''down'' then 1 else 0),
             sx_err := sx_err a + (if cs_status ps = ''error'' then 1 else 0),
             sx_types := ri_typ ring # sx_types a,
             sx_checks := sx_checks a @ [ps],
             sx_groups := AList.update (ri_group ring)
               (get_or [] (map_of (sx_groups a)) (ri_group ring) @ [ps]) (sx_groups a) \<rparr>)"

fun snapLoop :: "gotime \<Rightarrow> (string, checkRing) gomap \<Rightarrow> string list \<Rightarrow> snap_acc \<Rightarrow> snap_acc option" where
  "snapLoop now checks [] a = Some a"
| "snapLoop now checks (key # keys) a =
     (case map_of checks key of
        None \<Rightarrow> None
      | Some ring \<Rightarrow> snapLoop now checks keys (snapStep now ring a))"

definition typeOrder :: "check_type list" where
  "typeOrder = [CheckTypeHTTP, CheckTypeTCP, CheckTypeUDP, CheckTypeDNS, CheckTypeICMP,
     CheckTypeGRPC, CheckTypeNTP, CheckTypeTLS, CheckTypeSMTP, CheckTypeTraceroute, CheckTypeBGP,
     CheckTypeDomainExpiry, CheckTypeWebSocket, CheckTypePlaywright]"

definition overall_of :: "int \<Rightarrow> int \<Rightarrow> string" where
  "overall_of up dn =
     (if dn = 0 \<and> up > 0 then ''operational'' else if up = 0 \<and> dn > 0 then ''down''
      else if dn > 0 then ''degraded'' else ''pending'')"

definition budgetSeverity :: "budgetState \<Rightarrow> string" where
  "budgetSeverity bs =
     (if bs_consecutive bs \<ge> BudgetFailThreshold then ''fail''
      else if bs_violated bs then ''warn'' else ''pass'')"

text \<open>The loop over \<open>budgetChecks\<close> that fills \<open>probeBudgets\<close>, and the sorting of each list.\<close>

fun probeLoop :: "(string, budgetState) gomap \<Rightarrow> (string, BudgetCheck list) gomap \<Rightarrow> (string, BudgetCheck list) gomap" where
  "probeLoop [] pb = pb"
| "probeLoop ((key, bs) # kvs) pb =
     (case budgetKeyCheck key of
        None \<Rightarrow> probeLoop kvs pb
      | Some name \<Rightarrow>
          probeLoop kvs (AList.update name
            (get_or [] (map_of pb) name
              @ [\<lparr> bc_metric = drop (length name + 1) key, bc_severity = budgetSeverity bs \<rparr>]) pb))"

definition probeBudgets :: "(string, budgetState) gomap \<Rightarrow> (string, BudgetCheck list) gomap" where
  "probeBudgets bcs = map (\<lambda>(k, l). (k, sort_key bc_metric l)) (probeLoop bcs [])"

definition attach :: "(string, BudgetCheck list) gomap \<Rightarrow> CheckState \<Rightarrow> CheckState" where
  "attach pb ps = (case map_of pb (cs_name ps) of None \<Rightarrow> ps | Some l \<Rightarrow> ps \<lparr> cs_budget_checks := l \<rparr>)"

definition computeSnapshot :: "gotime \<Rightarrow> Store \<Rightarrow> Snapshot option" where
  "computeSnapshot now s =
     (case snapLoop now (st_checks s) (st_order s)
             \<lparr> sx_up = 0, sx_down = 0, sx_err = 0, sx_types = [], sx_checks = [], sx_groups = [] \<rparr> of
        None \<Rightarrow> None
      | Some a \<Rightarrow>
          (let pb = probeBudgets (st_budgetChecks s)
           in Some \<lparr> sn_service = st_service s, sn_origin = st_origin s,
                sn_overall = overall_of (sx_up a) (sx_down a),
                sn_summary = \<lparr> su_total = int (length (st_order s)), su_up = sx_up a,
                  su_down = sx_down a, su_error = sx_err a,
                  su_budget_total = int (length (st_budgetChecks s)),
                  su_budget_violations = int (length (filter (\<lambda>(k, bs). bs_violated bs) (st_budgetChecks s))) \<rparr>,
                sn_types = filter (\<lambda>t. t \<in> set (sx_types a)) typeOrder,
                sn_groups = map (\<lambda>(g, cs). \<lparr> cg_name = g, cg_checks = map (attach pb) cs \<rparr>) (sx_groups a),
                sn_checks = map (attach pb) (sx_checks a),
                sn_updated_at = now \<rparr>))"

text \<open>
  The method \<open>Snapshot\<close>, with the time of the request, the time at which the snapshot is computed and that at
  which it is cached.
\<close>

definition takeSnapshot :: "gotime \<Rightarrow> gotime \<Rightarrow> gotime \<Rightarrow> Store \<Rightarrow> (Snapshot \<times> Store) option" where
  "takeSnapshot t0 t1 t2 s =
     (case st_snapCache s of
        Some c \<Rightarrow>
          if time_sub t0 (st_snapTime s) < snapshotTTL then Some (c, s)
          else (case computeSnapshot t1 s of
                  None \<Rightarrow> None
                | Some c' \<Rightarrow> Some (c', s \<lparr> st_snapCache := Some c', st_snapTime := t2 \<rparr>))
      | None \<Rightarrow>
          (case computeSnapshot t1 s of
             None \<Rightarrow> None
           | Some c' \<Rightarrow> Some (c', s \<lparr> st_snapCache := Some c', st_snapTime := t2 \<rparr>)))"

section \<open>Invariant\<close>

definition ring_at :: "string \<Rightarrow> checkRing \<Rightarrow> bool" where
  "ring_at k ring \<longleftrightarrow> ring_ok ring \<and> k = checkKey (ri_typ ring) (ri_name ring)"

definition store_ok :: "Store \<Rightarrow> bool" where
  "store_ok s \<longleftrightarrow> gomap_ok (st_checks s) \<and> gomap_ok (st_budgetChecks s) \<and> distinct (st_order s)
     \<and> set (st_order s) = dom (map_of (st_checks s))
     \<and> (\<forall>k ring. map_of (st_checks s) k = Some ring \<longrightarrow> ring_at k ring)"

lemma updateRing_sel [simp]:
  "ri_name (updateRing r ring) = ri_name ring" "ri_typ (updateRing r ring) = ri_typ ring"
  "ri_group (updateRing r ring) = (if r_group r \<noteq> '''' then r_group r else ri_group ring)"
  "ri_target (updateRing r ring) = (if r_target r \<noteq> '''' then r_target r else ri_target ring)"
  "ri_downSince (updateRing r ring) =
     (if r_success r \<or> r_infra_error r then 0
      else if ri_downSince ring = 0 then r_timestamp r else ri_downSince ring)"
  by (simp_all add: updateRing_def push_def Let_def IsZero_def)

lemma ring_ok_cong:
  "ri_entries a = ri_entries b \<Longrightarrow> ri_head a = ri_head b \<Longrightarrow> ri_full a = ri_full b
   \<Longrightarrow> ring_ok a = ring_ok b \<and> ordered a = ordered b"
  by (simp add: ring_ok_def ordered_def)

lemma updateRing_push:
  assumes "ring_ok ring"
  shows "ring_ok (updateRing r ring)"
    and "ordered (updateRing r ring) = lastn maxHistory (ordered ring @ [entry_of r])"
proof -
  define r3 where "r3 = (let r1 = (if r_group r \<noteq> '''' then ring \<lparr> ri_group := r_group r \<rparr> else ring);
          r2 = (if r_target r \<noteq> '''' then r1 \<lparr> ri_target := r_target r \<rparr> else r1)
      in if r_success r \<or> r_infra_error r then r2 \<lparr> ri_downSince := 0 \<rparr>
                else if IsZero (ri_downSince r2) then r2 \<lparr> ri_downSince := r_timestamp r \<rparr>
                else r2)"
  have u: "updateRing r ring = push (entry_of r) r3"
    by (simp add: updateRing_def r3_def Let_def)
  have "ring_ok r3 = ring_ok ring \<and> ordered r3 = ordered ring"
    by (rule ring_ok_cong) (simp_all add: r3_def Let_def)
  with assms rh.ok_append [of r3] rh.items_append [of r3] u
  show "ring_ok (updateRing r ring)" "ordered (updateRing r ring) = lastn maxHistory (ordered ring @ [entry_of r])"
    by simp_all
qed

definition result_key :: "Result \<Rightarrow> string" where
  "result_key r = checkKey (r_type r) (r_name r)"

definition ring_or_new :: "Result \<Rightarrow> Store \<Rightarrow> checkRing" where
  "ring_or_new r s =
     (case map_of (st_checks s) (result_key r) of Some ring \<Rightarrow> ring
      | None \<Rightarrow> newRing (r_name r) (r_type r) (r_group r) (r_target r) [] 0)"

lemma Push_sel:
  "st_checks (Push r s) = AList.update (result_key r) (updateRing r (ring_or_new r s)) (st_checks s)"
  "st_order (Push r s) =
     (if result_key r \<in> dom (map_of (st_checks s)) then st_order s else st_order s @ [result_key r])"
  "st_budgetChecks (Push r s) = st_budgetChecks s" "st_snapCache (Push r s) = None"
  "st_history (Push r s) = map_option (\<lambda>rs. rs @ [r]) (st_history s)"
  "st_path (Push r s) = st_path s" "st_consecutiveWriteFail (Push r s) = st_consecutiveWriteFail s"
  by (auto simp: Push_def Let_def ring_or_new_def result_key_def invalidateCache_def split: option.split)

lemma Push_lookup:
  "map_of (st_checks (Push r s)) = (map_of (st_checks s))(result_key r \<mapsto> updateRing r (ring_or_new r s))"
  unfolding Push_sel by (rule gm.lookup_put)

lemma ring_or_new_at: "store_ok s \<Longrightarrow> ring_at (result_key r) (ring_or_new r s)"
  by (auto simp: ring_or_new_def store_ok_def ring_at_def newRing_ok result_key_def split: option.split)
     (simp add: newRing_def)

lemma Push_ok:
  assumes "store_ok s"
  shows "store_ok (Push r s)"
proof -
  have at: "ring_at (result_key r) (updateRing r (ring_or_new r s))"
    using ring_or_new_at [OF assms, of r] by (simp add: ring_at_def updateRing_push)
  have "gomap_ok (st_checks (Push r s))" unfolding Push_sel
    using assms gm.ok_put by (auto simp: store_ok_def)
  with at assms show ?thesis
    unfolding store_ok_def Push_lookup by (auto simp: Push_sel(2,3))
qed

lemma reconcileLoop_spec:
  "reconcileLoop active keys (kept, m) =
     (kept @ filter active keys, fold AList.delete (filter (\<lambda>k. \<not> active k) keys) m)"
  by (induction keys arbitrary: kept m) auto

lemma pruneBudgets_fold:
  "pruneBudgets active m =
     fold AList.delete (filter (\<lambda>k. case budgetKeyCheck k of None \<Rightarrow> False | Some n \<Rightarrow> \<not> active n) (gokeys m)) m"
proof -
  have "fold (\<lambda>key m. case budgetKeyCheck key of None \<Rightarrow> m
             | Some name \<Rightarrow> if \<not> active name then AList.delete key m else m) ks m =
     fold AList.delete (filter (\<lambda>k. case budgetKeyCheck k of None \<Rightarrow> False | Some n \<Rightarrow> \<not> active n) ks) m" for ks m
    by (induction ks arbitrary: m) (auto split: option.split)
  then show ?thesis by (simp add: pruneBudgets_def)
qed

definition configured :: "CheckConfig list \<Rightarrow> string \<Rightarrow> bool" where
  "configured checks k \<longleftrightarrow> (\<exists>c \<in> set checks. k = checkKey (c_type c) (c_name c))"

definition stale_budget :: "CheckConfig list \<Rightarrow> string \<Rightarrow> bool" where
  "stale_budget checks k \<longleftrightarrow>
     (case budgetKeyCheck k of None \<Rightarrow> False | Some n \<Rightarrow> n \<notin> c_name ` set checks)"

lemma Reconcile_sel:
  "st_order (Reconcile checks s) = filter (configured checks) (st_order s)"
  "st_checks (Reconcile checks s) = fold AList.delete (filter (\<lambda>k. \<not> configured checks k) (st_order s)) (st_checks s)"
  "st_budgetChecks (Reconcile checks s) =
     fold AList.delete (filter (stale_budget checks) (gokeys (st_budgetChecks s))) (st_budgetChecks s)"
  "st_snapCache (Reconcile checks s) = st_snapCache s"
proof -
  have c: "(\<lambda>k. k \<in> set (map (\<lambda>c. checkKey (c_type c) (c_name c)) checks)) = configured checks"
    by (auto simp: configured_def fun_eq_iff)
  have b: "(\<lambda>k. case budgetKeyCheck k of None \<Rightarrow> False | Some n \<Rightarrow> \<not> (n \<in> set (map c_name checks))) = stale_budget checks"
    by (auto simp: stale_budget_def fun_eq_iff split: option.split)
  show "st_order (Reconcile checks s) = filter (configured checks) (st_order s)"
    "st_checks (Reconcile checks s) = fold AList.delete (filter (\<lambda>k. \<not> configured checks k) (st_order s)) (st_checks s)"
    "st_budgetChecks (Reconcile checks s) =
       fold AList.delete (filter (stale_budget checks) (gokeys (st_budgetChecks s))) (st_budgetChecks s)"
    "st_snapCache (Reconcile checks s) = st_snapCache s"
    unfolding Reconcile_def Let_def c pruneBudgets_fold b reconcileLoop_spec by simp_all
qed

lemma Reconcile_ok:
  assumes "store_ok s"
  shows "store_ok (Reconcile checks s)"
  using assms
  by (auto simp: store_ok_def Reconcile_sel gm.lookup_del_all gm.ok_del_all domIff split: if_splits)

lemma RecordBudgetCheck_sel:
  "st_checks (snd (RecordBudgetCheck c m v s)) = st_checks s"
  "st_order (snd (RecordBudgetCheck c m v s)) = st_order s"
  "st_snapCache (snd (RecordBudgetCheck c m v s)) = None"
  by (simp_all add: RecordBudgetCheck_def Let_def invalidateCache_def)

lemma RecordBudgetCheck_ok:
  assumes "store_ok s"
  shows "store_ok (snd (RecordBudgetCheck c m v s))"
proof -
  have "gomap_ok (st_budgetChecks (snd (RecordBudgetCheck c m v s)))"
    using assms gm.ok_put by (auto simp: RecordBudgetCheck_def Let_def invalidateCache_def store_ok_def)
  with assms show ?thesis by (simp add: store_ok_def RecordBudgetCheck_sel)
qed

lemma emptyStore_ok: "store_ok (emptyStore service og path)"
  by (simp add: store_ok_def emptyStore_def)

text \<open>
  The store's invariant: every operation keeps the order list duplicate-free and in
  agreement with the map of rings, keeps each ring under the key of its type and name and within
  its capacity; a new store satisfies it.
\<close>

theorem store_invariant:
  "store_ok (emptyStore service og path)
   \<and> (store_ok s \<longrightarrow> store_ok (Push r s) \<and> store_ok (Reconcile checks s)
        \<and> store_ok (snd (RecordBudgetCheck c m v s)))"
  using emptyStore_ok Push_ok Reconcile_ok RecordBudgetCheck_ok by blast

theorem store_invariant_witness:
  "store_ok (Push zeroResult (emptyStore ''svc'' None ''''))"
  using store_invariant [of "''svc''" None "''''"]
    store_invariant [of "''svc''" None "''''" "emptyStore ''svc'' None ''''" zeroResult] by blast

section \<open>What the store remembers\<close>

definition history_of :: "string \<Rightarrow> Store \<Rightarrow> Entry list" where
  "history_of key s = (case map_of (st_checks s) key of None \<Rightarrow> [] | Some ring \<Rightarrow> ordered ring)"

definition since_of :: "string \<Rightarrow> Store \<Rightarrow> gotime" where
  "since_of key s = (case map_of (st_checks s) key of None \<Rightarrow> 0 | Some ring \<Rightarrow> ri_downSince ring)"

definition first_occ :: "'a list \<Rightarrow> 'a list" where
  "first_occ xs = rev (remdups (rev xs))"

lemma first_occ_snoc: "first_occ (xs @ [x]) = (if x \<in> set xs then first_occ xs else first_occ xs @ [x])"
  by (simp add: first_occ_def)

lemma first_occ_Nil [simp]: "first_occ [] = []"
  by (simp add: first_occ_def)

lemma set_first_occ [simp]: "set (first_occ xs) = set xs"
  by (simp add: first_occ_def)

lemma distinct_first_occ [simp]: "distinct (first_occ xs)"
  by (simp add: first_occ_def)

lemma pushes_ok: "store_ok s \<Longrightarrow> store_ok (fold Push rs s)"
  by (induction rs arbitrary: s) (auto intro: Push_ok)

lemma history_of_Push:
  assumes "store_ok s"
  shows "history_of key (Push r s) =
    (if result_key r = key then lastn maxHistory (history_of key s @ [entry_of r]) else history_of key s)"
proof -
  have "ring_ok (ring_or_new r s)" using ring_or_new_at [OF assms] by (simp add: ring_at_def)
  then have "ordered (updateRing r (ring_or_new r s)) = lastn maxHistory (ordered (ring_or_new r s) @ [entry_of r])"
    by (rule updateRing_push)
  moreover have "ordered (ring_or_new r s) = history_of (result_key r) s"
    by (auto simp: ring_or_new_def history_of_def split: option.split)
  ultimately show ?thesis by (auto simp: history_of_def Push_lookup)
qed

lemma history_of_bound: "store_ok s \<Longrightarrow> length (history_of key s) \<le> maxHistory"
  by (auto simp: history_of_def store_ok_def ring_at_def rh.items_bound split: option.split)

lemma history_of_pushes:
  assumes "store_ok s"
  shows "history_of key (fold Push rs s) =
    lastn maxHistory (history_of key s @ map entry_of (filter (\<lambda>r. result_key r = key) rs))"
proof (induction rs rule: rev_induct)
  case Nil
  then show ?case using history_of_bound [OF assms] by (simp add: lastn_id)
next
  case (snoc r rs)
  have ok: "store_ok (fold Push rs s)" using assms by (rule pushes_ok)
  let ?h = "history_of key s @ map entry_of (filter (\<lambda>r. result_key r = key) rs)"
  show ?case
    using snoc lastn_snoc [OF rh.cap_pos, of ?h "entry_of r"] by (simp add: history_of_Push [OF ok])
qed

lemma order_of_pushes:
  "st_order (fold Push rs (emptyStore service og path)) = first_occ (map result_key rs)
   \<and> dom (map_of (st_checks (fold Push rs (emptyStore service og path)))) = result_key ` set rs"
proof (induction rs rule: rev_induct)
  case Nil
  show ?case by (simp add: emptyStore_def)
next
  case (snoc r rs)
  let ?s = "fold Push rs (emptyStore service og path)"
  have "dom (map_of (st_checks (Push r ?s))) = insert (result_key r) (dom (map_of (st_checks ?s)))"
    by (simp add: Push_lookup)
  with snoc show ?case by (auto simp: Push_sel(2) first_occ_snoc simp del: dom_map_of_conv_image_fst)
qed

definition outage :: "Result \<Rightarrow> bool" where
  "outage r \<longleftrightarrow> \<not> r_success r \<and> \<not> r_infra_error r"

lemma since_of_Push:
  "since_of key (Push r s) =
     (if result_key r \<noteq> key then since_of key s
      else if \<not> outage r then 0
      else if since_of key s = 0 then r_timestamp r else since_of key s)"
  by (auto simp: since_of_def Push_lookup ring_or_new_def outage_def newRing_def split: option.split)

lemma since_of_pushes:
  assumes "\<forall>r \<in> set rs. r_timestamp r \<noteq> 0" "since_of key s = 0"
  shows "since_of key (fold Push rs s) =
    (let run = takeWhile outage (rev (filter (\<lambda>r. result_key r = key) rs))
     in if run = [] then 0 else r_timestamp (last run))"
  using assms(1)
proof (induction rs rule: rev_induct)
  case Nil
  show ?case by (simp add: assms(2))
next
  case (snoc r rs)
  let ?run = "takeWhile outage (rev (filter (\<lambda>r. result_key r = key) rs))"
  have "r_timestamp (last ?run) \<noteq> 0" if "?run \<noteq> []"
  proof -
    have "last ?run \<in> set ?run" using that by (rule last_in_set)
    then have "last ?run \<in> set rs" by (auto dest: set_takeWhileD)
    with snoc.prems show ?thesis by simp
  qed
  with snoc show ?case by (auto simp: since_of_Push Let_def)
qed

text \<open>
  Property C3. What the store holds after any sequence of results: the checks in the order of
  their first result, for each check the last 90 of its results in order, and as the start of the
  current outage the time of the first of its latest uninterrupted failures (none when the latest
  result is a success or an infrastructure error).
\<close>

theorem Push_refines:
  assumes "\<forall>r \<in> set rs. r_timestamp r \<noteq> 0"
  shows "st_order (fold Push rs (emptyStore service og path)) = first_occ (map result_key rs)
    \<and> history_of key (fold Push rs (emptyStore service og path)) =
        lastn 90 (map entry_of (filter (\<lambda>r. result_key r = key) rs))
    \<and> since_of key (fold Push rs (emptyStore service og path)) =
        (let run = takeWhile outage (rev (filter (\<lambda>r. result_key r = key) rs))
         in if run = [] then 0 else r_timestamp (last run))"
proof -
  have "history_of key (emptyStore service og path) = []" "since_of key (emptyStore service og path) = 0"
    by (simp_all add: history_of_def since_of_def emptyStore_def)
  with order_of_pushes [of rs service og path] since_of_pushes [OF assms, of key "emptyStore service og path"]
    history_of_pushes [OF emptyStore_ok, of key rs service og path]
  show ?thesis by (simp add: maxHistory_def)
qed

definition sample_results :: "Result list" where
  "sample_results = map (\<lambda>(t, ok). (NewResult t ''web'' ''http'' None) \<lparr> r_success := ok \<rparr>)
     [(1, True), (2, False), (3, False)]"

theorem Push_refines_witness:
  "since_of ''http:web'' (fold Push sample_results (emptyStore ''svc'' None '''')) = 2"
proof -
  have k: "filter (\<lambda>r. result_key r = ''http:web'') sample_results = sample_results"
    by (simp add: sample_results_def result_key_def checkKey_def)
  have "\<forall>r \<in> set sample_results. r_timestamp r \<noteq> 0" by (simp add: sample_results_def)
  from Push_refines [OF this, of "''svc''" None "''''" "''http:web''"] k show ?thesis
    by (simp add: sample_results_def outage_def)
qed

text \<open>
  Reconciliation keeps exactly the checks of the configuration, in order and with
  their rings untouched, and drops the budget states of check names that are no longer
  configured.
\<close>

theorem Reconcile_prunes:
  assumes "store_ok s"
  shows "st_order (Reconcile checks s) = filter (configured checks) (st_order s)
    \<and> map_of (st_checks (Reconcile checks s)) k =
        (if configured checks k then map_of (st_checks s) k else None)
    \<and> map_of (st_budgetChecks (Reconcile checks s)) k =
        (if stale_budget checks k then None else map_of (st_budgetChecks s) k)"
proof -
  have "map_of (st_checks s) k = None" if "k \<notin> set (st_order s)"
    using assms that by (auto simp: store_ok_def)
  moreover have "map_of (st_budgetChecks s) k = None" if "k \<notin> set (gokeys (st_budgetChecks s))"
    using that by (simp add: gm.set_keys domIff)
  ultimately show ?thesis
    by (auto simp: Reconcile_sel gm.lookup_del_all)
qed

theorem Reconcile_prunes_witness:
  "st_order (Reconcile [] (fold Push sample_results (emptyStore ''svc'' None ''''))) = []"
  using Reconcile_prunes [OF pushes_ok [OF emptyStore_ok], of "[]" sample_results "''svc''" None "''''"]
  by (simp add: configured_def)

section \<open>Budget streaks\<close>

type_synonym budget_call = "string \<times> string \<times> bool"

definition record_budget :: "budget_call \<Rightarrow> Store \<Rightarrow> Store" where
  "record_budget b s = (case b of (c, m, v) \<Rightarrow> snd (RecordBudgetCheck c m v s))"

definition call_key :: "budget_call \<Rightarrow> string" where
  "call_key b = (case b of (c, m, v) \<Rightarrow> budgetKey c m)"

definition violates :: "budget_call \<Rightarrow> bool" where
  "violates b = (case b of (c, m, v) \<Rightarrow> v)"

definition run_length :: "string \<Rightarrow> Store \<Rightarrow> int" where
  "run_length key s =
     bs_consecutive (get_or \<lparr> bs_violated = False, bs_consecutive = 0 \<rparr> (map_of (st_budgetChecks s)) key)"

lemma record_budget_lookup:
  "map_of (st_budgetChecks (snd (RecordBudgetCheck c m v s))) =
     (map_of (st_budgetChecks s))(budgetKey c m \<mapsto>
       (if v then \<lparr> bs_violated = True, bs_consecutive = run_length (budgetKey c m) s + 1 \<rparr>
        else \<lparr> bs_violated = False, bs_consecutive = 0 \<rparr>))"
  by (simp add: RecordBudgetCheck_def Let_def invalidateCache_def gm.lookup_put run_length_def)

interpretation bv: streak record_budget "\<lambda>b. call_key b = key" violates "run_length key" "\<lambda>s. True" for key
  by unfold_locales
     (auto simp: record_budget_def call_key_def violates_def run_length_def [of key] record_budget_lookup
       split: prod.splits, simp add: run_length_def)

lemma RecordBudgetCheck_fst:
  "fst (RecordBudgetCheck c m v s) \<longleftrightarrow> v \<and> run_length (budgetKey c m) s = 2"
  by (simp add: RecordBudgetCheck_def Let_def run_length_def BudgetFailThreshold_def)

text \<open>
  Budget escalation: \<open>RecordBudgetCheck\<close> signals exactly with the third violation
  in a row of the same check and metric, whatever calls for others happen in between; the state
  shown is \<open>fail\<close> from the third violation in a row on, \<open>warn\<close> for the first two, and
  \<open>pass\<close> after a call without violation.
\<close>

theorem RecordBudgetCheck_third:
  "fst (RecordBudgetCheck c m v (fold record_budget bs (emptyStore service og path))) \<longleftrightarrow>
     trailing violates (filter (\<lambda>b. call_key b = budgetKey c m) bs @ [(c, m, v)]) = 3
   \<and> map_option budgetSeverity
       (map_of (st_budgetChecks (snd (RecordBudgetCheck c m v (fold record_budget bs (emptyStore service og path)))))
         (budgetKey c m)) =
     Some (let n = trailing violates (filter (\<lambda>b. call_key b = budgetKey c m) bs @ [(c, m, v)])
           in if 3 \<le> n then ''fail'' else if 0 < n then ''warn'' else ''pass'')"
proof -
  have "run_length key (emptyStore service og path) = 0" for key
    by (simp add: run_length_def emptyStore_def)
  from bv.count_run_zero [OF TrueI this, of "budgetKey c m" bs]
  show ?thesis
    by (auto simp: RecordBudgetCheck_fst record_budget_lookup violates_def budgetSeverity_def
        BudgetFailThreshold_def Let_def)
qed

section \<open>Snapshots\<close>

definition rings_of :: "Store \<Rightarrow> checkRing list" where
  "rings_of s = map (\<lambda>k. the (map_of (st_checks s) k)) (st_order s)"

lemma snapLoop_rings:
  "set keys \<subseteq> dom (map_of checks) \<Longrightarrow>
   snapLoop now checks keys a = Some (fold (snapStep now) (map (\<lambda>k. the (map_of checks k)) keys) a)"
  by (induction keys arbitrary: a) (auto split: option.splits)

lemma AList_update_graph:
  "distinct gs \<Longrightarrow> AList.update k v (map (\<lambda>g. (g, f g)) gs) =
     map (\<lambda>g. (g, (f(k := v)) g)) (if k \<in> set gs then gs else gs @ [k])"
  by (induction gs) auto

definition grouped :: "('a \<Rightarrow> 'g) \<Rightarrow> ('a \<Rightarrow> 'b) \<Rightarrow> 'a list \<Rightarrow> ('g, 'b list) gomap" where
  "grouped g f xs = map (\<lambda>k. (k, map f (filter (\<lambda>x. g x = k) xs))) (first_occ (map g xs))"

lemma grouped_lookup:
  "get_or [] (map_of (grouped g f xs)) k = map f (filter (\<lambda>x. g x = k) xs)"
proof (cases "k \<in> g ` set xs")
  case True
  then show ?thesis
    by (simp add: grouped_def get_or_def map_of_map_restrict restrict_map_def)
next
  case False
  then have "filter (\<lambda>x. g x = k) xs = []" by (auto simp: filter_empty_conv)
  with False show ?thesis
    by (simp add: grouped_def get_or_def map_of_map_restrict restrict_map_def)
qed

lemma grouped_snoc:
  "grouped g f (xs @ [x]) = AList.update (g x) (get_or [] (map_of (grouped g f xs)) (g x) @ [f x]) (grouped g f xs)"
  unfolding grouped_lookup
  by (subst grouped_def [of g f xs], subst AList_update_graph) (auto simp: grouped_def first_occ_snoc)

lemma concat_grouped: "mset (concat (map snd (grouped g f xs))) = mset (map f xs)"
proof -
  have "mset (concat (map (\<lambda>k. map f (filter (\<lambda>x. g x = k) xs)) ks)) =
      mset (map f (filter (\<lambda>x. g x \<in> set ks) xs))" if "distinct ks" for ks
    using that
  proof (induction ks)
    case (Cons k ks)
    have "mset (filter (\<lambda>x. g x \<in> set (k # ks)) xs) =
        mset (filter (\<lambda>x. g x = k) xs) + mset (filter (\<lambda>x. g x \<in> set ks) xs)"
      using Cons.prems by (induction xs) auto
    with Cons show ?case by (simp add: mset_map [symmetric] del: mset_map) (simp add: mset_map)
  qed simp
  from this [of "first_occ (map g xs)"] show ?thesis by (simp add: grouped_def comp_def)
qed

definition status_of :: "Entry list \<Rightarrow> string" where
  "status_of es =
     (if es = [] then ''pending'' else if e_success (last es) then ''up''
      else if e_infra_error (last es) then ''error'' else ''down'')"

lemma checkState_of_sel:
  "cs_status (checkState_of now ring) = status_of (ordered ring)"
  "cs_history (checkState_of now ring) = ordered ring"
  "cs_name (checkState_of now ring) = ri_name ring" "cs_type (checkState_of now ring) = ri_typ ring"
  "cs_latest (checkState_of now ring) = (if ordered ring = [] then None else Some (last (ordered ring)))"
  "cs_uptime (checkState_of now ring) = uptimePercent (ordered ring)"
  "cs_budget_checks (checkState_of now ring) = []"
  by (auto simp: checkState_of_def Let_def status_of_def last_conv_nth)

lemma attach_sel [simp]:
  "cs_status (attach pb ps) = cs_status ps" "cs_history (attach pb ps) = cs_history ps"
  "cs_name (attach pb ps) = cs_name ps" "cs_type (attach pb ps) = cs_type ps"
  by (simp_all add: attach_def split: option.split)

abbreviation snap_zero :: snap_acc where
  "snap_zero \<equiv> \<lparr> sx_up = 0, sx_down = 0, sx_err = 0, sx_types = [], sx_checks = [], sx_groups = [] \<rparr>"

definition with_status :: "string \<Rightarrow> checkRing list \<Rightarrow> int" where
  "with_status st rings = int (length (filter (\<lambda>r. status_of (ordered r) = st) rings))"

lemma snapStep_fold:
  "fold (snapStep now) rings snap_zero =
     \<lparr> sx_up = with_status ''up'' rings, sx_down = with_status ''down'' rings,
       sx_err = with_status ''error'' rings, sx_types = rev (map ri_typ rings),
       sx_checks = map (checkState_of now) rings,
       sx_groups = grouped ri_group (checkState_of now) rings \<rparr>"
proof (induction rings rule: rev_induct)
  case (snoc r rings)
  then show ?case
    by (simp add: snapStep_def Let_def checkState_of_sel with_status_def grouped_snoc)
qed (simp add: with_status_def grouped_def)

lemma computeSnapshot_rings:
  assumes "store_ok s"
  defines "pb \<equiv> probeBudgets (st_budgetChecks s)"
  shows "computeSnapshot now s = Some \<lparr> sn_service = st_service s, sn_origin = st_origin s,
    sn_overall = overall_of (with_status ''up'' (rings_of s)) (with_status ''down'' (rings_of s)),
    sn_summary = \<lparr> su_total = int (length (st_order s)), su_up = with_status ''up'' (rings_of s),
      su_down = with_status ''down'' (rings_of s), su_error = with_status ''error'' (rings_of s),
      su_budget_total = int (length (st_budgetChecks s)),
      su_budget_violations = int (length (filter (\<lambda>(k, bs). bs_violated bs) (st_budgetChecks s))) \<rparr>,
    sn_types = filter (\<lambda>t. t \<in> ri_typ ` set (rings_of s)) typeOrder,
    sn_groups = map (\<lambda>(g, cs). \<lparr> cg_name = g, cg_checks = map (attach pb) cs \<rparr>)
      (grouped ri_group (checkState_of now) (rings_of s)),
    sn_checks = map (\<lambda>r. attach pb (checkState_of now r)) (rings_of s), sn_updated_at = now \<rparr>"
proof -
  have "set (st_order s) \<subseteq> dom (map_of (st_checks s))" using assms(1) by (auto simp: store_ok_def)
  from snapLoop_rings [OF this, of now snap_zero] show ?thesis
    by (simp add: computeSnapshot_def snapStep_fold rings_of_def [symmetric] Let_def pb_def)
qed

lemma rings_history:
  assumes "store_ok s"
  shows "map ordered (rings_of s) = map (\<lambda>k. history_of k s) (st_order s)"
  using assms by (auto simp: rings_of_def history_of_def store_ok_def dest!: equalityD1 split: option.split)

lemma with_status_history:
  assumes "store_ok s"
  shows "with_status st (rings_of s) = int (length (filter (\<lambda>k. status_of (history_of k s) = st) (st_order s)))"
proof -
  have "filter (\<lambda>es. status_of es = st) (map ordered (rings_of s)) =
      filter (\<lambda>es. status_of es = st) (map (\<lambda>k. history_of k s) (st_order s))"
    by (simp only: rings_history [OF assms])
  then show ?thesis
    unfolding with_status_def filter_map comp_def by (metis length_map)
qed

lemma status_sum:
  "length ks = length (filter (\<lambda>k. status_of (h k) = ''up'') ks) + length (filter (\<lambda>k. status_of (h k) = ''down'') ks)
     + length (filter (\<lambda>k. status_of (h k) = ''error'') ks) + length (filter (\<lambda>k. status_of (h k) = ''pending'') ks)"
  by (induction ks) (auto simp: status_of_def)

lemma overall_of_iff:
  assumes "0 \<le> u" "0 \<le> d"
  shows "overall_of u d = ''operational'' \<longleftrightarrow> u > 0 \<and> d = 0"
    "overall_of u d = ''down'' \<longleftrightarrow> d > 0 \<and> u = 0"
    "overall_of u d = ''degraded'' \<longleftrightarrow> d > 0 \<and> u > 0"
    "overall_of u d = ''pending'' \<longleftrightarrow> d = 0 \<and> u = 0"
  using assms by (auto simp: overall_of_def)

text \<open>
  Property C16. The snapshot: on a store that satisfies the invariant it exists and lists every
  check in the order of the store with its recent history and the status of its latest entry; the
  summary counts the statuses, which together with the pending checks add up to the total; overall
  is operational when some check is up and none down, down when some is down and none up, degraded
  when there are both, else pending.
\<close>

theorem computeSnapshot_spec:
  assumes "store_ok s"
  shows "\<exists>snap. computeSnapshot now s = Some snap
    \<and> map cs_history (sn_checks snap) = map (\<lambda>k. history_of k s) (st_order s)
    \<and> map cs_status (sn_checks snap) = map (\<lambda>k. status_of (history_of k s)) (st_order s)
    \<and> (let n = (\<lambda>st. int (length (filter (\<lambda>k. status_of (history_of k s) = st) (st_order s))))
       in su_up (sn_summary snap) = n ''up'' \<and> su_down (sn_summary snap) = n ''down''
          \<and> su_error (sn_summary snap) = n ''error''
          \<and> su_total (sn_summary snap) = n ''up'' + n ''down'' + n ''error'' + n ''pending''
          \<and> (sn_overall snap = ''operational'' \<longleftrightarrow> n ''up'' > 0 \<and> n ''down'' = 0)
          \<and> (sn_overall snap = ''down'' \<longleftrightarrow> n ''down'' > 0 \<and> n ''up'' = 0)
          \<and> (sn_overall snap = ''degraded'' \<longleftrightarrow> n ''down'' > 0 \<and> n ''up'' > 0)
          \<and> (sn_overall snap = ''pending'' \<longleftrightarrow> n ''down'' = 0 \<and> n ''up'' = 0))"
proof -
  have st: "map (\<lambda>r. status_of (ordered r)) (rings_of s) = map (\<lambda>k. status_of (history_of k s)) (st_order s)"
    using arg_cong [OF rings_history [OF assms], of "map status_of"] by (simp add: comp_def)
  define n where "n = (\<lambda>st. int (length (filter (\<lambda>k. status_of (history_of k s) = st) (st_order s))))"
  have ws: "with_status st (rings_of s) = n st" for st
    unfolding n_def by (rule with_status_history [OF assms])
  have pos: "0 \<le> n st" for st by (simp add: n_def)
  have tot: "int (length (st_order s)) = n ''up'' + n ''down'' + n ''error'' + n ''pending''"
    unfolding n_def of_nat_add [symmetric] by (rule arg_cong [OF status_sum])
  show ?thesis
    unfolding computeSnapshot_rings [OF assms] ws n_def [symmetric] Let_def
    by (rule exI, rule conjI [OF refl], unfold Snapshot.simps Summary.simps map_map comp_def
        attach_sel checkState_of_sel, intro conjI rings_history [OF assms] st refl tot
        overall_of_iff pos)
qed

theorem computeSnapshot_spec_witness:
  "\<exists>snap. computeSnapshot 9 (fold Push sample_results (emptyStore ''svc'' None '''')) = Some snap
     \<and> length (sn_checks snap) = 1"
proof -
  let ?s = "fold Push sample_results (emptyStore ''svc'' None '''')"
  have "length (st_order ?s) = 1"
    using order_of_pushes [of sample_results "''svc''" None "''''"]
    by (simp add: sample_results_def result_key_def checkKey_def first_occ_def)
  moreover from computeSnapshot_spec [OF pushes_ok [OF emptyStore_ok], of 9 sample_results "''svc''" None "''''"]
  obtain snap where "computeSnapshot 9 ?s = Some snap"
    "map cs_status (sn_checks snap) = map (\<lambda>k. status_of (history_of k ?s)) (st_order ?s)" by blast
  ultimately show ?thesis by (metis length_map)
qed

text \<open>
  The groups of a snapshot are a partition of its checks: their names are distinct
  and in the order of first appearance, none is empty, every check is in exactly one, and within a
  group the order of the store is kept.
\<close>

theorem snapshot_groups_partition:
  assumes "store_ok s" and "computeSnapshot now s = Some snap"
  shows "map cg_name (sn_groups snap) = first_occ (map ri_group (rings_of s))
    \<and> distinct (map cg_name (sn_groups snap))
    \<and> (\<forall>g \<in> set (sn_groups snap). cg_checks g \<noteq> [] \<and> subseq (cg_checks g) (sn_checks snap))
    \<and> mset (concat (map cg_checks (sn_groups snap))) = mset (sn_checks snap)"
proof -
  let ?pb = "probeBudgets (st_budgetChecks s)" and ?rs = "rings_of s"
  let ?f = "\<lambda>r. attach ?pb (checkState_of now r)"
  have g: "sn_groups snap = map (\<lambda>(g, cs). \<lparr> cg_name = g, cg_checks = cs \<rparr>) (grouped ri_group ?f ?rs)"
    using assms(2) unfolding computeSnapshot_rings [OF assms(1)] by (auto simp: grouped_def comp_def)
  have c: "sn_checks snap = map ?f ?rs"
    using assms(2) unfolding computeSnapshot_rings [OF assms(1)] by auto
  have "cg_checks x \<noteq> [] \<and> subseq (cg_checks x) (sn_checks snap)" if "x \<in> set (sn_groups snap)" for x
    using that unfolding g c
    by (auto simp: grouped_def filter_empty_conv intro!: subseq_map subseq_filter_left)
  moreover have "map cg_checks (sn_groups snap) = map snd (grouped ri_group ?f ?rs)"
    by (simp add: g comp_def case_prod_beta)
  ultimately show ?thesis
    using concat_grouped [of ri_group ?f ?rs] by (simp add: g c grouped_def comp_def)
qed

theorem snapshot_groups_partition_witness:
  "\<exists>snap. computeSnapshot 9 (fold Push sample_results (emptyStore ''svc'' None '''')) = Some snap
     \<and> mset (concat (map cg_checks (sn_groups snap))) = mset (sn_checks snap)"
proof -
  let ?s = "fold Push sample_results (emptyStore ''svc'' None '''')"
  have ok: "store_ok ?s" by (rule pushes_ok [OF emptyStore_ok])
  then obtain snap where snap: "computeSnapshot 9 ?s = Some snap" by (simp add: computeSnapshot_rings)
  from snapshot_groups_partition [OF ok snap] snap show ?thesis by blast
qed

subsection \<open>Budgets in a snapshot\<close>

definition shown_budget :: "string \<times> budgetState \<Rightarrow> BudgetCheck" where
  "shown_budget b = \<lparr> bc_metric = drop (length (the (budgetKeyCheck (fst b))) + 1) (fst b),
     bc_severity = budgetSeverity (snd b) \<rparr>"

lemma probeLoop_grouped:
  "probeLoop kvs (grouped (\<lambda>b. the (budgetKeyCheck (fst b))) shown_budget xs) =
     grouped (\<lambda>b. the (budgetKeyCheck (fst b))) shown_budget
       (xs @ filter (\<lambda>b. budgetKeyCheck (fst b) \<noteq> None) kvs)"
proof (induction kvs arbitrary: xs)
  case (Cons kv kvs)
  obtain k bs where kv: "kv = (k, bs)" by (cases kv)
  show ?case
  proof (cases "budgetKeyCheck k")
    case None
    with kv Cons show ?thesis by simp
  next
    case (Some name)
    let ?g = "\<lambda>b :: string \<times> budgetState. the (budgetKeyCheck (fst b))"
    have "probeLoop (kv # kvs) (grouped ?g shown_budget xs) =
        probeLoop kvs (grouped ?g shown_budget (xs @ [kv]))"
      unfolding grouped_snoc using kv Some by (simp add: shown_budget_def)
    with Cons [of "xs @ [kv]"] kv Some show ?thesis by simp
  qed
qed simp

lemma probeBudgets_lookup:
  "get_or [] (map_of (probeBudgets bcs)) name =
     sort_key bc_metric (map shown_budget (filter (\<lambda>b. budgetKeyCheck (fst b) = Some name) bcs))"
proof -
  let ?g = "\<lambda>b :: string \<times> budgetState. the (budgetKeyCheck (fst b))"
  have p: "probeLoop bcs [] = grouped ?g shown_budget (filter (\<lambda>b. budgetKeyCheck (fst b) \<noteq> None) bcs)"
    using probeLoop_grouped [of bcs "[]"] by (simp add: grouped_def)
  have "get_or [] (map_of (map (\<lambda>(k, l). (k, sort_key bc_metric l)) m)) name =
      sort_key bc_metric (get_or [] (map_of m) name)" for m :: "(string, BudgetCheck list) gomap"
    by (simp add: get_or_def map_of_map split: option.split)
  moreover have "filter (\<lambda>b. ?g b = name) (filter (\<lambda>b. budgetKeyCheck (fst b) \<noteq> None) bcs) =
      filter (\<lambda>b. budgetKeyCheck (fst b) = Some name) bcs"
    by (induction bcs) auto
  ultimately show ?thesis by (simp add: probeBudgets_def p grouped_lookup)
qed

lemma budgetKeyCheck_key: "CHR '':'' \<notin> set metric \<Longrightarrow> budgetKeyCheck (budgetKey chk metric) = Some chk"
  by (simp add: budgetKeyCheck_def budgetKey_def LastIndex_append)

text \<open>
  The budgets shown with a check: those recorded under its name, sorted by metric,
  each with its metric and its severity; a metric name without a colon is recovered exactly.
\<close>

theorem snapshot_budgets:
  assumes "store_ok s" and "computeSnapshot now s = Some snap"
  shows "(\<forall>cs \<in> set (sn_checks snap). cs_budget_checks cs =
      sort_key bc_metric (map shown_budget
        (filter (\<lambda>b. budgetKeyCheck (fst b) = Some (cs_name cs)) (st_budgetChecks s))))
    \<and> (\<forall>metric. CHR '':'' \<notin> set metric \<longrightarrow>
        shown_budget (budgetKey chk metric, bs) = \<lparr> bc_metric = metric, bc_severity = budgetSeverity bs \<rparr>)"
proof -
  let ?pb = "probeBudgets (st_budgetChecks s)"
  have "cs_budget_checks (attach ?pb (checkState_of now r)) = get_or [] (map_of ?pb) (ri_name r)" for r
    by (simp add: attach_def checkState_of_sel get_or_def split: option.split)
  moreover have "sn_checks snap = map (\<lambda>r. attach ?pb (checkState_of now r)) (rings_of s)"
    using assms(2) unfolding computeSnapshot_rings [OF assms(1)] by auto
  moreover have "shown_budget (budgetKey chk metric, bs) = \<lparr> bc_metric = metric, bc_severity = budgetSeverity bs \<rparr>"
    if "CHR '':'' \<notin> set metric" for metric
    using budgetKeyCheck_key [OF that, of chk] by (simp add: shown_budget_def) (simp add: budgetKey_def)
  ultimately show ?thesis by (auto simp: probeBudgets_lookup checkState_of_sel)
qed

theorem snapshot_budgets_witness:
  "\<exists>snap. computeSnapshot 9 (snd (RecordBudgetCheck ''web'' ''lcp'' True
       (fold Push sample_results (emptyStore ''svc'' None '''')))) = Some snap
     \<and> shown_budget (budgetKey ''web'' ''lcp'', \<lparr> bs_violated = True, bs_consecutive = 1 \<rparr>)
        = \<lparr> bc_metric = ''lcp'', bc_severity = ''warn'' \<rparr>"
proof -
  let ?s = "snd (RecordBudgetCheck ''web'' ''lcp'' True (fold Push sample_results (emptyStore ''svc'' None '''')))"
  have ok: "store_ok ?s" by (rule RecordBudgetCheck_ok [OF pushes_ok [OF emptyStore_ok]])
  then obtain snap where snap: "computeSnapshot 9 ?s = Some snap" by (simp add: computeSnapshot_rings)
  from snapshot_budgets [OF ok snap, where chk = "''web''" and bs = "\<lparr> bs_violated = True, bs_consecutive = 1 \<rparr>"] snap
  show ?thesis by (simp add: budgetSeverity_def BudgetFailThreshold_def)
qed

subsection \<open>The cache\<close>

datatype store_op =
    PushOp Result
  | BudgetOp string string bool
  | SnapshotOp gotime gotime gotime

fun store_step :: "store_op \<Rightarrow> Store \<Rightarrow> Store" where
  "store_step (PushOp r) s = Push r s"
| "store_step (BudgetOp c m v) s = snd (RecordBudgetCheck c m v s)"
| "store_step (SnapshotOp t0 t1 t2) s = (case takeSnapshot t0 t1 t2 s of None \<Rightarrow> s | Some (_, s') \<Rightarrow> s')"

definition cache_ok :: "Store \<Rightarrow> bool" where
  "cache_ok s \<longleftrightarrow> (\<forall>c. st_snapCache s = Some c \<longrightarrow> (\<exists>t. computeSnapshot t s = Some c))"

lemma computeSnapshot_cache [simp]:
  "computeSnapshot t (s \<lparr> st_snapCache := c, st_snapTime := u \<rparr>) = computeSnapshot t s"
  by (simp add: computeSnapshot_def split: option.split)

lemma takeSnapshot_current:
  assumes "store_ok s" "cache_ok s"
  shows "\<exists>snap s'. takeSnapshot t0 t1 t2 s = Some (snap, s') \<and> (\<exists>t. computeSnapshot t s = Some snap)
    \<and> store_ok s' \<and> cache_ok s'"
proof -
  obtain snap where c: "computeSnapshot t1 s = Some snap" using computeSnapshot_rings [OF assms(1)] by simp
  have s': "store_ok (s \<lparr> st_snapCache := Some snap, st_snapTime := t2 \<rparr>)"
    "cache_ok (s \<lparr> st_snapCache := Some snap, st_snapTime := t2 \<rparr>)"
    using assms(1) c by (auto simp: store_ok_def cache_ok_def)
  show ?thesis
    using assms c s' by (cases "st_snapCache s") (auto simp: takeSnapshot_def cache_ok_def)
qed

lemma store_step_inv:
  assumes "store_ok s" "cache_ok s"
  shows "store_ok (store_step op s) \<and> cache_ok (store_step op s)"
proof (cases op)
  case (PushOp r)
  with assms show ?thesis by (simp add: Push_ok cache_ok_def Push_sel)
next
  case (BudgetOp c m v)
  with assms show ?thesis by (simp add: RecordBudgetCheck_ok cache_ok_def RecordBudgetCheck_sel)
next
  case (SnapshotOp t0 t1 t2)
  with takeSnapshot_current [OF assms, of t0 t1 t2] show ?thesis by auto
qed

lemma store_run_inv: "store_ok s \<and> cache_ok s \<Longrightarrow> store_ok (fold store_step ops s) \<and> cache_ok (fold store_step ops s)"
  by (induction ops arbitrary: s) (auto simp: store_step_inv)

text \<open>
  The snapshot cache never hides a result: after any sequence of pushes, budget
  records and snapshot requests at any times, a request returns a snapshot of the current contents
  of the store, cached or not (only its time may be older).
\<close>

theorem snapshot_current:
  "\<exists>snap s' t. takeSnapshot t0 t1 t2 (fold store_step ops (emptyStore service og path)) = Some (snap, s')
     \<and> computeSnapshot t (fold store_step ops (emptyStore service og path)) = Some snap"
proof -
  have "store_ok (emptyStore service og path) \<and> cache_ok (emptyStore service og path)"
    using emptyStore_ok by (simp add: cache_ok_def emptyStore_def)
  from store_run_inv [OF this, of ops] takeSnapshot_current show ?thesis by blast
qed

end
