(* ===== verification/Status_Page.thy ===== *)
theory Status_Page
  imports Status_Store
begin

text \<open>
  The status page, \<open>internal/status/handler.go\<close>: the functions the template calls and the two
  HTTP handlers. The template itself, the JSON encoder and SHA-256 are arguments: \<open>render\<close> gives
  the page of a snapshot, \<open>encode\<close> its JSON and \<open>digest\<close> the hexadecimal digits of the tag.
\<close>

section \<open>Categories\<close>

record DomainGroup =
  dg_domain :: string
  dg_checks :: "CheckState list"

record CategoryInfo =
  ci_name :: string
  ci_status :: string
  ci_count :: int

definition categoryForCheckType :: "check_type \<Rightarrow> string" where
  "categoryForCheckType t =
     (if t \<in> {CheckTypeICMP, CheckTypeTCP, CheckTypeUDP, CheckTypeDNS, CheckTypeTraceroute} then ''Network''
      else if t \<in> {CheckTypeHTTP, CheckTypePlaywright} then ''Web''
      else if t \<in> {CheckTypeGRPC, CheckTypeSMTP, CheckTypeNTP, CheckTypeWebSocket} then ''Services''
      else if t \<in> {CheckTypeTLS, CheckTypeBGP, CheckTypeDomainExpiry} then ''Security''
      else ''Other'')"

section \<open>Template functions\<close>

text \<open>\<open>math.Round\<close>: halves away from zero.\<close>

definition math_round :: "float64 \<Rightarrow> int" where
  "math_round x = (if x < 0 then - \<lfloor>- x + 1 / 2\<rfloor> else \<lfloor>x + 1 / 2\<rfloor>)"

definition fmtMs :: "float64 \<Rightarrow> string" where
  "fmtMs ms = (if ms < 1000 then itoa (math_round ms) @ ''ms'' else fmt_fixed 2 (ms / 1000) @ ''s'')"

definition relTime :: "gotime \<Rightarrow> gotime \<Rightarrow> string" where
  "relTime now t =
     (let d = seconds (time_sub now t)
      in if d < 60 then itoa (truncate_float d) @ ''s ago''
         else if d < 3600 then itoa (truncate_float (d / 60)) @ ''m ago''
         else if d < 86400 then itoa (truncate_float (d / 3600)) @ ''h ago''
         else itoa (truncate_float (d / 86400)) @ ''d ago'')"

definition barHeight :: "float64 \<Rightarrow> float64 \<Rightarrow> int" where
  "barHeight ms maxMs =
     (if maxMs \<le> 0 then 4
      else (let h = truncate_float (ms / maxMs * 32) in if h < 4 then 4 else h))"

fun maxLoop :: "float64 \<Rightarrow> Entry list \<Rightarrow> float64" where
  "maxLoop m [] = m"
| "maxLoop m (e # es) = maxLoop (if e_duration_ms e > m then e_duration_ms e else m) es"

definition maxDuration :: "Entry list \<Rightarrow> float64" where
  "maxDuration es = (let m = maxLoop 0 es in if m \<le> 0 then 1 else m)"

definition checkCount :: "CheckState list \<Rightarrow> int" where
  "checkCount cs = int (length cs)"

fun hasViolation :: "BudgetCheck list \<Rightarrow> bool" where
  "hasViolation [] = False"
| "hasViolation (c # cs) = (if bc_severity c \<noteq> ''pass'' then True else hasViolation cs)"

fun countLoop :: "int \<times> int \<Rightarrow> CheckState list \<Rightarrow> int \<times> int" where
  "countLoop (dn, er) [] = (dn, er)"
| "countLoop (dn, er) (p # ps) =
     (if cs_status p = ''down'' then countLoop (dn + 1, er) ps
      else if cs_status p = ''error'' then countLoop (dn, er + 1) ps
      else countLoop (dn, er) ps)"

definition groupStatus :: "CheckState list \<Rightarrow> string" where
  "groupStatus checks =
     (case countLoop (0, 0) checks of
        (dn, er) \<Rightarrow>
          if dn = 0 \<and> er = 0 then ''up''
          else if dn = 0 \<and> er > 0 then ''error''
          else if dn = int (length checks) then ''down''
          else ''degraded'')"

definition domainStatus :: "CheckState list \<Rightarrow> string" where
  "domainStatus checks =
     (case countLoop (0, 0) checks of
        (dn, er) \<Rightarrow>
          if dn > 0 then (if dn = int (length checks) then ''down'' else ''degraded'')
          else if er > 0 then ''error'' else ''up'')"

definition dot :: string where
  "dot = [CHR '' '', CHR 0xC2, CHR 0xB7, CHR '' '']"

definition barTip :: "Entry \<Rightarrow> string" where
  "barTip e =
     (let s = (e_timestamp e mod (24 * Hour)) div Second
      in padded 2 (itoa (s div 3600)) @ '':'' @ padded 2 (itoa (s mod 3600 div 60)) @ '' UTC'')
     @ dot @ itoa (math_round (e_duration_ms e)) @ ''ms''
     @ (if e_status_code e > 0 then dot @ itoa (e_status_code e) else '''')
     @ (if e_dns_ms e > 0 then dot @ ''dns '' @ itoa (math_round (e_dns_ms e)) @ ''ms'' else '''')
     @ (if e_tls_ms e > 0 then dot @ ''tls '' @ itoa (math_round (e_tls_ms e)) @ ''ms'' else '''')
     @ (if e_ttfb_ms e > 0 then dot @ ''ttfb '' @ itoa (math_round (e_ttfb_ms e)) @ ''ms'' else '''')
     @ (if e_ntp_offset_ms e \<noteq> 0 then dot @ ''offset '' @ fmt_fixed 1 (e_ntp_offset_ms e) @ ''ms'' else '''')
     @ (if e_cert_days_remaining e \<noteq> 0 \<or> e_cert_valid e
        then dot @ ''cert '' @ itoa (e_cert_days_remaining e) @ ''d''
             @ (if \<not> e_cert_valid e then '' (invalid)'' else '''')
        else '''')
     @ (if e_icmp_packet_loss e > 0
        then dot @ ''loss '' @ utoa (nat (round_half_even (e_icmp_packet_loss e))) @ ''%'' else '''')
     @ (if e_grpc_status e \<noteq> '''' then dot @ e_grpc_status e else '''')
     @ (if e_error e \<noteq> '''' then dot @ e_error e else '''')"

definition month_names :: "string list" where
  "month_names = [''Jan'', ''Feb'', ''Mar'', ''Apr'', ''May'', ''Jun'', ''Jul'', ''Aug'', ''Sep'', ''Oct'', ''Nov'', ''Dec'']"

definition fmtDate :: "gotime \<Rightarrow> string" where
  "fmtDate t =
     (if IsZero t then ''''
      else (case civil (t div (24 * Hour)) of
              (y, m, d) \<Rightarrow> itoa d @ '' '' @ month_names ! nat (m - 1) @ '' '' @ padded 4 (itoa y)))"

definition certExpiryClass :: "int \<Rightarrow> string" where
  "certExpiryClass days = (if days \<le> 7 then ''bad'' else if days \<le> 30 then ''warn'' else ''good'')"

definition isoTime :: "gotime \<Rightarrow> string" where
  "isoTime t = FormatRFC3339 t"

definition domainKey :: "CheckState \<Rightarrow> string" where
  "domainKey p = (if cs_domain p = '''' then cs_name p else cs_domain p)"

definition groupByDomain :: "CheckState list \<Rightarrow> DomainGroup list" where
  "groupByDomain checks =
     map (\<lambda>(k, ps). \<lparr> dg_domain = k, dg_checks = ps \<rparr>)
       (fold (\<lambda>p m. AList.update (domainKey p) (get_or [] (map_of m) (domainKey p) @ [p]) m) checks [])"

fun typesLoop :: "string list \<Rightarrow> CheckState list \<Rightarrow> string list" where
  "typesLoop ts [] = ts"
| "typesLoop ts (p # ps) = typesLoop (if cs_type p \<in> set ts then ts else ts @ [cs_type p]) ps"

definition domainTypes :: "CheckState list \<Rightarrow> string" where
  "domainTypes checks = Join (typesLoop [] checks) '', ''"

definition prio :: "string \<Rightarrow> int" where
  "prio = get_or 0 (map_of [(''up'', 0), (''pending'', 1), (''error'', 2), (''degraded'', 3), (''down'', 4)])"

record cat_acc =
  ca_counts :: "string \<Rightarrow> int"
  ca_prio :: "string \<Rightarrow> int"
  ca_name :: "string \<Rightarrow> string"

definition catStep :: "CheckState \<Rightarrow> cat_acc \<Rightarrow> cat_acc" where
  "catStep p a =
     (let cat = categoryForCheckType (cs_type p);
          a1 = a \<lparr> ca_counts := (ca_counts a)(cat := ca_counts a cat + 1) \<rparr>
      in if prio (cs_status p) > ca_prio a1 cat
         then a1 \<lparr> ca_prio := (ca_prio a1)(cat := prio (cs_status p)),
                   ca_name := (ca_name a1)(cat := cs_status p) \<rparr>
         else a1)"

definition categories :: "CheckState list \<Rightarrow> CategoryInfo list" where
  "categories checks =
     (let a = fold catStep checks \<lparr> ca_counts = (\<lambda>_. 0), ca_prio = (\<lambda>_. 0), ca_name = (\<lambda>_. '''') \<rparr>
      in map (\<lambda>name. \<lparr> ci_name = name,
                       ci_status = (if ca_name a name = ''pending'' then ''up'' else ca_name a name),
                       ci_count = ca_counts a name \<rparr>)
           (filter (\<lambda>name. ca_counts a name > 0) [''Network'', ''Web'', ''Services'', ''Security'']))"

definition numCategories :: "CheckState list \<Rightarrow> int" where
  "numCategories checks = int (length (remdups (map (\<lambda>p. categoryForCheckType (cs_type p)) checks)))"

section \<open>Handlers\<close>

record response =
  rs_status :: int
  rs_content_type :: string
  rs_cache_control :: string
  rs_etag :: string
  rs_body :: string

definition serveWithETag :: "(string \<Rightarrow> string) \<Rightarrow> string \<Rightarrow> string \<Rightarrow> string \<Rightarrow> response" where
  "serveWithETag digest ifNoneMatch body contentType =
     (let etag = [CHR 0x22] @ digest body @ [CHR 0x22];
          r = \<lparr> rs_status = 200, rs_content_type = contentType, rs_cache_control = ''no-cache'',
                rs_etag = etag, rs_body = body \<rparr>
      in if ifNoneMatch = etag then r \<lparr> rs_status := 304, rs_body := '''' \<rparr> else r)"

definition error_response :: "int \<Rightarrow> string \<Rightarrow> response" where
  "error_response code msg = \<lparr> rs_status = code, rs_content_type = ''text/plain; charset=utf-8'',
     rs_cache_control = '''', rs_etag = '''', rs_body = msg @ [CHR 10] \<rparr>"

text \<open>
  \<open>Handler\<close>: the response to a path and the store after it; the three times are those of the
  snapshot. \<open>None\<close> is a panic of the snapshot.
\<close>

definition Handler ::
  "(Snapshot \<Rightarrow> string) \<Rightarrow> (Snapshot \<Rightarrow> string option) \<Rightarrow> (string \<Rightarrow> string) \<Rightarrow> gotime \<Rightarrow> gotime \<Rightarrow> gotime
   \<Rightarrow> string \<Rightarrow> string \<Rightarrow> Store \<Rightarrow> (response \<times> Store) option"
where
  "Handler encode render digest t0 t1 t2 path ifNoneMatch s =
     (if path = ''/api/status'' then
        (case takeSnapshot t0 t1 t2 s of
           None \<Rightarrow> None
         | Some (snap, s') \<Rightarrow> Some (serveWithETag digest ifNoneMatch (encode snap) ''application/json'', s'))
      else if path \<noteq> ''/'' then Some (error_response 404 ''404 page not found'', s)
      else
        (case takeSnapshot t0 t1 t2 s of
           None \<Rightarrow> None
         | Some (snap, s') \<Rightarrow>
             (case render snap of
                None \<Rightarrow> Some (error_response 500 ''template error'', s')
              | Some body \<Rightarrow> Some (serveWithETag digest ifNoneMatch body ''text/html; charset=utf-8'', s'))))"

section \<open>Statuses of groups\<close>

lemma countLoop_counts:
  "countLoop (d, e) ps =
     (d + int (length (filter (\<lambda>p. cs_status p = ''down'') ps)), e + int (length (filter (\<lambda>p. cs_status p = ''error'') ps)))"
  by (induction ps arbitrary: d e) auto

text \<open>
  The status of a group of checks: \<open>groupStatus\<close> and \<open>domainStatus\<close>, written
  differently, are the same function; it is down when all of a non-empty group are down, degraded
  when some but not all are, error when none is down but some check could not run, and up
  otherwise.
\<close>

theorem group_status_spec:
  "groupStatus ps = domainStatus ps
   \<and> domainStatus ps =
      (if ps \<noteq> [] \<and> list_all (\<lambda>p. cs_status p = ''down'') ps then ''down''
       else if list_ex (\<lambda>p. cs_status p = ''down'') ps then ''degraded''
       else if list_ex (\<lambda>p. cs_status p = ''error'') ps then ''error''
       else ''up'')"
proof -
  let ?d = "filter (\<lambda>p. cs_status p = ''down'') ps" and ?e = "filter (\<lambda>p. cs_status p = ''error'') ps"
  have "0 < length ?d \<longleftrightarrow> list_ex (\<lambda>p. cs_status p = ''down'') ps"
    "0 < length ?e \<longleftrightarrow> list_ex (\<lambda>p. cs_status p = ''error'') ps"
    "length ?d = length ps \<longleftrightarrow> list_all (\<lambda>p. cs_status p = ''down'') ps"
    by (auto simp: filter_empty_conv list_ex_iff length_filter_all)
  moreover have "list_ex (\<lambda>p. cs_status p = ''down'') ps" if "list_all (\<lambda>p. cs_status p = ''down'') ps" "ps \<noteq> []"
    using that by (cases ps) auto
  ultimately show ?thesis
    by (cases "ps = []") (auto simp: groupStatus_def domainStatus_def countLoop_counts)
qed

lemma groupByDomain_grouped:
  "groupByDomain ps = map (\<lambda>(k, l). \<lparr> dg_domain = k, dg_checks = l \<rparr>) (grouped domainKey (\<lambda>p. p) ps)"
proof -
  have "fold (\<lambda>p m. AList.update (domainKey p) (get_or [] (map_of m) (domainKey p) @ [p]) m) ps [] =
      grouped domainKey (\<lambda>p. p) ps"
  proof (induction ps rule: rev_induct)
    case (snoc p ps)
    then show ?case by (simp add: grouped_snoc)
  qed (simp add: grouped_def)
  then show ?thesis by (simp add: groupByDomain_def)
qed

text \<open>
  Grouping by domain loses no check and repeats none; the domains are distinct and in the order of
  first appearance.
\<close>

lemma groupByDomain_partition:
  "mset (concat (map dg_checks (groupByDomain ps))) = mset ps
   \<and> map dg_domain (groupByDomain ps) = first_occ (map domainKey ps)"
  using concat_grouped [of domainKey "\<lambda>p. p" ps]
  by (simp add: groupByDomain_grouped comp_def case_prod_beta grouped_def)

lemma typesLoop_first_occ: "typesLoop [] ps = first_occ (map cs_type ps)"
proof -
  have "typesLoop (first_occ ts) ps = first_occ (ts @ map cs_type ps)" for ts
  proof (induction ps arbitrary: ts)
    case (Cons p ps)
    from Cons [of "ts @ [cs_type p]"] show ?case by (simp add: first_occ_snoc)
  qed simp
  from this [of "[]"] show ?thesis by simp
qed

text \<open>
  A category whose checks are all up gets the empty status, since the priority of \<open>up\<close> is not
  above the initial one.
\<close>

lemma all_up_category_blank:
  "categories [ps] = [\<lparr> ci_name = ''Web'', ci_status = '''', ci_count = 1 \<rparr>]"
  if "cs_type ps = CheckTypeHTTP" "cs_status ps = ''up''"
  using that by (simp add: categories_def catStep_def Let_def categoryForCheckType_def prio_def get_or_def)

lemma maxLoop_ge: "m \<le> maxLoop m es \<and> (\<forall>e \<in> set es. e_duration_ms e \<le> maxLoop m es)"
proof (induction es arbitrary: m)
  case (Cons e es)
  from Cons [of "if e_duration_ms e > m then e_duration_ms e else m"] show ?case by (auto split: if_splits)
qed simp

text \<open>
  The bars of the chart: scaled by the largest duration, every bar of a non-negative duration is
  between 4 and 32 pixels high.
\<close>

lemma barHeight_bounds:
  assumes "e \<in> set es" "0 \<le> e_duration_ms e"
  shows "4 \<le> barHeight (e_duration_ms e) (maxDuration es) \<and> barHeight (e_duration_ms e) (maxDuration es) \<le> 32"
proof -
  let ?m = "maxDuration es" and ?x = "e_duration_ms e"
  have m: "0 < ?m" "?x \<le> ?m"
    using maxLoop_ge [of 0 es] assms by (auto simp: maxDuration_def Let_def)
  then have "?x / ?m * 32 \<le> 1 * 32" by (intro mult_right_mono) simp_all
  then have "\<lfloor>?x / ?m * 32\<rfloor> \<le> 32" by (simp add: floor_le_iff)
  with m assms(2) show ?thesis
    by (auto simp: barHeight_def Let_def truncate_float_def)
qed

text \<open>
  Conditional requests: a response is 304 without a body exactly when the client
  sent the tag of the present body, otherwise 200 with the body; the tag is that of the body in
  both cases. An unknown path is 404.
\<close>

theorem conditional_response:
  "(let r = serveWithETag digest inm body ct
    in rs_etag r = [CHR 0x22] @ digest body @ [CHR 0x22]
       \<and> (rs_status r = 304 \<longleftrightarrow> inm = rs_etag r) \<and> (rs_status r = 304 \<longrightarrow> rs_body r = [])
       \<and> (rs_status r \<noteq> 304 \<longrightarrow> rs_status r = 200 \<and> rs_body r = body))
   \<and> (path \<notin> {''/'', ''/api/status''} \<longrightarrow>
       map_option (rs_status \<circ> fst) (Handler encode render digest ta tb tc path inm s) = Some 404)"
  by (simp add: serveWithETag_def Let_def Handler_def error_response_def)

theorem conditional_response_witness:
  "map_option (rs_status \<circ> fst) (Handler (\<lambda>_. '''') (\<lambda>_. None) (\<lambda>b. b) 1 2 3 ''/nope'' '''' (emptyStore ''s'' None '''')) = Some 404"
  using conditional_response [where path = "''/nope''" and encode = "\<lambda>_. ''''" and render = "\<lambda>_. None" and digest = "\<lambda>b. b"
      and ta = 1 and tb = 2 and tc = 3 and inm = "''''" and s = "emptyStore ''s'' None ''''"] by simp

end
