(* ===== verification/History.thy ===== *)
theory History
  imports Check_Result
begin

text \<open>
  The optional long-term history, \<open>internal/history/history.go\<close>. The writer goroutine is a state
  machine: the channel of pending results, the batch, and the table of committed rows; an event is
  one case of a \<open>select\<close> statement. What SQLite does (a transaction commits or fails as a whole, a
  \<open>DELETE\<close> removes the rows of its condition) is the \<open>bool\<close> of the events; \<open>hi_lost\<close> collects the
  results of failed transactions and \<open>hi_accepted\<close> those the channel took.
\<close>

section \<open>Data\<close>

record hist_row =
  hr_name :: string
  hr_type :: check_type
  hr_ts :: int
  hr_success :: int
  hr_degraded :: int
  hr_duration_ms :: int
  hr_status_code :: int

record hist_store =
  hi_retention :: duration
  hi_ch :: "Result list"
  hi_batch :: "Result list"
  hi_rows :: "hist_row list"
  hi_lost :: "Result list"
  hi_accepted :: "Result list"
  hi_stopped :: bool

definition bufferSize :: nat where "bufferSize = 1024"
definition batchSize :: nat where "batchSize = 100"

definition boolToInt :: "bool \<Rightarrow> int" where
  "boolToInt b = (if b then 1 else 0)"

text \<open>\<open>Time.UnixMilli\<close>: milliseconds since 1970, 719162 days after Go's zero time.\<close>

definition UnixMilli :: "gotime \<Rightarrow> int" where
  "UnixMilli t = (t - 719162 * 24 * Hour) div Millisecond"

definition newHistory :: "duration \<Rightarrow> hist_store" where
  "newHistory retention = \<lparr> hi_retention = retention, hi_ch = [], hi_batch = [], hi_rows = [],
     hi_lost = [], hi_accepted = [], hi_stopped = False \<rparr>"

text \<open>
  \<open>New\<close>: opening the database and creating the schema may fail; \<open>sql_open\<close> has the error of
  \<open>sql.Open\<close> for a data source, \<open>schema\<close> that of executing the schema.
\<close>

datatype history_error = OpeningDB string | CreatingSchema string

definition historyDSN :: "string \<Rightarrow> string" where
  "historyDSN path = ''file:'' @ path @ ''?_pragma=busy_timeout(5000)&_pragma=journal_mode(WAL)''"

definition OpenHistory ::
  "(string \<Rightarrow> string option) \<Rightarrow> (string \<Rightarrow> string option) \<Rightarrow> string \<Rightarrow> duration \<Rightarrow> history_error + hist_store"
where
  "OpenHistory sql_open schema path retention =
     (let dsn = historyDSN path
      in case sql_open dsn of
           Some e \<Rightarrow> Inl (OpeningDB e)
         | None \<Rightarrow> (case schema dsn of
                      Some e \<Rightarrow> Inl (CreatingSchema e)
                    | None \<Rightarrow> Inr (newHistory retention)))"

section \<open>Operations\<close>

definition Record :: "Result option \<Rightarrow> hist_store \<Rightarrow> hist_store" where
  "Record ro s =
     (case ro of
        None \<Rightarrow> s
      | Some r \<Rightarrow>
          if r_infra_error r then s
          else if length (hi_ch s) < bufferSize
          then s \<lparr> hi_ch := hi_ch s @ [r], hi_accepted := hi_accepted s @ [r] \<rparr>
          else s)"

definition row_of :: "Result \<Rightarrow> hist_row" where
  "row_of r = \<lparr> hr_name = r_name r, hr_type = r_type r, hr_ts = UnixMilli (r_timestamp r),
     hr_success = boolToInt (r_success r), hr_degraded = boolToInt (r_degraded r),
     hr_duration_ms = milliseconds (r_duration r), hr_status_code = r_status_code r \<rparr>"

text \<open>\<open>flush\<close>: one transaction for the whole batch; \<open>commits\<close> says whether it succeeds.\<close>

definition flush :: "bool \<Rightarrow> hist_store \<Rightarrow> hist_store" where
  "flush commits s =
     (if commits then s \<lparr> hi_rows := hi_rows s @ map row_of (hi_batch s), hi_batch := [] \<rparr>
      else s \<lparr> hi_lost := hi_lost s @ hi_batch s, hi_batch := [] \<rparr>)"

definition pruneOld :: "bool \<Rightarrow> gotime \<Rightarrow> hist_store \<Rightarrow> hist_store" where
  "pruneOld succeeds now s =
     (if succeeds then s \<lparr> hi_rows := filter (\<lambda>row. \<not> hr_ts row < UnixMilli (now - hi_retention s)) (hi_rows s) \<rparr>
      else s)"

text \<open>The cases of the \<open>select\<close> of \<open>run\<close>; \<open>Done\<close> is the final drain of the channel.\<close>

datatype hist_event = Arrive "Result option" | TakeOne bool | FlushTick bool | PruneTick bool gotime | Done bool

definition takeOne :: "bool \<Rightarrow> hist_store \<Rightarrow> hist_store" where
  "takeOne commits s =
     (case hi_ch s of
        [] \<Rightarrow> s
      | r # rs \<Rightarrow>
          (let s1 = s \<lparr> hi_ch := rs, hi_batch := hi_batch s @ [r] \<rparr>
           in if length (hi_batch s1) \<ge> batchSize then flush commits s1 else s1))"

definition finalDrain :: "bool \<Rightarrow> hist_store \<Rightarrow> hist_store" where
  "finalDrain commits s =
     (let s1 = s \<lparr> hi_batch := hi_batch s @ hi_ch s, hi_ch := [], hi_stopped := True \<rparr>
      in if length (hi_batch s1) > 0 then flush commits s1 else s1)"

fun run_step :: "hist_event \<Rightarrow> hist_store \<Rightarrow> hist_store" where
  "run_step (Arrive r) s = Record r s"
| "run_step (TakeOne c) s = (if hi_stopped s then s else takeOne c s)"
| "run_step (FlushTick c) s = (if hi_stopped s \<or> length (hi_batch s) = 0 then s else flush c s)"
| "run_step (PruneTick ok now) s = (if hi_stopped s then s else pruneOld ok now s)"
| "run_step (Done c) s = (if hi_stopped s then s else finalDrain c s)"

definition UptimeOverWindow :: "gotime \<Rightarrow> string \<Rightarrow> duration \<Rightarrow> hist_store \<Rightarrow> float64 option" where
  "UptimeOverWindow now name window s =
     (let rows = filter (\<lambda>row. hr_name row = name \<and> hr_ts row \<ge> UnixMilli (now - window)) (hi_rows s);
          tot = int (length rows); up = sum_list (map hr_success rows)
      in if tot = 0 then None else Some (of_int up / of_int tot))"

section \<open>Bounds\<close>

definition binary :: "hist_row \<Rightarrow> bool" where
  "binary row \<longleftrightarrow> hr_success row \<in> {0, 1}"

definition hist_inv :: "hist_store \<Rightarrow> bool" where
  "hist_inv s \<longleftrightarrow> length (hi_ch s) \<le> bufferSize \<and> length (hi_batch s) < batchSize
     \<and> list_all binary (hi_rows s)"

lemma flush_simps [simp]:
  "hi_batch (flush c s) = []" "hi_ch (flush c s) = hi_ch s" "hi_accepted (flush c s) = hi_accepted s"
  "hi_stopped (flush c s) = hi_stopped s"
  by (simp_all add: flush_def)

lemma row_success: "binary (row_of r)"
  by (simp add: row_of_def boolToInt_def binary_def)

lemma flush_rows: "list_all binary (hi_rows s)
  \<Longrightarrow> list_all binary (hi_rows (flush c s))"
  using row_success by (auto simp: flush_def list_all_iff)

lemma run_step_inv: "hist_inv s \<Longrightarrow> hist_inv (run_step e s)"
proof (cases e)
  case (TakeOne c)
  then show "hist_inv s \<Longrightarrow> hist_inv (run_step e s)"
    by (auto simp: takeOne_def hist_inv_def Let_def batchSize_def flush_rows split: list.splits)
next
  case (Done c)
  then show "hist_inv s \<Longrightarrow> hist_inv (run_step e s)"
    by (auto simp: finalDrain_def hist_inv_def Let_def batchSize_def flush_rows)
next
  case (PruneTick succeeds now)
  then show "hist_inv s \<Longrightarrow> hist_inv (run_step e s)"
    by (auto simp: pruneOld_def hist_inv_def list_all_iff)
qed (auto simp: Record_def hist_inv_def batchSize_def flush_rows split: option.splits)

lemma run_inv: "hist_inv s \<Longrightarrow> hist_inv (fold run_step es s)"
  by (induction es arbitrary: s) (auto simp: run_step_inv)

section \<open>Nothing is lost silently\<close>

definition commits :: "hist_event \<Rightarrow> bool" where
  "commits e = (case e of TakeOne c \<Rightarrow> c | FlushTick c \<Rightarrow> c | Done c \<Rightarrow> c | PruneTick ok now \<Rightarrow> False | Arrive r \<Rightarrow> True)"

definition in_flight :: "hist_store \<Rightarrow> hist_row list" where
  "in_flight s = hi_rows s @ map row_of (hi_batch s @ hi_ch s)"

lemma run_step_in_flight:
  assumes "commits e" "in_flight s = map row_of (hi_accepted s)"
  shows "in_flight (run_step e s) = map row_of (hi_accepted (run_step e s))"
  using assms
  by (cases e)
     (auto simp: commits_def in_flight_def Record_def takeOne_def finalDrain_def flush_def Let_def
       split: option.split list.split)



lemma uptime_bounds:
  assumes "hist_inv s" "UptimeOverWindow now name window s = Some u"
  shows "0 \<le> u \<and> u \<le> 1"
proof -
  let ?rows = "filter (\<lambda>row. hr_name row = name \<and> hr_ts row \<ge> UnixMilli (now - window)) (hi_rows s)"
  have ne: "0 < length ?rows"
    and u: "u = of_int (sum_list (map hr_success ?rows)) / of_int (int (length ?rows))"
    using assms(2) by (auto simp: UptimeOverWindow_def Let_def split: if_splits)
  have "list_all binary ?rows"
    using assms(1) by (auto simp: hist_inv_def list_all_iff)
  moreover have "0 \<le> sum_list (map hr_success rs) \<and> sum_list (map hr_success rs) \<le> int (length rs)"
    if "list_all binary rs" for rs
    using that by (induction rs) (auto simp: binary_def)
  ultimately have "0 \<le> sum_list (map hr_success ?rows)" "sum_list (map hr_success ?rows) \<le> int (length ?rows)"
    by blast+
  with ne show ?thesis unfolding u by (simp add: divide_le_eq)
qed

end
