(* ===== verification/Goroutines.thy ===== *)
theory Goroutines
  imports Go_Prelude
begin

text \<open>
  Counters of goroutines. A wait group counts the goroutines that have not returned, a buffered
  channel used as a semaphore those that hold one of its slots. Both are a number beside a list of
  goroutines, changed together with it; the contract is stated once here and interpreted for the
  browser slots (\<open>Check_Tools\<close>) and for the webhook deliveries (\<open>Notify_Pool\<close>).
\<close>

lemma count_update:
  "i < length xs \<Longrightarrow> int (length (filter P (xs[i := y]))) =
     int (length (filter P xs)) - of_bool (P (xs ! i)) + of_bool (P y)"
proof (induction xs arbitrary: i)
  case (Cons x xs)
  then show ?case by (cases i) auto
qed simp

definition exact :: "('p \<Rightarrow> bool) \<Rightarrow> 'p list \<Rightarrow> int \<Rightarrow> bool" where
  "exact counted ps n \<longleftrightarrow> n = int (length (filter counted ps))"

lemma exact_zero_iff: "exact counted ps n \<Longrightarrow> n = 0 \<longleftrightarrow> list_all (\<lambda>p. \<not> counted p) ps"
  by (auto simp: exact_def filter_empty_conv list_all_iff)

lemma exact_holder: "exact counted ps n \<Longrightarrow> i < length ps \<Longrightarrow> counted (ps ! i) \<Longrightarrow> 0 < n"
  by (auto simp: exact_def filter_empty_conv)

text \<open>
  One step leaves the goroutines and the counter alone, starts a goroutine, or moves one of them on,
  and the counter follows.
\<close>

definition follows :: "('p \<Rightarrow> bool) \<Rightarrow> 'p list \<Rightarrow> int \<Rightarrow> 'p list \<Rightarrow> int \<Rightarrow> bool" where
  "follows counted ps n ps' n' \<longleftrightarrow>
     ps' = ps \<and> n' = n
     \<or> (\<exists>p. ps' = ps @ [p] \<and> n' = n + of_bool (counted p))
     \<or> (\<exists>i p. i < length ps \<and> ps' = ps[i := p] \<and> n' = n - of_bool (counted (ps ! i)) + of_bool (counted p))"

lemma follows_go: "ps' = ps @ [p] \<Longrightarrow> n' = n + of_bool (counted p) \<Longrightarrow> follows counted ps n ps' n'"
  unfolding follows_def by blast

lemma follows_move:
  "i < length ps \<Longrightarrow> ps' = ps[i := p] \<Longrightarrow> n' = n - of_bool (counted (ps ! i)) + of_bool (counted p) \<Longrightarrow>
     follows counted ps n ps' n'"
  unfolding follows_def by blast

lemma follows_exact: "follows counted ps n ps' n' \<Longrightarrow> exact counted ps n \<Longrightarrow> exact counted ps' n'"
  by (auto simp: follows_def exact_def count_update)

text \<open>The law is only required of states in which the counter is exact.\<close>

locale goroutine_counter =
  fixes go_step :: "'s \<Rightarrow> 's \<Rightarrow> bool" and procs :: "'s \<Rightarrow> 'p list"
    and counted :: "'p \<Rightarrow> bool" and counter :: "'s \<Rightarrow> int"
  assumes counter_follows: "go_step s s' \<Longrightarrow> exact counted (procs s) (counter s) \<Longrightarrow>
      follows counted (procs s) (counter s) (procs s') (counter s')"
begin

lemma exact_step: "go_step s s' \<Longrightarrow> exact counted (procs s) (counter s) \<Longrightarrow> exact counted (procs s') (counter s')"
  using counter_follows follows_exact by blast

end

text \<open>A semaphore also never lets the counter pass its capacity.\<close>

locale semaphore = goroutine_counter +
  fixes capacity :: int
  assumes within: "go_step s s' \<Longrightarrow> exact counted (procs s) (counter s) \<Longrightarrow>
      counter s \<le> capacity \<Longrightarrow> counter s' \<le> capacity"
begin

lemma bounded_step:
  "go_step s s' \<Longrightarrow> exact counted (procs s) (counter s) \<and> counter s \<le> capacity \<Longrightarrow>
     exact counted (procs s') (counter s') \<and> counter s' \<le> capacity"
  using exact_step within by blast

end

end
