(* ===== verification/Scheduler.thy ===== *)
theory Scheduler
  imports Goroutines Check_Result Check_Filter "HOL-Library.Word"
begin

text \<open>
  The scheduler: \<open>internal/scheduler/scheduler.go\<close> and \<open>stagger.go\<close>.

  \<^item> \<open>ProberRegistry\<close> is a map from check types to checkers; a checker is its method \<open>Run\<close>,
    whose first argument counts the invocations, so that it may observe something new each time.
  \<^item> \<open>RunWithRetry\<close> is the retry loop; it also returns the delays it waited. \<open>cancelled n\<close> says
    that the context is done when the \<open>n\<close>-th wait selects.
  \<^item> \<open>ComputeStagger\<close> is the FNV-1a hash at its 32-bit width.
  \<^item> The goroutines of \<open>Start\<close> are a state machine: every goroutine has a phase, the wait group a
    counter, the result channel a queue of at most 100 results, and \<open>sched_step\<close> says what each
    event does; \<open>ss_recorded\<close> is the sequence of results handed to \<open>metrics.RecordResult\<close>,
    \<open>ss_received\<close> that of the results the worker took from the channel. A send on a closed channel, a panic in Go, is the flag \<open>ss_panic\<close>. The cron
    library gronx is the parameter \<open>cron_valid\<close> and the events \<open>TickFails\<close> and \<open>TimerFired\<close>.
\<close>

unbundle bit_operations_syntax

section \<open>Registry\<close>

record Checker =
  ck_type :: check_type
  ck_run :: "nat \<Rightarrow> CheckConfig \<Rightarrow> Origin option \<Rightarrow> Result"

type_synonym ProberRegistry = "check_type \<Rightarrow> Checker option"

definition NewCheckerRegistry :: ProberRegistry where
  "NewCheckerRegistry = Map.empty"

definition Register :: "ProberRegistry \<Rightarrow> Checker \<Rightarrow> ProberRegistry" where
  "Register r p = r(ck_type p \<mapsto> p)"

definition RegisterMap :: "ProberRegistry \<Rightarrow> (check_type, Checker) gomap \<Rightarrow> ProberRegistry" where
  "RegisterMap r checkers = fold (\<lambda>(t, p) m. m(t \<mapsto> p)) checkers r"

definition Get :: "ProberRegistry \<Rightarrow> check_type \<Rightarrow> Checker option" where
  "Get r t = r t"

section \<open>Stagger\<close>

fun fnv_write :: "32 word \<Rightarrow> string \<Rightarrow> 32 word" where
  "fnv_write h [] = h"
| "fnv_write h (c # s) = fnv_write ((h XOR of_nat (of_char c)) * 16777619) s"

definition ComputeStagger :: "string \<Rightarrow> Origin option \<Rightarrow> duration" where
  "ComputeStagger checkName origin =
     (case origin of
        None \<Rightarrow> 0
      | Some org \<Rightarrow>
          (let h = fnv_write 2166136261 checkName;
               hash = fnv_write h (o_id org);
               staggerMs = hash mod 10000
           in int (unat staggerMs) * Millisecond))"

section \<open>Retry\<close>

definition scaleDelay :: "RetryPolicy \<Rightarrow> duration \<Rightarrow> duration" where
  "scaleDelay rp delay =
     (if rp_backoff rp = ''exponential'' then wrap64 (delay * 2)
      else if rp_backoff rp = ''linear'' then wrap64 (delay + rp_delay rp)
      else delay)"

fun retryLoop ::
  "(nat \<Rightarrow> Result) \<Rightarrow> (nat \<Rightarrow> bool) \<Rightarrow> RetryPolicy \<Rightarrow> nat \<Rightarrow> nat \<Rightarrow> duration \<Rightarrow> Result \<Rightarrow> Result \<times> duration list"
where
  "retryLoop run cancelled rp 0 attempt delay result = (result, [])"
| "retryLoop run cancelled rp (Suc n) attempt delay result =
     (if cancelled attempt then (result, [])
      else
        (let result' = (run attempt) \<lparr> r_retries := int attempt \<rparr>
         in if r_success result' then (result', [delay])
            else (case retryLoop run cancelled rp n (Suc attempt) (scaleDelay rp delay) result' of
                    (res, waits) \<Rightarrow> (res, delay # waits))))"

definition firstDelay :: "RetryPolicy \<Rightarrow> duration" where
  "firstDelay rp = (if rp_delay rp = 0 then Second else rp_delay rp)"

definition RunWithRetry ::
  "(nat \<Rightarrow> bool) \<Rightarrow> Checker \<Rightarrow> CheckConfig \<Rightarrow> Origin option \<Rightarrow> Result \<times> duration list"
where
  "RunWithRetry cancelled checker cfg origin =
     (let run = (\<lambda>n. ck_run checker n cfg origin);
          result = run 0
      in if r_success result then (result, [])
         else (case c_retry cfg of
                 None \<Rightarrow> (result, [])
               | Some rp \<Rightarrow>
                   if rp_count rp \<le> 0 then (result, [])
                   else retryLoop run cancelled rp (nat (rp_count rp)) 1 (firstDelay rp) result))"

section \<open>The scheduler and its goroutines\<close>

record Scheduler =
  sc_cfg :: Config
  sc_checks :: "CheckConfig list"
  sc_registry :: ProberRegistry
  sc_origin :: "Origin option"

definition results_capacity :: nat where
  "results_capacity = 100"

definition New :: "Config \<Rightarrow> CheckConfig list \<Rightarrow> ProberRegistry \<Rightarrow> string \<Rightarrow> Scheduler" where
  "New cfg checks registry originID =
     \<lparr> sc_cfg = cfg, sc_checks = checks, sc_registry = registry,
       sc_origin = ResolveOrigin cfg originID \<rparr>"

text \<open>
  A goroutine is a \<open>runLoop\<close> or a one-shot start of \<open>runInitial\<close>, with its check, its checker
  and its stagger delay.
\<close>

datatype phase = Waiting | Staggering | Executing | Finished

record routine =
  g_recurring :: bool
  g_check :: CheckConfig
  g_checker :: Checker
  g_stagger :: duration
  g_phase :: phase

record sched_state =
  ss_done :: bool
  ss_wg :: int
  ss_routines :: "routine list"
  ss_recorded :: "Result list"
  ss_results :: "Result list"
  ss_received :: "Result list"
  ss_dropped :: nat
  ss_closed :: bool
  ss_panic :: bool

text \<open>The loop of \<open>Start\<close> over the checks and that of \<open>runInitial\<close>.\<close>

fun startLoops :: "(string \<Rightarrow> bool) \<Rightarrow> Scheduler \<Rightarrow> CheckConfig list \<Rightarrow> routine list" where
  "startLoops cron_valid s [] = []"
| "startLoops cron_valid s (pc # pcs) =
     (case Get (sc_registry s) (c_type pc) of
        None \<Rightarrow> startLoops cron_valid s pcs
      | Some checker \<Rightarrow>
          if \<not> cron_valid (c_schedule pc) then startLoops cron_valid s pcs
          else \<lparr> g_recurring = True, g_check = pc, g_checker = checker,
                 g_stagger = ComputeStagger (c_name pc) (sc_origin s), g_phase = Waiting \<rparr>
               # startLoops cron_valid s pcs)"

fun runInitial :: "Scheduler \<Rightarrow> CheckConfig list \<Rightarrow> routine list" where
  "runInitial s [] = []"
| "runInitial s (pc # pcs) =
     (case Get (sc_registry s) (c_type pc) of
        None \<Rightarrow> runInitial s pcs
      | Some checker \<Rightarrow>
          (let delay = ComputeStagger (c_name pc) (sc_origin s)
           in \<lparr> g_recurring = False, g_check = pc, g_checker = checker, g_stagger = delay,
                g_phase = (if delay > 0 then Staggering else Executing) \<rparr>
              # runInitial s pcs))"

definition Start :: "(string \<Rightarrow> bool) \<Rightarrow> Scheduler \<Rightarrow> sched_state" where
  "Start cron_valid s =
     (let rs = startLoops cron_valid s (sc_checks s) @ runInitial s (sc_checks s)
      in \<lparr> ss_done = False, ss_wg = int (length rs), ss_routines = rs, ss_recorded = [], ss_results = [],
           ss_received = [], ss_dropped = 0, ss_closed = False, ss_panic = False \<rparr>)"

definition annotate :: "golib \<Rightarrow> CheckConfig \<Rightarrow> Result \<Rightarrow> Result" where
  "annotate lib cfg res =
     (let r1 = res \<lparr> r_group := c_group cfg, r_target := Target lib cfg \<rparr>
      in if c_degraded_after cfg > 0 \<and> r_success r1 \<and> DegradedLatency r1 > c_degraded_after cfg
         then r1 \<lparr> r_degraded := True \<rparr> else r1)"

definition publish :: "Result \<Rightarrow> sched_state \<Rightarrow> sched_state" where
  "publish r s =
     (if ss_closed s then s \<lparr> ss_panic := True \<rparr>
      else if length (ss_results s) < results_capacity
      then s \<lparr> ss_results := ss_results s @ [r] \<rparr>
      else s \<lparr> ss_dropped := Suc (ss_dropped s) \<rparr>)"

definition execute ::
  "golib \<Rightarrow> (nat \<Rightarrow> bool) \<Rightarrow> Checker \<Rightarrow> CheckConfig \<Rightarrow> Origin option \<Rightarrow> sched_state \<Rightarrow> sched_state"
where
  "execute lib cancelled checker cfg origin s =
     (let result = annotate lib cfg (fst (RunWithRetry cancelled checker cfg origin))
      in publish result (s \<lparr> ss_recorded := ss_recorded s @ [result] \<rparr>))"

subsection \<open>Events\<close>

text \<open>
  \<open>TimerFired i\<close>, \<open>TickFails i\<close>, \<open>SeesDone i\<close> and \<open>StaggerElapsed i\<close> are the outcomes of
  the computation of the next tick and of the two \<open>select\<close> statements of goroutine \<open>i\<close>,
  \<open>Run i n cancelled\<close> its call of \<open>execute\<close> when the checker has been invoked \<open>n\<close> times; \<open>Cancel\<close> is the cancellation of the context,
  \<open>Receive\<close> a receive of the worker and \<open>Close\<close> the end of the goroutine that waits for the
  wait group. An event that cannot happen in a state yields \<open>None\<close>.
\<close>

datatype event =
    Cancel
  | TickFails nat
  | TimerFired nat
  | StaggerElapsed nat
  | SeesDone nat
  | Run nat nat "nat \<Rightarrow> bool"
  | Receive
  | Close

definition set_phase :: "nat \<Rightarrow> phase \<Rightarrow> sched_state \<Rightarrow> sched_state" where
  "set_phase i p s = s \<lparr> ss_routines := (ss_routines s)[i := (ss_routines s ! i) \<lparr> g_phase := p \<rparr>] \<rparr>"

text \<open>The deferred \<open>s.wg.Done()\<close> when a goroutine returns.\<close>

definition finish :: "nat \<Rightarrow> sched_state \<Rightarrow> sched_state" where
  "finish i s = (set_phase i Finished s) \<lparr> ss_wg := ss_wg s - 1 \<rparr>"

definition from_call :: "nat \<Rightarrow> Checker \<Rightarrow> Checker" where
  "from_call n ck = ck \<lparr> ck_run := (\<lambda>j. ck_run ck (n + j)) \<rparr>"

definition in_phase :: "nat \<Rightarrow> phase \<Rightarrow> sched_state \<Rightarrow> bool" where
  "in_phase i p s \<longleftrightarrow> i < length (ss_routines s) \<and> g_phase (ss_routines s ! i) = p"

fun sched_step :: "golib \<Rightarrow> Origin option \<Rightarrow> event \<Rightarrow> sched_state \<Rightarrow> sched_state option" where
  "sched_step lib origin Cancel s = Some (s \<lparr> ss_done := True \<rparr>)"
| "sched_step lib origin (TickFails i) s =
     (if in_phase i Waiting s then Some (finish i s) else None)"
| "sched_step lib origin (TimerFired i) s =
     (if in_phase i Waiting s
      then Some (set_phase i (if g_stagger (ss_routines s ! i) > 0 then Staggering else Executing) s)
      else None)"
| "sched_step lib origin (StaggerElapsed i) s =
     (if in_phase i Staggering s then Some (set_phase i Executing s) else None)"
| "sched_step lib origin (SeesDone i) s =
     (if ss_done s \<and> (in_phase i Waiting s \<or> in_phase i Staggering s)
      then Some (finish i s) else None)"
| "sched_step lib origin (Run i n cancelled) s =
     (if in_phase i Executing s
      then (let g = ss_routines s ! i;
                s1 = execute lib cancelled (from_call n (g_checker g)) (g_check g) origin s
            in Some (if g_recurring g then set_phase i Waiting s1 else finish i s1))
      else None)"
| "sched_step lib origin Receive s =
     (case ss_results s of [] \<Rightarrow> None | r # rs \<Rightarrow> Some (s \<lparr> ss_results := rs, ss_received := ss_received s @ [r] \<rparr>))"
| "sched_step lib origin Close s =
     (if ss_done s \<and> ss_wg s = 0 \<and> \<not> ss_closed s then Some (s \<lparr> ss_closed := True \<rparr>) else None)"

inductive sched_reach :: "(string \<Rightarrow> bool) \<Rightarrow> golib \<Rightarrow> Scheduler \<Rightarrow> sched_state \<Rightarrow> bool"
  for cron_valid lib sc
where
  start: "sched_reach cron_valid lib sc (Start cron_valid sc)"
| step: "sched_reach cron_valid lib sc s \<Longrightarrow> sched_step lib (sc_origin sc) e s = Some s'
         \<Longrightarrow> sched_reach cron_valid lib sc s'"

section \<open>The hash and the registry\<close>

lemma fnv_write_append: "fnv_write h (s @ t) = fnv_write (fnv_write h s) t"
  by (induction s arbitrary: h) auto

lemma RegisterMap_lookup:
  "Get (RegisterMap r cs) t = (case map_of (rev cs) t of None \<Rightarrow> r t | Some p \<Rightarrow> Some p)"
  by (induction cs rule: rev_induct) (auto simp: RegisterMap_def Get_def)

text \<open>
  The stagger of a check is a whole number of milliseconds, at least 0 and less than
  ten seconds; without an origin it is 0, and it depends only on the concatenation of the check's
  name and the origin's id (so it is the same after every restart).
\<close>

theorem ComputeStagger_bounds:
  "0 \<le> ComputeStagger n og \<and> ComputeStagger n og < 10 * Second
   \<and> ComputeStagger n og mod Millisecond = 0 \<and> ComputeStagger n None = 0
   \<and> ComputeStagger n (Some og') =
       int (unat (fnv_write 2166136261 (n @ o_id og') mod 10000)) * Millisecond"
proof -
  have "unat (h mod 10000) < 10000" for h :: "32 word"
    by (simp add: unat_mod_distrib)
  then have "int (unat (h mod 10000)) < 10000" for h :: "32 word"
    by (metis of_nat_less_iff of_nat_numeral)
  then show ?thesis
    by (auto simp: ComputeStagger_def Let_def fnv_write_append split: option.split)
qed

section \<open>The retry loop\<close>

lemma retryLoop_stops:
  assumes "k \<le> n" "\<forall>j<k. \<not> cancelled (a + j)"
    and "\<forall>j. Suc j < k \<longrightarrow> \<not> r_success (run (a + j))"
    and "k = n \<or> cancelled (a + k) \<or> (0 < k \<and> r_success (run (a + k - 1)))"
  shows "retryLoop run cancelled rp n a delay result =
    ((if k = 0 then result else (run (a + k - 1)) \<lparr> r_retries := int (a + k - 1) \<rparr>),
     map (\<lambda>i. (scaleDelay rp ^^ i) delay) [0..<k])"
  using assms
proof (induction n arbitrary: a k delay result)
  case 0
  then show ?case by simp
next
  case (Suc n)
  show ?case
  proof (cases k)
    case 0
    with Suc.prems show ?thesis by simp
  next
    case k: (Suc m)
    with Suc.prems have nc: "\<not> cancelled a" by (metis add.right_neutral zero_less_Suc)
    have upt: "map (\<lambda>i. (scaleDelay rp ^^ i) delay) [0..<k] =
        delay # map (\<lambda>i. (scaleDelay rp ^^ i) (scaleDelay rp delay)) [0..<m]"
      unfolding k map_upt_Suc by (simp add: funpow_swap1)
    show ?thesis
    proof (cases "r_success (run a)")
      case True
      have "m = 0"
      proof (rule ccontr)
        assume "m \<noteq> 0"
        then have "Suc 0 < k" by (simp add: k)
        with Suc.prems(3) have "\<not> r_success (run (a + 0))" by blast
        with True show False by simp
      qed
      with True nc upt k show ?thesis by (simp add: Let_def)
    next
      case False
      have "retryLoop run cancelled rp n (Suc a) (scaleDelay rp delay) ((run a) \<lparr> r_retries := int a \<rparr>) =
        ((if m = 0 then (run a) \<lparr> r_retries := int a \<rparr>
          else (run (Suc a + m - 1)) \<lparr> r_retries := int (Suc a + m - 1) \<rparr>),
         map (\<lambda>i. (scaleDelay rp ^^ i) (scaleDelay rp delay)) [0..<m])"
      proof (rule Suc.IH)
        show "m \<le> n" using Suc.prems(1) k by simp
        show "\<forall>j<m. \<not> cancelled (Suc a + j)"
          using Suc.prems(2) k by (metis add_Suc_shift Suc_less_eq)
        show "\<forall>j. Suc j < m \<longrightarrow> \<not> r_success (run (Suc a + j))"
          using Suc.prems(3) k by (metis add_Suc_shift Suc_less_eq)
        show "m = n \<or> cancelled (Suc a + m) \<or> (0 < m \<and> r_success (run (Suc a + m - 1)))"
          using Suc.prems(4) False k by (cases m) auto
      qed
      with nc False upt k show ?thesis by (simp add: Let_def)
    qed
  qed
qed

definition max_retries :: "CheckConfig \<Rightarrow> nat" where
  "max_retries cfg = (case c_retry cfg of None \<Rightarrow> 0 | Some rp \<Rightarrow> nat (rp_count rp))"

definition attempt_result :: "Checker \<Rightarrow> CheckConfig \<Rightarrow> Origin option \<Rightarrow> nat \<Rightarrow> Result" where
  "attempt_result ck cfg og k =
     (if k = 0 then ck_run ck 0 cfg og else (ck_run ck k cfg og) \<lparr> r_retries := int k \<rparr>)"

definition waited :: "CheckConfig \<Rightarrow> nat \<Rightarrow> duration list" where
  "waited cfg k = (case c_retry cfg of None \<Rightarrow> []
     | Some rp \<Rightarrow> map (\<lambda>i. (scaleDelay rp ^^ i) (firstDelay rp)) [0..<k])"

definition stops_at :: "(nat \<Rightarrow> bool) \<Rightarrow> (nat \<Rightarrow> bool) \<Rightarrow> nat \<Rightarrow> nat \<Rightarrow> bool" where
  "stops_at succeeds cancelled n k \<longleftrightarrow> k \<le> n \<and> (\<forall>j<k. \<not> succeeds j \<and> \<not> cancelled (Suc j))
     \<and> (succeeds k \<or> k = n \<or> cancelled (Suc k))"

lemma stops_at_ex: "\<exists>k. stops_at succeeds cancelled n k"
proof -
  let ?Q = "\<lambda>k. succeeds k \<or> k = n \<or> cancelled (Suc k)"
  have q: "?Q n" by simp
  have "?Q (Least ?Q)" using q by (rule LeastI)
  moreover have "Least ?Q \<le> n" using q by (rule Least_le)
  moreover have "\<forall>j < Least ?Q. \<not> ?Q j" using not_less_Least by blast
  ultimately have "stops_at succeeds cancelled n (Least ?Q)" unfolding stops_at_def by blast
  then show ?thesis ..
qed

lemma RunWithRetry_stops:
  assumes st: "stops_at (\<lambda>j. r_success (ck_run ck j cfg og)) cancelled (max_retries cfg) k"
  shows "RunWithRetry cancelled ck cfg og = (attempt_result ck cfg og k, waited cfg k)"
proof (cases "r_success (ck_run ck 0 cfg og) \<or> max_retries cfg = 0")
  case True
  with st have "k = 0" by (auto simp: stops_at_def)
  with True show ?thesis
    by (auto simp: RunWithRetry_def Let_def attempt_result_def waited_def max_retries_def split: option.splits)
next
  case False
  then obtain rp where rp: "c_retry cfg = Some rp" "0 < rp_count rp" and n: "max_retries cfg = nat (rp_count rp)"
    by (auto simp: max_retries_def split: option.splits)
  have "retryLoop (\<lambda>n. ck_run ck n cfg og) cancelled rp (nat (rp_count rp)) 1 (firstDelay rp) (ck_run ck 0 cfg og) =
    ((if k = 0 then ck_run ck 0 cfg og else (ck_run ck (1 + k - 1) cfg og) \<lparr> r_retries := int (1 + k - 1) \<rparr>),
     map (\<lambda>i. (scaleDelay rp ^^ i) (firstDelay rp)) [0..<k])"
  proof (rule retryLoop_stops)
    show "k = nat (rp_count rp) \<or> cancelled (1 + k) \<or> 0 < k \<and> r_success (ck_run ck (1 + k - 1) cfg og)"
      using st False n by (cases k) (auto simp: stops_at_def)
  qed (use st n in \<open>auto simp: stops_at_def\<close>)
  with False rp show ?thesis
    by (simp add: RunWithRetry_def Let_def attempt_result_def waited_def)
qed

text \<open>
  Property C15. \<open>RunWithRetry\<close> returns the result of the first attempt that succeeds, or of the
  last one allowed, or of the one after which the context was cancelled: there is a number \<open>k\<close> of
  retries, at most the configured count, such that the attempts before it failed, and the result
  is that of attempt \<open>k\<close> with \<open>Retries = k\<close>, after \<open>k\<close> waits.
\<close>

theorem RunWithRetry_first_success:
  "\<exists>k. stops_at (\<lambda>j. r_success (ck_run ck j cfg og)) cancelled (max_retries cfg) k
     \<and> RunWithRetry cancelled ck cfg og = (attempt_result ck cfg og k, waited cfg k)"
  using stops_at_ex RunWithRetry_stops by blast

lemma scaleDelay_exponential:
  "rp_backoff rp = ''exponential'' \<Longrightarrow> - (2 ^ 63) \<le> d \<Longrightarrow> d < 2 ^ 63
   \<Longrightarrow> (scaleDelay rp ^^ i) d = wrap64 (d * 2 ^ i)"
proof (induction i)
  case (Suc i)
  then have "(scaleDelay rp ^^ Suc i) d = wrap64 (wrap64 (d * 2 ^ i) * 2)"
    by (simp add: scaleDelay_def [where delay = "wrap64 _"])
  then show ?case by (simp only: wrap64_mult2) (simp add: algebra_simps)
qed (simp add: wrap64_id)

lemma scaleDelay_linear:
  "rp_backoff rp = ''linear'' \<Longrightarrow> - (2 ^ 63) \<le> d \<Longrightarrow> d < 2 ^ 63
   \<Longrightarrow> (scaleDelay rp ^^ i) d = wrap64 (d + int i * rp_delay rp)"
proof (induction i)
  case (Suc i)
  then have "(scaleDelay rp ^^ Suc i) d = wrap64 (wrap64 (d + int i * rp_delay rp) + rp_delay rp)"
    by (simp add: scaleDelay_def [where delay = "wrap64 _"])
  then show ?case by (simp only: wrap64_add_left) (simp add: algebra_simps)
qed (simp add: wrap64_id)

lemma scaleDelay_constant:
  "rp_backoff rp \<noteq> ''exponential'' \<Longrightarrow> rp_backoff rp \<noteq> ''linear'' \<Longrightarrow> (scaleDelay rp ^^ i) d = d"
  by (induction i) (simp_all add: scaleDelay_def)

text \<open>
  The wait before retry \<open>i + 1\<close>: with exponential backoff the first delay times
  \<open>2 ^ i\<close>, with linear backoff the first delay plus \<open>i\<close> times the configured one, otherwise
  always the first delay; in signed 64-bit arithmetic. The first delay is the configured one, or
  one second when it is 0, in which case linear backoff does not grow.
\<close>

theorem retry_delays:
  assumes "c_retry cfg = Some rp" and "- (2 ^ 63) \<le> rp_delay rp" and "rp_delay rp < 2 ^ 63" and "i < k"
  shows "waited cfg k ! i =
      (if rp_backoff rp = ''exponential'' then wrap64 (firstDelay rp * 2 ^ i)
       else if rp_backoff rp = ''linear'' then wrap64 (firstDelay rp + int i * rp_delay rp)
       else firstDelay rp)
    \<and> firstDelay rp = (if rp_delay rp = 0 then Second else rp_delay rp)"
proof -
  have r: "- (2 ^ 63) \<le> firstDelay rp" "firstDelay rp < 2 ^ 63"
    using assms(2,3) by (simp_all add: firstDelay_def)
  have "waited cfg k ! i = (scaleDelay rp ^^ i) (firstDelay rp)"
    using assms(1,4) by (simp add: waited_def)
  then show ?thesis
    using scaleDelay_exponential [OF _ r] scaleDelay_linear [OF _ r] scaleDelay_constant
    by (simp add: firstDelay_def)
qed


theorem retry_delays_witness:
  "waited (emptyCheck (zeroYAML \<lparr> y_retry := Some \<lparr> rp_count = 3, rp_backoff = ''exponential'', rp_delay = 5 * Second \<rparr> \<rparr>)) 3 ! 2
     = 20 * Second"
  using retry_delays [where k = 3 and i = 2 and rp = "\<lparr> rp_count = 3, rp_backoff = ''exponential'', rp_delay = 5 * Second \<rparr>"
      and cfg = "emptyCheck (zeroYAML \<lparr> y_retry := Some \<lparr> rp_count = 3, rp_backoff = ''exponential'', rp_delay = 5 * Second \<rparr> \<rparr>)"]
  by (simp add: emptyCheck_def firstDelay_def wrap64_def)

section \<open>The goroutines\<close>

definition live :: "routine \<Rightarrow> bool" where
  "live g \<longleftrightarrow> g_phase g \<noteq> Finished"

text \<open>
  What every state the scheduler can reach satisfies: the wait group counts the goroutines that
  have not returned, the channel is closed only after all of them have, and holds at most 100
  results; the results received and queued are, in order, those recorded less the dropped ones.
\<close>

definition sched_inv :: "sched_state \<Rightarrow> bool" where
  "sched_inv s \<longleftrightarrow>
     ss_wg s = int (length (filter live (ss_routines s)))
     \<and> (ss_closed s \<longrightarrow> ss_done s \<and> filter live (ss_routines s) = [])
     \<and> length (ss_results s) \<le> results_capacity \<and> \<not> ss_panic s
     \<and> subseq (ss_received s @ ss_results s) (ss_recorded s)
     \<and> length (ss_recorded s) = length (ss_received s) + length (ss_results s) + ss_dropped s"

lemma startLoops_live: "filter live (startLoops cv s cs) = startLoops cv s cs"
  by (induction cs) (auto simp: live_def split: option.split)

lemma runInitial_live: "filter live (runInitial s cs) = runInitial s cs"
  by (induction cs) (auto simp: live_def Let_def split: option.split)

lemma Start_inv: "sched_inv (Start cv s)"
  by (simp add: sched_inv_def Start_def Let_def startLoops_live runInitial_live)

lemma live_update:
  "i < length xs \<Longrightarrow> live (xs ! i) \<Longrightarrow>
   int (length (filter live (xs[i := (xs ! i) \<lparr> g_phase := p \<rparr>]))) =
     int (length (filter live xs)) - of_bool (p = Finished)"
  by (simp add: count_update live_def)

lemma live_closed: "filter live xs = [] \<Longrightarrow> i < length xs \<Longrightarrow> \<not> live (xs ! i)"
  by (simp add: filter_empty_conv)

lemma set_phase_inv:
  assumes "sched_inv s" "i < length (ss_routines s)" "live (ss_routines s ! i)" "p \<noteq> Finished"
  shows "sched_inv (set_phase i p s)"
  using assms live_update [of i "ss_routines s" p] live_closed [of "ss_routines s" i]
  by (auto simp: sched_inv_def set_phase_def)

lemma finish_inv:
  assumes "sched_inv s" "i < length (ss_routines s)" "live (ss_routines s ! i)"
  shows "sched_inv (finish i s)"
  using assms live_update [of i "ss_routines s" Finished] live_closed [of "ss_routines s" i]
  by (auto simp: sched_inv_def finish_def set_phase_def)

lemma execute_routines [simp]:
  "ss_routines (execute lib c ck cfg og s) = ss_routines s"
  by (simp add: execute_def publish_def Let_def)

lemma execute_inv:
  assumes "sched_inv s" "\<not> ss_closed s"
  shows "sched_inv (execute lib c ck cfg og s)"
proof -
  let ?r = "annotate lib cfg (fst (RunWithRetry c ck cfg og))"
  have "subseq (ss_received s @ ss_results s) (ss_recorded s @ [?r])"
    using assms(1) by (simp add: sched_inv_def subseq_rev_drop_many)
  moreover have "subseq ((ss_received s @ ss_results s) @ [?r]) (ss_recorded s @ [?r])"
    using assms(1) by (subst subseq_append) (simp add: sched_inv_def)
  ultimately show ?thesis
    using assms by (auto simp: sched_inv_def execute_def publish_def Let_def)
qed

lemma in_phaseD:
  "in_phase i p s \<Longrightarrow> p \<noteq> Finished \<Longrightarrow> i < length (ss_routines s) \<and> live (ss_routines s ! i)"
  by (simp add: in_phase_def live_def)

lemma sched_step_inv:
  assumes "sched_inv s" "sched_step lib og e s = Some s'"
  shows "sched_inv s'"
proof (cases e)
  case (Run i n c)
  with assms(2) have ip: "in_phase i Executing s" by (simp split: if_splits)
  then have l: "i < length (ss_routines s)" "live (ss_routines s ! i)" by (auto dest: in_phaseD)
  with assms(1) have "\<not> ss_closed s" by (auto simp: sched_inv_def live_closed)
  note ex = execute_inv [OF assms(1) this]
  have "sched_inv (set_phase i Waiting (execute lib c ck cfg og s))"
    "sched_inv (finish i (execute lib c ck cfg og s))" for ck cfg
    using l by (auto intro!: set_phase_inv finish_inv ex)
  with Run ip assms(2) show ?thesis by (auto simp: Let_def split: if_splits)
next
  case Close
  with assms show ?thesis by (auto simp: sched_inv_def filter_empty_conv split: if_splits)
next
  case Cancel
  with assms show ?thesis by (auto simp: sched_inv_def)
next
  case Receive
  with assms show ?thesis by (auto simp: sched_inv_def split: list.splits)
next
  case (TickFails i)
  with assms show ?thesis
    by (auto split: if_splits dest!: in_phaseD intro: finish_inv)
next
  case (SeesDone i)
  with assms show ?thesis
    by (auto split: if_splits dest!: in_phaseD intro: finish_inv)
next
  case (TimerFired i)
  with assms show ?thesis
    by (auto split: if_splits dest!: in_phaseD intro: set_phase_inv)
next
  case (StaggerElapsed i)
  with assms show ?thesis
    by (auto split: if_splits dest!: in_phaseD intro: set_phase_inv)
qed

lemma sched_reach_inv: "sched_reach cv lib sc s \<Longrightarrow> sched_inv s"
  by (induction rule: sched_reach.induct) (auto intro: Start_inv sched_step_inv)

text \<open>
  Property C1. Whatever the order of ticks, cancellations, runs and receives, the scheduler never
  sends on its closed channel: no reachable state has panicked, the channel is closed only after
  the context is cancelled and every goroutine has returned, and the results the worker receives
  and the queued ones are the recorded results in order, less exactly the dropped ones.
\<close>

theorem scheduler_no_send_on_closed:
  assumes "sched_reach cv lib sc s"
  shows "\<not> ss_panic s
    \<and> (ss_closed s \<longrightarrow> ss_done s \<and> (\<forall>g \<in> set (ss_routines s). g_phase g = Finished))
    \<and> length (ss_results s) \<le> 100
    \<and> subseq (ss_received s @ ss_results s) (ss_recorded s)
    \<and> length (ss_recorded s) = length (ss_received s @ ss_results s) + ss_dropped s"
  using sched_reach_inv [OF assms]
  by (simp add: sched_inv_def results_capacity_def filter_empty_conv live_def)

definition sample_checker :: Checker where
  "sample_checker = \<lparr> ck_type = CheckTypeTCP,
     ck_run = (\<lambda>n cfg og. (NewResult 7 (c_name cfg) CheckTypeTCP og) \<lparr> r_success := (n = 1) \<rparr>) \<rparr>"

definition sample_check :: CheckConfig where
  "sample_check = (emptyCheck zeroYAML) \<lparr> c_name := ''db'', c_type := CheckTypeTCP,
     c_retry := Some \<lparr> rp_count = 2, rp_backoff = ''linear'', rp_delay = Second \<rparr> \<rparr>"

definition sample_sched :: Scheduler where
  "sample_sched = \<lparr> sc_cfg = zeroConfig, sc_checks = [sample_check],
     sc_registry = Register NewCheckerRegistry sample_checker, sc_origin = None \<rparr>"

lemma Start_sample:
  "ss_routines (Start (\<lambda>_. True) sample_sched) =
     [\<lparr> g_recurring = True, g_check = sample_check, g_checker = sample_checker, g_stagger = 0, g_phase = Waiting \<rparr>,
      \<lparr> g_recurring = False, g_check = sample_check, g_checker = sample_checker, g_stagger = 0, g_phase = Executing \<rparr>]"
  by (simp add: Start_def sample_sched_def Get_def Register_def Let_def sample_checker_def
      sample_check_def ComputeStagger_def)

theorem scheduler_no_send_on_closed_witness:
  "\<exists>s. sched_reach (\<lambda>_. True) sample_lib sample_sched s \<and> length (ss_recorded s) = 1 \<and> \<not> ss_panic s"
proof -
  let ?s0 = "Start (\<lambda>_. True) sample_sched"
  have r0: "sched_reach (\<lambda>_. True) sample_lib sample_sched ?s0" by (rule sched_reach.start)
  have ip: "in_phase 1 Executing ?s0" by (simp add: in_phase_def Start_sample)
  let ?s1 = "finish 1 (execute sample_lib (\<lambda>_. False) (from_call 0 sample_checker) sample_check None ?s0)"
  have "sched_step sample_lib (sc_origin sample_sched) (Run 1 0 (\<lambda>_. False)) ?s0 = Some ?s1"
    using ip by (simp add: Start_sample Let_def sample_sched_def [THEN arg_cong, of sc_origin])
  with r0 have r1: "sched_reach (\<lambda>_. True) sample_lib sample_sched ?s1" by (rule sched_reach.step)
  have "length (ss_recorded ?s1) = 1"
    by (simp add: finish_def set_phase_def execute_def publish_def Let_def Start_def)
  with r1 scheduler_no_send_on_closed [OF r1] show ?thesis by blast
qed

subsection \<open>Shutdown\<close>

fun sched_run :: "golib \<Rightarrow> Origin option \<Rightarrow> event list \<Rightarrow> sched_state \<Rightarrow> sched_state option" where
  "sched_run lib og [] s = Some s"
| "sched_run lib og (e # es) s =
     (case sched_step lib og e s of None \<Rightarrow> None | Some s' \<Rightarrow> sched_run lib og es s')"

fun phase_weight :: "phase \<Rightarrow> nat" where
  "phase_weight Waiting = 1"
| "phase_weight Staggering = 1"
| "phase_weight Executing = 2"
| "phase_weight Finished = 0"

definition work_left :: "sched_state \<Rightarrow> nat" where
  "work_left s = sum_list (map (phase_weight \<circ> g_phase) (ss_routines s))"

lemma set_phase_work:
  assumes "i < length (ss_routines s)" "phase_weight p < phase_weight (g_phase (ss_routines s ! i))"
  shows "work_left (set_phase i p s) < work_left s" "work_left (finish i s) < work_left s"
proof -
  have mem: "phase_weight (g_phase (ss_routines s ! i)) \<le> work_left s"
    using assms(1) unfolding work_left_def by (auto intro: member_le_sum_list)
  have "work_left (set_phase i q s) =
      work_left s + phase_weight q - phase_weight (g_phase (ss_routines s ! i))" for q
    using assms(1) by (simp add: work_left_def set_phase_def map_update sum_list_update)
  with mem assms(2) show "work_left (set_phase i p s) < work_left s" "work_left (finish i s) < work_left s"
    by (auto simp: finish_def work_left_def)
qed

lemma execute_done [simp]: "ss_done (execute lib c ck cfg og s) = ss_done s"
  by (simp add: execute_def publish_def Let_def)

lemma set_phase_done [simp]: "ss_done (set_phase i p s) = ss_done s" "ss_done (finish i s) = ss_done s"
  by (simp_all add: set_phase_def finish_def)

lemma execute_work [simp]: "work_left (execute lib c ck cfg og s) = work_left s"
  by (simp add: work_left_def)

lemma shutdown_progress:
  assumes "ss_done s" "i < length (ss_routines s)" "live (ss_routines s ! i)"
  shows "\<exists>e s'. sched_step lib og e s = Some s' \<and> ss_done s' \<and> work_left s' < work_left s"
proof (cases "g_phase (ss_routines s ! i) = Executing")
  case True
  let ?g = "ss_routines s ! i"
  let ?s1 = "execute lib (\<lambda>_. True) (from_call 0 (g_checker ?g)) (g_check ?g) og s"
  have "sched_step lib og (Run i 0 (\<lambda>_. True)) s =
      Some (if g_recurring ?g then set_phase i Waiting ?s1 else finish i ?s1)"
    using True assms(2) by (simp add: in_phase_def Let_def)
  moreover have "work_left (if g_recurring ?g then set_phase i Waiting ?s1 else finish i ?s1) < work_left s"
    using set_phase_work [of i ?s1 Waiting] True assms(2) by simp
  moreover have "ss_done (if g_recurring ?g then set_phase i Waiting ?s1 else finish i ?s1)"
    using assms(1) by simp
  ultimately show ?thesis by blast
next
  case False
  with assms(3) have p: "g_phase (ss_routines s ! i) \<in> {Waiting, Staggering}"
    by (cases "g_phase (ss_routines s ! i)") (auto simp: live_def)
  with assms have "sched_step lib og (SeesDone i) s = Some (finish i s)"
    by (auto simp: in_phase_def)
  moreover have "work_left (finish i s) < work_left s"
    using set_phase_work [of i s Finished] p assms(2) by auto
  ultimately show ?thesis using assms(1) by fastforce
qed

lemma shutdown_from:
  "sched_inv s \<Longrightarrow> ss_done s \<Longrightarrow> \<exists>es s'. sched_run lib og es s = Some s' \<and> ss_closed s'"
proof (induction "work_left s" arbitrary: s rule: less_induct)
  case less
  show ?case
  proof (cases "filter live (ss_routines s) = []")
    case True
    show ?thesis
    proof (cases "ss_closed s")
      case True
      then have "sched_run lib og [] s = Some s" by simp
      with True show ?thesis by blast
    next
      case False
      with True less.prems
      have "sched_run lib og [Close] s = Some (s \<lparr> ss_closed := True \<rparr>)" by (simp add: sched_inv_def)
      moreover have "ss_closed (s \<lparr> ss_closed := True \<rparr>)" by simp
      ultimately show ?thesis by blast
    qed
  next
    case False
    then obtain i where "i < length (ss_routines s)" "live (ss_routines s ! i)"
      by (auto simp: filter_empty_conv in_set_conv_nth)
    from shutdown_progress [OF less.prems(2) this] obtain e s'
      where e: "sched_step lib og e s = Some s'" and s': "ss_done s'" "work_left s' < work_left s" by blast
    from less.hyps [OF s'(2) sched_step_inv [OF less.prems(1) e] s'(1)] obtain es s''
      where "sched_run lib og es s' = Some s''" "ss_closed s''" by blast
    with e have "sched_run lib og (e # es) s = Some s''" by simp
    with \<open>ss_closed s''\<close> show ?thesis by blast
  qed
qed

text \<open>
  Property C28. Shutdown is always possible: from every reachable state in which the context is
  cancelled, a sequence of steps of the goroutines leads to the state with the channel closed
  (which ends the worker's receive loop).
\<close>

theorem scheduler_shutdown:
  assumes "sched_reach cv lib sc s" "ss_done s"
  shows "\<exists>es s'. sched_run lib (sc_origin sc) es s = Some s' \<and> ss_closed s'"
  using shutdown_from [OF sched_reach_inv [OF assms(1)] assms(2)] .

theorem scheduler_shutdown_witness:
  "\<exists>s es s'. sched_reach (\<lambda>_. True) sample_lib sample_sched s \<and> ss_done s
     \<and> sched_run sample_lib (sc_origin sample_sched) es s = Some s' \<and> ss_closed s'"
proof -
  let ?s1 = "(Start (\<lambda>_. True) sample_sched) \<lparr> ss_done := True \<rparr>"
  have r1: "sched_reach (\<lambda>_. True) sample_lib sample_sched ?s1"
    by (rule sched_reach.step [OF sched_reach.start, where e = Cancel]) simp
  from scheduler_shutdown [OF r1] r1 show ?thesis by fastforce
qed

section \<open>Which checks run, and what a result carries\<close>

lemma startLoops_checks:
  "map g_check (startLoops cv s cs) =
     filter (\<lambda>c. Get (sc_registry s) (c_type c) \<noteq> None \<and> cv (c_schedule c)) cs"
  by (induction cs) (auto split: option.split)

lemma runInitial_checks:
  "map g_check (runInitial s cs) = filter (\<lambda>c. Get (sc_registry s) (c_type c) \<noteq> None) cs"
  by (induction cs) (auto simp: Let_def split: option.split)

lemma startLoops_recurring: "filter g_recurring (startLoops cv s cs) = startLoops cv s cs"
  by (induction cs) (auto split: option.split)

lemma runInitial_once: "filter g_recurring (runInitial s cs) = []"
  by (induction cs) (auto simp: Let_def split: option.split)

lemma not_recurring: "filter (\<lambda>g. \<not> g_recurring g) (startLoops cv s cs) = []"
  "filter (\<lambda>g. \<not> g_recurring g) (runInitial s cs) = runInitial s cs"
  by (induction cs) (auto simp: Let_def split: option.split)

text \<open>
  \<open>Start\<close> gives a recurring loop to exactly the checks that have a registered
  checker and a valid cron expression, in order, and one immediate run to exactly the checks with
  a registered checker (also those whose schedule is invalid).
\<close>

theorem Start_schedules:
  "map g_check (filter g_recurring (ss_routines (Start cv s))) =
     filter (\<lambda>c. Get (sc_registry s) (c_type c) \<noteq> None \<and> cv (c_schedule c)) (sc_checks s)
   \<and> map g_check (filter (\<lambda>g. \<not> g_recurring g) (ss_routines (Start cv s))) =
     filter (\<lambda>c. Get (sc_registry s) (c_type c) \<noteq> None) (sc_checks s)"
  by (simp add: Start_def Let_def startLoops_recurring runInitial_once not_recurring
      startLoops_checks runInitial_checks)

lemma startLoops_ok:
  "g \<in> set (startLoops cv sc cs) \<Longrightarrow> g_check g \<in> set cs \<and> Get (sc_registry sc) (c_type (g_check g)) = Some (g_checker g)"
  by (induction cs) (auto split: option.splits if_splits)

subsection \<open>Checks keep running\<close>

text \<open>What a goroutine keeps for its life.\<close>

definition identity_of :: "routine \<Rightarrow> bool \<times> CheckConfig \<times> Checker" where
  "identity_of g = (g_recurring g, g_check g, g_checker g)"

lemma identity_update:
  "map identity_of (gs[i := (gs ! i) \<lparr> g_phase := p \<rparr>]) = map identity_of gs"
proof (cases "i < length gs")
  case True
  then have "identity_of ((gs ! i) \<lparr> g_phase := p \<rparr>) = map identity_of gs ! i" by (simp add: identity_of_def)
  then show ?thesis by (simp only: map_update list_update_id)
qed (simp add: list_update_beyond)

lemma set_phase_identity [simp]:
  "map identity_of (ss_routines (set_phase i p s)) = map identity_of (ss_routines s)"
  "map identity_of (ss_routines (finish i s)) = map identity_of (ss_routines s)"
  by (simp_all add: set_phase_def finish_def identity_update)

lemma step_identity:
  "sched_step lib og e s = Some s' \<Longrightarrow> map identity_of (ss_routines s') = map identity_of (ss_routines s)"
  by (cases e) (auto simp: Let_def split: if_splits list.splits)

definition looping :: "sched_state \<Rightarrow> bool" where
  "looping s \<longleftrightarrow> \<not> ss_done s \<and> (\<forall>g \<in> set (ss_routines s). g_recurring g \<longrightarrow> live g)"

lemma set_phase_looping:
  "looping s \<Longrightarrow> i < length (ss_routines s) \<Longrightarrow> p \<noteq> Finished \<Longrightarrow> looping (set_phase i p s)"
  "looping s \<Longrightarrow> i < length (ss_routines s) \<Longrightarrow> \<not> g_recurring (ss_routines s ! i) \<Longrightarrow> looping (finish i s)"
  by (auto simp: looping_def set_phase_def finish_def live_def dest!: set_update_subset_insert [THEN subsetD])

lemma execute_looping: "looping s \<Longrightarrow> looping (execute lib c ck cfg og s)"
  by (simp add: looping_def)

definition keeps_going :: "event \<Rightarrow> bool" where
  "keeps_going e \<longleftrightarrow> e \<noteq> Cancel \<and> (\<forall>i. e \<noteq> TickFails i)"

lemma step_looping:
  assumes "sched_step lib og e s = Some s'" "keeps_going e" "looping s"
  shows "looping s'"
proof (cases e)
  case (Run i n c)
  with assms show ?thesis
    by (auto simp: in_phase_def Let_def split: if_splits intro!: set_phase_looping execute_looping)
next
  case (TimerFired i)
  with assms show ?thesis by (auto simp: in_phase_def split: if_splits intro!: set_phase_looping(1))
next
  case (StaggerElapsed i)
  with assms show ?thesis by (auto simp: in_phase_def split: if_splits intro!: set_phase_looping(1))
qed (use assms in \<open>auto simp: keeps_going_def looping_def split: if_splits list.splits\<close>)

lemma run_looping:
  "sched_run lib og es s = Some s' \<Longrightarrow> list_all keeps_going es \<Longrightarrow> looping s \<Longrightarrow>
     looping s' \<and> map identity_of (ss_routines s') = map identity_of (ss_routines s)"
proof (induction es arbitrary: s)
  case (Cons e es)
  then obtain t where "sched_step lib og e s = Some t" "sched_run lib og es t = Some s'" by (auto split: option.splits)
  with Cons step_looping [of lib og e s t] step_identity [of lib og e s t] show ?case by simp
qed simp

lemma Start_looping: "looping (Start cv sc)"
proof -
  have "live g" if "g \<in> set (startLoops cv sc cs) \<union> set (runInitial sc cs)" for g cs
    using that startLoops_live [of cv sc cs] runInitial_live [of sc cs] by (auto simp: filter_id_conv)
  then show ?thesis by (auto simp: looping_def Start_def Let_def)
qed

lemma from_call_0 [simp]: "from_call 0 ck = ck"
  by (simp add: from_call_def)

text \<open>The results recorded within a number of steps.\<close>

definition records_within :: "golib \<Rightarrow> Origin option \<Rightarrow> nat \<Rightarrow> sched_state \<Rightarrow> Result list \<Rightarrow> bool" where
  "records_within lib og n s rs \<longleftrightarrow> (\<exists>es s'. length es \<le> n \<and> sched_run lib og es s = Some s' \<and> ss_recorded s' = rs)"

lemma records_step:
  "sched_step lib og e s = Some t \<Longrightarrow> records_within lib og n t rs \<Longrightarrow> records_within lib og (Suc n) s rs"
  unfolding records_within_def by (elim exE) (rule_tac x = "e # es" in exI, auto)

lemma records_mono: "records_within lib og n s rs \<Longrightarrow> n \<le> m \<Longrightarrow> records_within lib og m s rs"
  unfolding records_within_def using le_trans by blast

text \<open>The next run of goroutine \<open>i\<close>, from wherever it is.\<close>

definition next_result :: "golib \<Rightarrow> Origin option \<Rightarrow> routine \<Rightarrow> Result" where
  "next_result lib og g = annotate lib (g_check g) (fst (RunWithRetry (\<lambda>_. False) (g_checker g) (g_check g) og))"

lemma next_result_phase [simp]: "next_result lib og (g \<lparr> g_phase := p \<rparr>) = next_result lib og g"
  by (simp add: next_result_def)

lemma in_phase_set [simp]: "i < length (ss_routines s) \<Longrightarrow> in_phase i p (set_phase i p s)"
  "i < length (ss_routines s) \<Longrightarrow> ss_routines (set_phase i p s) ! i = (ss_routines s ! i) \<lparr> g_phase := p \<rparr>"
  "ss_recorded (set_phase i p s) = ss_recorded s" "ss_recorded (finish i s) = ss_recorded s"
  by (simp_all add: in_phase_def set_phase_def finish_def)

lemma run_executing:
  "in_phase i Executing s \<Longrightarrow> records_within lib og 1 s (ss_recorded s @ [next_result lib og (ss_routines s ! i)])"
  unfolding records_within_def
  by (intro exI [of _ "[Run i 0 (\<lambda>_. False)]"]) (simp add: Let_def execute_def publish_def next_result_def)

lemma run_staggering:
  assumes "in_phase i Staggering s"
  shows "records_within lib og 2 s (ss_recorded s @ [next_result lib og (ss_routines s ! i)])"
proof -
  have "i < length (ss_routines s)" using assms by (simp add: in_phase_def)
  with run_executing [of i "set_phase i Executing s" lib og]
  have "records_within lib og 1 (set_phase i Executing s) (ss_recorded s @ [next_result lib og (ss_routines s ! i)])" by simp
  with assms show ?thesis
    using records_step [of lib og "StaggerElapsed i" s "set_phase i Executing s" 1] by (simp add: numeral_2_eq_2)
qed

lemma next_run:
  assumes "i < length (ss_routines s)" "live (ss_routines s ! i)"
  shows "records_within lib og 3 s (ss_recorded s @ [next_result lib og (ss_routines s ! i)])"
proof (cases "g_phase (ss_routines s ! i)")
  case Executing
  with assms(1) run_executing [of i s lib og] show ?thesis by (auto simp: in_phase_def elim: records_mono)
next
  case Staggering
  with assms(1) run_staggering [of i s lib og] show ?thesis by (auto simp: in_phase_def elim: records_mono)
next
  case Waiting
  let ?t = "set_phase i (if g_stagger (ss_routines s ! i) > 0 then Staggering else Executing) s"
  have "records_within lib og 2 ?t (ss_recorded ?t @ [next_result lib og (ss_routines ?t ! i)])"
  proof (cases "g_stagger (ss_routines s ! i) > 0")
    case True
    then show ?thesis using assms(1) by (intro run_staggering) simp
  next
    case False
    then have "records_within lib og 1 ?t (ss_recorded ?t @ [next_result lib og (ss_routines ?t ! i)])"
      using assms(1) by (intro run_executing) simp
    then show ?thesis by (rule records_mono) simp
  qed
  then have "records_within lib og 2 ?t (ss_recorded s @ [next_result lib og (ss_routines s ! i)])"
    using assms(1) by simp
  moreover have "sched_step lib og (TimerFired i) s = Some ?t" using Waiting assms(1) by (simp add: in_phase_def)
  ultimately show ?thesis using records_step [of lib og "TimerFired i" s ?t 2] by (simp add: numeral_3_eq_3)
next
  case Finished
  then show ?thesis using assms(2) by (simp add: live_def)
qed

text \<open>
  Property C30. Checks keep running. While the context is not cancelled and the cron library computes the next
  ticks, whatever else has happened, every configured check with a registered checker and a valid
  schedule has exactly the one loop that \<open>Start\<close> gave it, so its scheduled runs never overlap, and
  within three steps of this loop it is run again and its result recorded.
\<close>

theorem checks_keep_running:
  assumes "sched_run lib (sc_origin sc) es (Start cv sc) = Some s" and "list_all keeps_going es"
  shows "map g_check (filter g_recurring (ss_routines s)) =
      filter (\<lambda>c. Get (sc_registry sc) (c_type c) \<noteq> None \<and> cv (c_schedule c)) (sc_checks sc)
    \<and> (\<forall>c \<in> set (sc_checks sc). \<forall>ck. Get (sc_registry sc) (c_type c) = Some ck \<and> cv (c_schedule c) \<longrightarrow>
         (\<exists>es' s'. length es' \<le> 3 \<and> sched_run lib (sc_origin sc) es' s = Some s'
            \<and> ss_recorded s' = ss_recorded s @ [annotate lib c (fst (RunWithRetry (\<lambda>_. False) ck c (sc_origin sc)))]))"
proof -
  from run_looping [OF assms Start_looping] have loop: "looping s"
    and ident: "map identity_of (ss_routines s) = map identity_of (ss_routines (Start cv sc))" by simp_all
  have recs: "map g_check (filter g_recurring gs) = map (\<lambda>(r, c, k). c) (filter fst (map identity_of gs))" for gs
    by (induction gs) (auto simp: identity_of_def)
  have starts: "ss_routines (Start cv sc) = startLoops cv sc (sc_checks sc) @ runInitial sc (sc_checks sc)"
    by (simp add: Start_def Let_def)
  have "map g_check (filter g_recurring (ss_routines s)) =
      filter (\<lambda>c. Get (sc_registry sc) (c_type c) \<noteq> None \<and> cv (c_schedule c)) (sc_checks sc)"
    unfolding recs ident unfolding recs [symmetric] starts
    by (simp add: startLoops_recurring runInitial_once startLoops_checks)
  moreover have "\<exists>es' s'. length es' \<le> 3 \<and> sched_run lib (sc_origin sc) es' s = Some s'
      \<and> ss_recorded s' = ss_recorded s @ [annotate lib c (fst (RunWithRetry (\<lambda>_. False) ck c (sc_origin sc)))]"
    if c: "c \<in> set (sc_checks sc)" "Get (sc_registry sc) (c_type c) = Some ck" "cv (c_schedule c)" for c ck
  proof -
    from c have "c \<in> set (map g_check (startLoops cv sc (sc_checks sc)))" by (simp add: startLoops_checks)
    then obtain g where g: "g \<in> set (startLoops cv sc (sc_checks sc))" "g_check g = c" by auto
    then have "g_checker g = ck" "g_recurring g"
      using c(2) startLoops_ok [OF g(1)] startLoops_recurring [of cv sc "sc_checks sc"] by (auto simp: filter_id_conv)
    with g have "(True, c, ck) \<in> set (map identity_of (ss_routines s))"
      unfolding ident starts by (force simp: identity_of_def)
    then obtain i where i: "i < length (ss_routines s)" "identity_of (ss_routines s ! i) = (True, c, ck)"
      by (auto simp: in_set_conv_nth)
    with loop have "live (ss_routines s ! i)" by (auto simp: looping_def identity_of_def)
    from next_run [OF i(1) this, of lib "sc_origin sc"] i(2) show ?thesis
      by (auto simp: identity_of_def records_within_def next_result_def)
  qed
  ultimately show ?thesis by blast
qed

theorem checks_keep_running_witness:
  "\<exists>s es' s' r. sched_run sample_lib None [Run 1 0 (\<lambda>_. False), TimerFired 0] (Start (\<lambda>_. True) sample_sched) = Some s
     \<and> sched_run sample_lib None es' s = Some s' \<and> ss_recorded s' = ss_recorded s @ [r] \<and> length (ss_recorded s) = 1"
proof -
  have og: "sc_origin sample_sched = None" "sc_checks sample_sched = [sample_check]"
    "Get (sc_registry sample_sched) (c_type sample_check) = Some sample_checker"
    by (simp_all add: sample_sched_def sample_check_def sample_checker_def Get_def Register_def)
  have "\<exists>s. sched_run sample_lib None [Run 1 0 (\<lambda>_. False), TimerFired 0] (Start (\<lambda>_. True) sample_sched) = Some s
      \<and> length (ss_recorded s) = 1"
    by (simp add: in_phase_def Start_sample finish_def set_phase_def execute_def publish_def Let_def) (simp add: Start_def Let_def)
  then obtain s where s: "sched_run sample_lib None [Run 1 0 (\<lambda>_. False), TimerFired 0] (Start (\<lambda>_. True) sample_sched) = Some s"
    "length (ss_recorded s) = 1" by blast
  have "list_all keeps_going [Run 1 0 (\<lambda>_. False), TimerFired 0]" by (simp add: keeps_going_def)
  from checks_keep_running [OF s(1) [folded og(1)] this] og s show ?thesis by fastforce
qed

text \<open>
  What \<open>execute\<close> records and publishes: the outcome of \<open>RunWithRetry\<close> with the
  group and the target of the check; it is marked degraded exactly when a threshold is configured,
  the check succeeded and its latency (the average round trip for ICMP) is above the threshold,
  and it reaches the channel exactly when that has a free place.
\<close>

theorem execute_publishes:
  assumes "\<not> ss_closed s"
    and "r = fst (RunWithRetry cancelled ck cfg og)" and "\<not> r_degraded r"
  shows "\<exists>p. ss_recorded (execute lib cancelled ck cfg og s) = ss_recorded s @ [p]
    \<and> r_group p = c_group cfg \<and> r_target p = Target lib cfg
    \<and> r_success p = r_success r \<and> r_error p = r_error r \<and> r_retries p = r_retries r
    \<and> (r_degraded p \<longleftrightarrow> 0 < c_degraded_after cfg \<and> r_success r
         \<and> c_degraded_after cfg < DegradedLatency r)
    \<and> ss_results (execute lib cancelled ck cfg og s) =
        (if length (ss_results s) < 100 then ss_results s @ [p] else ss_results s)"
  using assms
  by (intro exI [where x = "annotate lib cfg r"])
     (auto simp: execute_def publish_def annotate_def Let_def DegradedLatency_def results_capacity_def)

theorem execute_publishes_witness:
  "\<exists>p. ss_recorded (execute sample_lib (\<lambda>_. False) sample_checker sample_check None
        (Start (\<lambda>_. True) sample_sched)) = [p] \<and> r_success p \<and> r_retries p = 1"
proof -
  have "RunWithRetry (\<lambda>_. False) sample_checker sample_check None =
      ((ck_run sample_checker 1 sample_check None) \<lparr> r_retries := 1 \<rparr>, [Second])"
    by (simp add: RunWithRetry_def sample_check_def sample_checker_def Let_def firstDelay_def numeral_2_eq_2)
  then show ?thesis
    using execute_publishes [where s = "Start (\<lambda>_. True) sample_sched" and cancelled = "\<lambda>_. False" and
        ck = sample_checker and cfg = sample_check and og = None and lib = sample_lib, OF _ refl]
    by (auto simp: Start_def Let_def sample_checker_def)
qed

end
