(* ===== verification/Budgets.thy ===== *)
theory Budgets
  imports Check_Result
begin

text \<open>
  Performance budgets: \<open>internal/budget/budget.go\<close> and \<open>reporter.go\<close>. The YAML decoder and the
  file system are arguments of \<open>LoadBudgets\<close>; a report is the list of lines written, or the
  struct handed to the JSON encoder.
\<close>

section \<open>Data\<close>

record Budget =
  bd_check :: string
  bd_thresholds :: "(string, float64) gomap"
  bd_alert_on :: string

record Violation =
  vi_check :: string
  vi_metric :: string
  vi_threshold :: float64
  vi_actual :: float64
  vi_inherited :: bool

record CheckResult =
  cr_check :: string
  cr_metric :: string
  cr_threshold :: float64
  cr_actual :: float64
  cr_inherited :: bool
  cr_violated :: bool

datatype budget_error = ReadingBudgets string | ParsingBudgets string

section \<open>Loading\<close>

definition defaultAlertOn :: "Budget \<Rightarrow> Budget" where
  "defaultAlertOn b = (if bd_alert_on b = '''' then b \<lparr> bd_alert_on := ''exceed'' \<rparr> else b)"

definition LoadBudgets ::
  "(string \<Rightarrow> string option) \<Rightarrow> (string \<Rightarrow> Budget list option) \<Rightarrow> string \<Rightarrow> budget_error + Budget list"
where
  "LoadBudgets read_file unmarshal path =
     (case read_file path of
        None \<Rightarrow> Inl (ReadingBudgets path)
      | Some data \<Rightarrow>
          (case unmarshal data of
             None \<Rightarrow> Inl (ParsingBudgets path)
           | Some budgets \<Rightarrow> Inr (map defaultAlertOn budgets)))"

definition LoadBudgetsFromDir ::
  "golib \<Rightarrow> (string \<Rightarrow> string option) \<Rightarrow> (string \<Rightarrow> Budget list option) \<Rightarrow> string \<Rightarrow> budget_error + Budget list"
where
  "LoadBudgetsFromDir lib read_file unmarshal configPath =
     LoadBudgets read_file unmarshal (path_join lib (path_dir lib configPath) ''budgets.yml'')"

section \<open>Evaluation\<close>

definition put :: "string \<Rightarrow> float64 \<Rightarrow> (string, float64) gomap \<Rightarrow> (string, float64) gomap" where
  "put k v m = AList.update k v m"

definition extractMetrics :: "Result \<Rightarrow> (string, float64) gomap" where
  "extractMetrics r =
     (let m0 = [(''duration'', of_int (milliseconds (r_duration r)))];
          m1 = (if r_type r = ''http''
                then put ''response_bytes'' (of_int (r_response_bytes r))
                       (put ''tls'' (of_int (milliseconds (r_tls_duration r)))
                         (put ''dns'' (of_int (milliseconds (r_dns_duration r)))
                           (put ''ttfb'' (of_int (milliseconds (r_ttfb_duration r))) m0)))
                else m0);
          m2 = (case r_web_vitals r of
                  None \<Rightarrow> m1
                | Some v \<Rightarrow>
                    (let a = put ''cls'' (wv_cls v) (put ''lcp'' (wv_lcp v)
                               (put ''fcp'' (wv_fcp v) (put ''ttfb'' (wv_ttfb v) m1)));
                         b = (if wv_inp v > 0 then put ''inp'' (wv_inp v) a else a)
                     in put ''dom_complete'' (wv_dom_complete v) b));
          m3 = (case r_har_data r of
                  None \<Rightarrow> m2
                | Some h \<Rightarrow> put ''total_transfer'' (of_int (hd_total_transfer_bytes h)) m2)
      in put ''resource_count'' (of_int (r_resource_count r)) m3)"

type_synonym thresholds = "(string, float64 \<times> bool) gomap"

text \<open>
  The two loops that fill \<open>thresholds\<close> and \<open>inherited\<close>, two maps with the same keys: one map to
  pairs.
\<close>

definition mergeOne :: "bool \<Rightarrow> Budget \<Rightarrow> thresholds \<Rightarrow> thresholds" where
  "mergeOne inh b ts = fold (\<lambda>(metric, t). AList.update metric (t, inh)) (bd_thresholds b) ts"

fun mergeLoop :: "string \<Rightarrow> bool \<Rightarrow> Budget list \<Rightarrow> thresholds \<Rightarrow> thresholds" where
  "mergeLoop name inh [] ts = ts"
| "mergeLoop name inh (b # bs) ts =
     (if bd_check b \<noteq> name then mergeLoop name inh bs ts
      else mergeLoop name inh bs (mergeOne inh b ts))"

definition mergeThresholds :: "string \<Rightarrow> Budget list \<Rightarrow> thresholds" where
  "mergeThresholds name budgets = mergeLoop name False budgets (mergeLoop ''*'' True budgets [])"

fun evaluateLoop ::
  "string \<Rightarrow> (string, float64) gomap \<Rightarrow> thresholds \<Rightarrow> string list \<Rightarrow> CheckResult list"
where
  "evaluateLoop name actuals ts [] = []"
| "evaluateLoop name actuals ts (metric # ms) =
     (case map_of actuals metric of
        None \<Rightarrow> evaluateLoop name actuals ts ms
      | Some actual \<Rightarrow>
          (let (t, inh) = get_or (0, False) (map_of ts) metric
           in \<lparr> cr_check = name, cr_metric = metric, cr_threshold = t, cr_actual = actual,
                cr_inherited = inh, cr_violated = (actual > t) \<rparr>
              # evaluateLoop name actuals ts ms))"

definition EvaluateAll :: "Result \<Rightarrow> Budget list \<Rightarrow> CheckResult list" where
  "EvaluateAll r budgets =
     (let actuals = extractMetrics r; ts = mergeThresholds (r_name r) budgets
      in evaluateLoop (r_name r) actuals ts (sort (gokeys ts)))"

definition violation_of :: "CheckResult \<Rightarrow> Violation" where
  "violation_of c = \<lparr> vi_check = cr_check c, vi_metric = cr_metric c, vi_threshold = cr_threshold c,
     vi_actual = cr_actual c, vi_inherited = cr_inherited c \<rparr>"

fun violationLoop :: "Violation list \<Rightarrow> CheckResult list \<Rightarrow> Violation list" where
  "violationLoop vs [] = vs"
| "violationLoop vs (c # cs) = violationLoop (if cr_violated c then vs @ [violation_of c] else vs) cs"

definition Evaluate :: "Result \<Rightarrow> Budget list \<Rightarrow> Violation list" where
  "Evaluate r budgets = violationLoop [] (EvaluateAll r budgets)"

section \<open>Reports\<close>

definition fmt_f2 :: "float64 \<Rightarrow> string" where
  "fmt_f2 x = fmt_fixed 2 x"

definition Violation_String :: "Violation \<Rightarrow> string" where
  "Violation_String v = vi_check v @ '': '' @ vi_metric v @ '' = '' @ fmt_f2 (vi_actual v)
     @ '' (threshold: '' @ fmt_f2 (vi_threshold v)
     @ (if vi_inherited v then '', inherited from '' @ [CHR 0x22] @ ''*'' @ [CHR 0x22] else '''') @ '')''"

record jsonViolation =
  jv_check :: string
  jv_metric :: string
  jv_threshold :: float64
  jv_actual :: float64
  jv_inherited :: bool
  jv_status :: string

record jsonReport =
  jr_pass :: bool
  jr_violations :: "jsonViolation list"

datatype Reporter = TextReporter | JSONReporter | GHAReporter

datatype report = Lines "string list" | Json jsonReport

definition text_report :: "Violation list \<Rightarrow> string list" where
  "text_report vs =
     (if length vs = 0 then [''All performance budgets passed.'']
      else (utoa (length vs) @ '' budget violation(s) found:'')
           # map (\<lambda>v. ''  FAIL: '' @ Violation_String v) vs)"

definition json_report :: "Violation list \<Rightarrow> jsonReport" where
  "json_report vs = \<lparr> jr_pass = (length vs = 0),
     jr_violations = map (\<lambda>v. \<lparr> jv_check = vi_check v, jv_metric = vi_metric v,
       jv_threshold = vi_threshold v, jv_actual = vi_actual v, jv_inherited = vi_inherited v,
       jv_status = ''fail'' \<rparr>) vs \<rparr>"

definition gha_report :: "Violation list \<Rightarrow> string list" where
  "gha_report vs =
     map (\<lambda>v. ''::warning title=Budget Violation::'' @ Violation_String v) vs
     @ (if length vs > 0
        then [''::error title=Budget Check Failed::'' @ utoa (length vs) @ '' budget violation(s) found'']
        else [])"

definition NewReporter :: "string \<Rightarrow> Reporter" where
  "NewReporter format =
     (let f = ToLower format
      in if f = ''json'' then JSONReporter
         else if f = ''gha'' \<or> f = ''github'' then GHAReporter
         else TextReporter)"

fun Report :: "Reporter \<Rightarrow> Violation list \<Rightarrow> report" where
  "Report TextReporter vs = Lines (text_report vs)"
| "Report JSONReporter vs = Json (json_report vs)"
| "Report GHAReporter vs = Lines (gha_report vs)"

section \<open>The effective threshold of a metric\<close>

text \<open>
  The specification: the threshold of a metric is that of the last entry for the check itself, or
  else that of the last entry for \<open>*\<close>, which is then inherited.
\<close>

fun last_threshold :: "string \<Rightarrow> Budget list \<Rightarrow> string \<Rightarrow> float64 option" where
  "last_threshold name [] metric = None"
| "last_threshold name (b # bs) metric =
     (case last_threshold name bs metric of
        Some t \<Rightarrow> Some t
      | None \<Rightarrow> if bd_check b = name then map_of (bd_thresholds b) metric else None)"

definition effective :: "string \<Rightarrow> Budget list \<Rightarrow> string \<Rightarrow> (float64 \<times> bool) option" where
  "effective name bs metric =
     (case last_threshold name bs metric of
        Some t \<Rightarrow> Some (t, False)
      | None \<Rightarrow> map_option (\<lambda>t. (t, True)) (last_threshold ''*'' bs metric))"

definition go_budgets :: "Budget list \<Rightarrow> bool" where
  "go_budgets bs \<longleftrightarrow> list_all (\<lambda>b. gomap_ok (bd_thresholds b)) bs"

lemma mergeOne_lookup:
  assumes "gomap_ok (bd_thresholds b)"
  shows "map_of (mergeOne inh b ts) metric =
    (case map_of (bd_thresholds b) metric of None \<Rightarrow> map_of ts metric | Some t \<Rightarrow> Some (t, inh))"
proof -
  have "map_of (rev (map (\<lambda>(k, v). (k, (v, inh))) (bd_thresholds b))) =
      map_of (map (\<lambda>(k, v). (k, (v, inh))) (bd_thresholds b))"
    using assms by (subst map_of_inject_set) (auto simp: gomap_ok_def comp_def case_prod_beta rev_map [symmetric])
  then show ?thesis
    unfolding mergeOne_def using gm.lookup_put_all [of "\<lambda>k v. (v, inh)" "bd_thresholds b" ts]
    by (simp add: map_add_def map_of_map split: option.split)
qed

lemma mergeLoop_ok: "gomap_ok ts \<Longrightarrow> gomap_ok (mergeLoop name inh bs ts)"
  by (induction bs arbitrary: ts)
     (auto simp: mergeOne_def intro!: gm.ok_put_all [where f = "\<lambda>k v. (v, inh)", simplified])

lemma mergeLoop_lookup:
  "go_budgets bs \<Longrightarrow> map_of (mergeLoop name inh bs ts) metric =
    (case last_threshold name bs metric of None \<Rightarrow> map_of ts metric | Some t \<Rightarrow> Some (t, inh))"
proof (induction bs arbitrary: ts)
  case (Cons b bs)
  then have "gomap_ok (bd_thresholds b)" "go_budgets bs" by (simp_all add: go_budgets_def)
  with Cons.IH mergeOne_lookup [of b inh] show ?case by (auto split: option.splits)
qed simp

lemma mergeThresholds_lookup: "go_budgets bs \<Longrightarrow> map_of (mergeThresholds name bs) = effective name bs"
  by (rule ext)
     (auto simp: mergeThresholds_def mergeLoop_lookup effective_def split: option.split)

lemma mergeThresholds_ok: "gomap_ok (mergeThresholds name bs)"
  by (simp add: mergeThresholds_def mergeLoop_ok)

lemma evaluateLoop_map:
  "evaluateLoop name actuals ts ms =
     map (\<lambda>metric. \<lparr> cr_check = name, cr_metric = metric,
            cr_threshold = fst (get_or (0, False) (map_of ts) metric),
            cr_actual = the (map_of actuals metric),
            cr_inherited = snd (get_or (0, False) (map_of ts) metric),
            cr_violated = (the (map_of actuals metric) > fst (get_or (0, False) (map_of ts) metric)) \<rparr>)
       (filter (\<lambda>metric. map_of actuals metric \<noteq> None) ms)"
  by (induction ms) (auto simp: case_prod_beta split: option.split)

text \<open>
  Property C23. \<open>EvaluateAll\<close> has one entry, in alphabetical order of the metrics, for every
  metric that the result has and that has a threshold: that of the last entry for the check, or
  else of the last \<open>*\<close> entry, in which case it is marked inherited; it is violated exactly when
  the actual value is above the threshold.
\<close>

theorem EvaluateAll_spec:
  assumes "go_budgets bs"
  shows "EvaluateAll r bs =
    map (\<lambda>metric. (let (t, inh) = the (effective (r_name r) bs metric);
                       actual = the (map_of (extractMetrics r) metric)
          in \<lparr> cr_check = r_name r, cr_metric = metric, cr_threshold = t, cr_actual = actual,
               cr_inherited = inh, cr_violated = (t < actual) \<rparr>))
      (filter (\<lambda>metric. map_of (extractMetrics r) metric \<noteq> None)
        (sorted_list_of_set (dom (effective (r_name r) bs))))"
proof -
  let ?ts = "mergeThresholds (r_name r) bs"
  have keys: "sort (gokeys ?ts) = sorted_list_of_set (dom (effective (r_name r) bs))"
    using gm.distinct_keys [OF mergeThresholds_ok] gm.set_keys [of ?ts]
      mergeThresholds_lookup [OF assms]
    by (metis distinct_remdups_id sorted_list_of_set_sort_remdups)
  have fin: "finite (dom (effective (r_name r) bs))"
    using finite_dom_map_of [of ?ts] by (simp add: mergeThresholds_lookup [OF assms])
  show ?thesis
    unfolding EvaluateAll_def Let_def evaluateLoop_map keys mergeThresholds_lookup [OF assms]
    by (rule map_cong [OF refl]) (auto simp: fin get_or_def)
qed

definition sample_budgets :: "Budget list" where
  "sample_budgets =
     [\<lparr> bd_check = ''*'', bd_thresholds = [(''duration'', 500), (''lcp'', 2500)], bd_alert_on = ''exceed'' \<rparr>,
      \<lparr> bd_check = ''home'', bd_thresholds = [(''duration'', 800)], bd_alert_on = ''exceed'' \<rparr>]"

theorem EvaluateAll_spec_witness:
  "go_budgets sample_budgets
   \<and> EvaluateAll ((NewResult 1 ''home'' ''tcp'' None) \<lparr> r_duration := 900 * Millisecond \<rparr>) sample_budgets =
     [\<lparr> cr_check = ''home'', cr_metric = ''duration'', cr_threshold = 800, cr_actual = 900,
        cr_inherited = False, cr_violated = True \<rparr>]"
proof -
  let ?r = "(NewResult 1 ''home'' ''tcp'' None) \<lparr> r_duration := 900 * Millisecond \<rparr>"
  have g: "go_budgets sample_budgets"
    by (simp add: go_budgets_def sample_budgets_def gomap_ok_def)
  have eff: "effective ''home'' sample_budgets = [''duration'' \<mapsto> (800, False), ''lcp'' \<mapsto> (2500, True)]"
    by (rule ext) (simp add: effective_def sample_budgets_def)
  have act: "extractMetrics ?r = [(''duration'', 900), (''resource_count'', 0)]"
    by (simp add: extractMetrics_def NewResult_def zeroResult_def put_def milliseconds_def signed_divide_int_def)
  have srt: "sorted_list_of_set {''duration'', ''lcp''} = [''duration'', ''lcp'']"
  proof -
    have "sort (remdups [''duration'', ''lcp'']) = [''duration'', ''lcp'']" by code_simp
    then show ?thesis using sorted_list_of_set_sort_remdups [of "[''duration'', ''lcp'']"] by simp
  qed
  show ?thesis
    using EvaluateAll_spec [OF g, of ?r] g
    by (simp add: act [simplified] eff srt insert_commute)
qed

lemma violationLoop_filter: "violationLoop vs cs = vs @ map violation_of (filter cr_violated cs)"
  by (induction cs arbitrary: vs) auto

text \<open>
  The three reports agree with the evaluation: \<open>Evaluate\<close> is the sublist of violated
  entries, the JSON report passes exactly when every evaluated metric is within its threshold and
  lists each violation otherwise, and the text and annotation reports have one line per violation
  and a summary line.
\<close>

theorem reports_agree:
  "Evaluate r bs = map violation_of (filter cr_violated (EvaluateAll r bs))
   \<and> (jr_pass (json_report (Evaluate r bs)) \<longleftrightarrow> list_all (\<lambda>c. cr_actual c \<le> cr_threshold c) (EvaluateAll r bs))
   \<and> length (jr_violations (json_report (Evaluate r bs))) = length (Evaluate r bs)
   \<and> length (text_report (Evaluate r bs)) = Suc (length (Evaluate r bs))
   \<and> length (gha_report (Evaluate r bs)) =
       (if Evaluate r bs = [] then 0 else Suc (length (Evaluate r bs)))"
proof -
  have ev: "Evaluate r bs = map violation_of (filter cr_violated (EvaluateAll r bs))"
    by (simp add: Evaluate_def violationLoop_filter)
  have "cr_violated c = (cr_threshold c < cr_actual c)" if "c \<in> set (EvaluateAll r bs)" for c
    using that by (auto simp: EvaluateAll_def Let_def evaluateLoop_map)
  then have "filter cr_violated (EvaluateAll r bs) = [] \<longleftrightarrow>
      list_all (\<lambda>c. cr_actual c \<le> cr_threshold c) (EvaluateAll r bs)"
    by (auto simp: filter_empty_conv list_all_iff not_less)
  then show ?thesis
    by (auto simp: ev json_report_def text_report_def gha_report_def)
qed

text \<open>
  The metrics a budget can be stated on: every result has its duration and resource
  count, an HTTP result also its phases and size, a browser result its web vitals, which replace
  the time to first byte, and the interaction metric only when it is positive.
\<close>

theorem extractMetrics_lookup:
  "map_of (extractMetrics r) ''duration'' = Some (of_int (milliseconds (r_duration r)))
   \<and> map_of (extractMetrics r) ''resource_count'' = Some (of_int (r_resource_count r))
   \<and> map_of (extractMetrics r) ''ttfb'' =
       (case r_web_vitals r of Some v \<Rightarrow> Some (wv_ttfb v)
        | None \<Rightarrow> if r_type r = ''http'' then Some (of_int (milliseconds (r_ttfb_duration r))) else None)
   \<and> map_of (extractMetrics r) ''response_bytes'' =
       (if r_type r = ''http'' then Some (of_int (r_response_bytes r)) else None)
   \<and> map_of (extractMetrics r) ''lcp'' = map_option wv_lcp (r_web_vitals r)
   \<and> map_of (extractMetrics r) ''inp'' =
       (case r_web_vitals r of None \<Rightarrow> None | Some v \<Rightarrow> if wv_inp v > 0 then Some (wv_inp v) else None)
   \<and> map_of (extractMetrics r) ''total_transfer'' =
       map_option (\<lambda>h. of_int (hd_total_transfer_bytes h)) (r_har_data r)
   \<and> gomap_ok (extractMetrics r)"
proof -
  have ok: "gomap_ok (put k v m) = gomap_ok m" if "gomap_ok m" for k v m
    using that gm.ok_put [of m k v] by (simp add: put_def)
  have lk: "map_of (put k v m) = (map_of m)(k \<mapsto> v)" for k v m
    unfolding put_def by (rule gm.lookup_put)
  have "gomap_ok (extractMetrics r)"
    by (auto simp: extractMetrics_def Let_def ok gomap_ok_def [of "[_]"] split: option.split)
  then show ?thesis
    by (auto simp: extractMetrics_def Let_def lk split: option.split)
qed

end
