(* ===== verification/Metrics.thy ===== *)
theory Metrics
  imports Check_Result
begin

text \<open>
  Prometheus metrics, \<open>internal/metrics/prometheus.go\<close>, and the HAR parser, \<open>har.go\<close>.

  A gauge vector of the client library is the set of its time series: \<open>mt_series\<close> maps a metric
  name and the list of label values to the value last set (\<open>WithLabelValues(...).Set(v)\<close>), in
  the order of labels of the source. \<open>mt_seen\<close>, \<open>mt_max\<close> and \<open>mt_limit\<close> are the variables of
  the cardinality guard. \<open>json.Unmarshal\<close> of a HAR file is an argument of \<open>ParseHARFile\<close>.
\<close>

section \<open>State\<close>

type_synonym series = "string \<times> string list"

record metrics =
  mt_series :: "series \<Rightarrow> float64 option"
  mt_seen :: "string list"
  mt_max :: int
  mt_limit :: bool
  mt_write_errors :: int
  mt_last_run :: gotime

definition init_metrics :: metrics where
  "init_metrics = \<lparr> mt_series = Map.empty, mt_seen = [], mt_max = DefaultMaxCheckCardinality,
     mt_limit = False, mt_write_errors = 0, mt_last_run = 0 \<rparr>"

definition SetMaxCheckCardinality :: "int \<Rightarrow> metrics \<Rightarrow> metrics" where
  "SetMaxCheckCardinality limit m =
     (if limit \<le> 0 then m else m \<lparr> mt_max := limit, mt_limit := False \<rparr>)"

definition RecordStatusStoreWriteError :: "metrics \<Rightarrow> metrics" where
  "RecordStatusStoreWriteError m = m \<lparr> mt_write_errors := mt_write_errors m + 1 \<rparr>"

type_synonym sample = "series \<times> float64"

definition set_gauge :: "sample \<Rightarrow> metrics \<Rightarrow> metrics" where
  "set_gauge s m = m \<lparr> mt_series := (mt_series m)(fst s \<mapsto> snd s) \<rparr>"

record labelSet =
  ls_code :: string
  ls_city :: string
  ls_country :: string

definition siteLabels :: "Result \<Rightarrow> labelSet" where
  "siteLabels r =
     (let get = get_or '''' (map_of (r_labels r))
      in \<lparr> ls_code = get ''region'', ls_city = get ''city'', ls_country = get ''country'' \<rparr>)"

definition originLabels :: "Origin option \<Rightarrow> labelSet" where
  "originLabels og =
     (case og of None \<Rightarrow> \<lparr> ls_code = '''', ls_city = '''', ls_country = '''' \<rparr>
      | Some x \<Rightarrow> \<lparr> ls_code = o_id x, ls_city = o_city x, ls_country = o_country x \<rparr>)"

definition site :: "labelSet \<Rightarrow> string list" where
  "site l = [ls_code l, ls_city l, ls_country l]"

definition flag :: "bool \<Rightarrow> float64" where
  "flag b = (if b then 1 else 0)"

section \<open>The samples of a result\<close>

text \<open>The functions \<open>recordHTTPMetrics\<close> and so on, each as the list of samples it sets.\<close>

definition named :: "string \<Rightarrow> Result \<Rightarrow> labelSet \<Rightarrow> float64 \<Rightarrow> sample" where
  "named metric r l v = ((metric, r_name r # site l), v)"

definition typed :: "string \<Rightarrow> Result \<Rightarrow> labelSet \<Rightarrow> float64 \<Rightarrow> sample" where
  "typed metric r l v = ((metric, r_type r # r_name r # site l), v)"

definition recordHTTPMetrics :: "Result \<Rightarrow> labelSet \<Rightarrow> sample list" where
  "recordHTTPMetrics r l =
     [named ''technician_http_response_status'' r l (of_int (r_status_code r)),
      named ''technician_http_dns_seconds'' r l (seconds (r_dns_duration r)),
      named ''technician_http_tls_seconds'' r l (seconds (r_tls_duration r)),
      named ''technician_http_connect_seconds'' r l (seconds (r_conn_duration r)),
      named ''technician_http_ttfb_seconds'' r l (seconds (r_ttfb_duration r)),
      named ''technician_http_transfer_seconds'' r l (seconds (r_transfer_duration r)),
      named ''technician_http_response_bytes'' r l (of_int (r_response_bytes r))]"

text \<open>The two maps that \<open>recordHARMetrics\<close> fills per resource type.\<close>

definition harType :: "HAREntry \<Rightarrow> string" where
  "harType e = (if he_resource_type e = '''' then ''other'' else he_resource_type e)"

definition harDurations :: "HAREntry list \<Rightarrow> (string, float64) gomap" where
  "harDurations es =
     fold (\<lambda>e m. AList.update (harType e) (get_or 0 (map_of m) (harType e) + he_duration e) m) es []"

definition harBytes :: "HAREntry list \<Rightarrow> (string, int) gomap" where
  "harBytes es =
     fold (\<lambda>e m. AList.update (harType e) (wrap64 (get_or 0 (map_of m) (harType e) + he_transfer_size e)) m) es []"

definition recordHARMetrics :: "Result \<Rightarrow> labelSet \<Rightarrow> sample list" where
  "recordHARMetrics r l =
     (case r_har_data r of
        None \<Rightarrow> []
      | Some h \<Rightarrow>
          map (\<lambda>(rt, dur). ((''technician_har_resource_duration_ms'', r_name r # rt # site l), dur))
            (harDurations (hd_entries h))
          @ map (\<lambda>(rt, b). ((''technician_har_resource_bytes'', r_name r # rt # site l), of_int b))
            (harBytes (hd_entries h)))"

definition browser :: "string \<Rightarrow> Result \<Rightarrow> labelSet \<Rightarrow> float64 \<Rightarrow> sample" where
  "browser metric r l v =
     ((metric, r_name r # get_or '''' (map_of (r_labels r)) ''network''
        # get_or '''' (map_of (r_labels r)) ''device'' # site l), v)"

definition recordBrowserMetrics :: "Result \<Rightarrow> labelSet \<Rightarrow> sample list" where
  "recordBrowserMetrics r l =
     (case r_web_vitals r of
        None \<Rightarrow> []
      | Some v \<Rightarrow>
          [browser ''technician_browser_ttfb_ms'' r l (wv_ttfb v),
           browser ''technician_browser_fcp_ms'' r l (wv_fcp v),
           browser ''technician_browser_lcp_ms'' r l (wv_lcp v),
           browser ''technician_browser_cls'' r l (wv_cls v)]
          @ (if wv_inp v > 0 then [browser ''technician_browser_inp_ms'' r l (wv_inp v)] else [])
          @ [browser ''technician_browser_dom_complete_ms'' r l (wv_dom_complete v)])
     @ (case r_har_data r of
          None \<Rightarrow> []
        | Some h \<Rightarrow>
            [browser ''technician_browser_total_transfer_bytes'' r l (of_int (hd_total_transfer_bytes h)),
             browser ''technician_browser_resource_count'' r l (of_int (r_resource_count r))]
            @ recordHARMetrics r l)"

definition recordTCPMetrics :: "Result \<Rightarrow> labelSet \<Rightarrow> sample list" where
  "recordTCPMetrics r l =
     [named ''technician_tcp_connect_seconds'' r l (seconds (r_tcp_conn_duration r)),
      named ''technician_tcp_tls_seconds'' r l (seconds (r_tcp_tls_duration r))]"

definition recordDNSMetrics :: "Result \<Rightarrow> labelSet \<Rightarrow> sample list" where
  "recordDNSMetrics r l = [named ''technician_dns_query_seconds'' r l (seconds (r_dns_query_time r))]"

definition recordICMPMetrics :: "Result \<Rightarrow> labelSet \<Rightarrow> sample list" where
  "recordICMPMetrics r l =
     [named ''technician_icmp_packet_loss_percent'' r l (r_icmp_loss r),
      named ''technician_icmp_avg_rtt_seconds'' r l (seconds (r_icmp_avg_rtt r))]"

definition recordNTPMetrics :: "Result \<Rightarrow> labelSet \<Rightarrow> sample list" where
  "recordNTPMetrics r l =
     [named ''technician_ntp_offset_ms'' r l (r_ntp_offset_ms r),
      named ''technician_ntp_stratum'' r l (of_int (r_ntp_stratum r)),
      named ''technician_ntp_rtt_seconds'' r l (seconds (r_ntp_rtt r))]"

definition recordUDPMetrics :: "Result \<Rightarrow> labelSet \<Rightarrow> sample list" where
  "recordUDPMetrics r l =
     [named ''technician_udp_rtt_seconds'' r l (seconds (r_udp_rtt r)),
      named ''technician_udp_response_bytes'' r l (of_int (r_udp_response_bytes r))]"

definition recordWebSocketMetrics :: "Result \<Rightarrow> labelSet \<Rightarrow> sample list" where
  "recordWebSocketMetrics r l =
     [named ''technician_ws_connect_seconds'' r l (seconds (r_ws_connect_duration r)),
      named ''technician_ws_message_seconds'' r l (seconds (r_ws_message_duration r))]"

definition recordTLSMetrics :: "Result \<Rightarrow> labelSet \<Rightarrow> sample list" where
  "recordTLSMetrics r l =
     [named ''technician_tls_cert_expiry_days'' r l (of_int (r_cert_days_remaining r)),
      named ''technician_tls_cert_valid'' r l (flag (r_cert_valid r))]"

definition rpkiValue :: "string \<Rightarrow> float64" where
  "rpkiValue st = (if st = ''valid'' then 1 else if HasPrefix st ''invalid'' then 0 else -1)"

definition recordBGPMetrics :: "Result \<Rightarrow> labelSet \<Rightarrow> sample list" where
  "recordBGPMetrics r l =
     [named ''technician_bgp_prefix_visible'' r l (flag (r_bgp_prefix_visible r)),
      named ''technician_bgp_origin_asn'' r l (of_int (r_bgp_origin_asn r)),
      named ''technician_bgp_origin_match'' r l (flag (r_bgp_origin_match r)),
      named ''technician_bgp_rpki_valid'' r l (rpkiValue (r_bgp_rpki_status r))]"

definition recordDomainExpiryMetrics :: "Result \<Rightarrow> labelSet \<Rightarrow> sample list" where
  "recordDomainExpiryMetrics r l =
     [named ''technician_domain_expiry_days'' r l (of_int (r_domain_expiry_days r)),
      named ''technician_domain_registered'' r l (flag (r_domain_registered r))]"

text \<open>The \<open>switch\<close> of \<open>RecordResult\<close> on the type.\<close>

definition typeMetrics :: "Result \<Rightarrow> labelSet \<Rightarrow> sample list" where
  "typeMetrics r l =
     (if r_type r = CheckTypeHTTP then recordHTTPMetrics r l
      else if r_type r = CheckTypePlaywright then recordBrowserMetrics r l
      else if r_type r = CheckTypeTCP then recordTCPMetrics r l
      else if r_type r = CheckTypeDNS then recordDNSMetrics r l
      else if r_type r = CheckTypeICMP then recordICMPMetrics r l
      else if r_type r = CheckTypeNTP then recordNTPMetrics r l
      else if r_type r = CheckTypeTLS then recordTLSMetrics r l
      else if r_type r = CheckTypeUDP then recordUDPMetrics r l
      else if r_type r = CheckTypeWebSocket then recordWebSocketMetrics r l
      else if r_type r = CheckTypeBGP then recordBGPMetrics r l
      else if r_type r = CheckTypeDomainExpiry then recordDomainExpiryMetrics r l
      else [])"

section \<open>Recording\<close>

definition infraSample :: "Result \<Rightarrow> float64 \<Rightarrow> sample" where
  "infraSample r v = typed ''technician_check_infra_error'' r (siteLabels r) v"

text \<open>The cardinality guard: whether the result may be recorded, and the new state.\<close>

definition admit :: "string \<Rightarrow> metrics \<Rightarrow> bool \<times> metrics" where
  "admit name m =
     (if name \<in> set (mt_seen m) then (True, m)
      else if int (length (mt_seen m)) \<ge> mt_max m then (False, m \<lparr> mt_limit := True \<rparr>)
      else (True, m \<lparr> mt_seen := name # mt_seen m \<rparr>))"

definition resultSamples :: "Result \<Rightarrow> sample list" where
  "resultSamples r =
     (let l = siteLabels r
      in [typed ''technician_check_healthy'' r l (flag (r_success r)),
          typed ''technician_check_duration_seconds'' r l (seconds (r_duration r))]
         @ typeMetrics r l
         @ [typed ''technician_check_degraded'' r l (flag (r_degraded r))])"

definition RecordResult :: "gotime \<Rightarrow> Result \<Rightarrow> metrics \<Rightarrow> metrics" where
  "RecordResult now r m =
     (if r_infra_error r then set_gauge (infraSample r 1) m
      else (let m1 = set_gauge (infraSample r 0) m
            in case admit (r_name r) m1 of
                 (False, m2) \<Rightarrow> m2
               | (True, m2) \<Rightarrow> (fold set_gauge (resultSamples r) m2) \<lparr> mt_last_run := now \<rparr>))"

definition RecordBudgetViolation :: "string \<Rightarrow> string \<Rightarrow> bool \<Rightarrow> Origin option \<Rightarrow> metrics \<Rightarrow> metrics" where
  "RecordBudgetViolation checkName metricName violated og m =
     set_gauge ((''technician_budget_violation'', checkName # metricName # site (originLabels og)), flag violated) m"

section \<open>HAR files\<close>

record HARFileEntry =
  hf_url :: string
  hf_status :: int
  hf_content_size :: int
  hf_mime_type :: string
  hf_body_size :: int
  hf_time :: float64

text \<open>\<open>searchString\<close> with its loop over the positions.\<close>

fun searchFrom :: "string \<Rightarrow> string \<Rightarrow> nat \<Rightarrow> nat \<Rightarrow> bool" where
  "searchFrom s sub i 0 = False"
| "searchFrom s sub i (Suc n) =
     (if take (length sub) (drop i s) = sub then True else searchFrom s sub (Suc i) n)"

definition searchString :: "string \<Rightarrow> string \<Rightarrow> bool" where
  "searchString s sub = searchFrom s sub 0 (nat (int (length s) - int (length sub) + 1))"

definition contains :: "string \<Rightarrow> string \<Rightarrow> bool" where
  "contains s sub \<longleftrightarrow> length s \<ge> length sub \<and> searchString s sub"

definition classifyMimeType :: "string \<Rightarrow> string" where
  "classifyMimeType mime =
     (if mime = '''' then ''other''
      else if contains mime ''html'' then ''document''
      else if contains mime ''javascript'' \<or> contains mime ''ecmascript'' then ''script''
      else if contains mime ''css'' then ''stylesheet''
      else if contains mime ''image'' then ''image''
      else if contains mime ''font'' \<or> contains mime ''woff'' \<or> contains mime ''ttf'' \<or> contains mime ''otf'' then ''font''
      else if contains mime ''json'' \<or> contains mime ''xml'' then ''xhr''
      else ''other'')"

definition transferSize :: "HARFileEntry \<Rightarrow> int" where
  "transferSize e = (if hf_body_size e < 0 then hf_content_size e else hf_body_size e)"

definition harEntry :: "HARFileEntry \<Rightarrow> HAREntry" where
  "harEntry e = \<lparr> he_url = hf_url e, he_resource_type = classifyMimeType (hf_mime_type e),
     he_duration = hf_time e, he_transfer_size = transferSize e,
     he_response_size = hf_content_size e, he_status = hf_status e \<rparr>"

definition ParseHARFile :: "(string \<Rightarrow> HARFileEntry list option) \<Rightarrow> string \<Rightarrow> HARData option" where
  "ParseHARFile unmarshal data =
     (case unmarshal data of
        None \<Rightarrow> None
      | Some entries \<Rightarrow>
          Some \<lparr> hd_entries = map harEntry entries,
                 hd_total_transfer_bytes = fold (\<lambda>e t. wrap64 (t + transferSize e)) entries 0 \<rparr>)"

section \<open>The cardinality guard\<close>

lemma set_gauge_frame [simp]:
  "mt_seen (set_gauge s m) = mt_seen m" "mt_max (set_gauge s m) = mt_max m"
  "mt_limit (set_gauge s m) = mt_limit m" "mt_last_run (set_gauge s m) = mt_last_run m"
  by (simp_all add: set_gauge_def)

lemma set_gauges_frame [simp]:
  "mt_seen (fold set_gauge ss m) = mt_seen m" "mt_max (fold set_gauge ss m) = mt_max m"
  by (induction ss arbitrary: m) simp_all

lemma set_gauges_series:
  "mt_series (fold set_gauge ss m) = mt_series m ++ map_of (rev ss)"
  by (induction ss rule: rev_induct) (auto simp: set_gauge_def map_add_def fun_eq_iff split: option.split)

text \<open>The check name among the label values of a series.\<close>

definition typed_metrics :: "string list" where
  "typed_metrics = [''technician_check_healthy'', ''technician_check_duration_seconds'',
     ''technician_check_infra_error'', ''technician_check_degraded'']"

definition series_name :: "series \<Rightarrow> string" where
  "series_name s = (if fst s \<in> set typed_metrics then snd s ! 1 else snd s ! 0)"

definition guarded :: "series \<Rightarrow> bool" where
  "guarded s \<longleftrightarrow> fst s \<noteq> ''technician_check_infra_error'' \<and> fst s \<noteq> ''technician_budget_violation''"

lemma typeMetrics_name: "s \<in> set (typeMetrics r l) \<Longrightarrow> series_name (fst s) = r_name r"
  by (auto simp: typeMetrics_def recordHTTPMetrics_def recordBrowserMetrics_def recordTCPMetrics_def
      recordDNSMetrics_def recordICMPMetrics_def recordNTPMetrics_def recordTLSMetrics_def
      recordUDPMetrics_def recordWebSocketMetrics_def recordBGPMetrics_def recordDomainExpiryMetrics_def
      recordHARMetrics_def named_def browser_def series_name_def typed_metrics_def
      split: if_splits option.splits)

lemma resultSamples_name: "s \<in> set (resultSamples r) \<Longrightarrow> series_name (fst s) = r_name r"
proof -
  have t: "series_name (fst (typed mt r l v)) = r_name r" if "mt \<in> set typed_metrics" for mt l v
    using that by (simp add: typed_def series_name_def)
  assume "s \<in> set (resultSamples r)"
  then show ?thesis
    by (auto simp: resultSamples_def Let_def typed_metrics_def intro: typeMetrics_name t)
qed

definition cardinality_inv :: "metrics \<Rightarrow> bool" where
  "cardinality_inv m \<longleftrightarrow> distinct (mt_seen m) \<and> int (length (mt_seen m)) \<le> mt_max m
     \<and> (\<forall>s. guarded s \<longrightarrow> mt_series m s \<noteq> None \<longrightarrow> series_name s \<in> set (mt_seen m))"

lemma set_gauges_inv:
  assumes "cardinality_inv m" "\<And>s. s \<in> set ss \<Longrightarrow> guarded (fst s) \<Longrightarrow> series_name (fst s) \<in> set (mt_seen m)"
  shows "cardinality_inv (fold set_gauge ss m)"
proof -
  have "mt_series m s \<noteq> None \<or> s \<in> fst ` set ss" if "mt_series (fold set_gauge ss m) s \<noteq> None" for s
    using that by (force simp: set_gauges_series map_add_def split: option.splits dest: map_of_SomeD)
  with assms show ?thesis unfolding cardinality_inv_def set_gauges_frame by fastforce
qed

lemma infraSample_unguarded: "\<not> guarded (fst (infraSample r v))"
  by (simp add: infraSample_def typed_def guarded_def)

lemma infra_gauge_inv: "cardinality_inv m \<Longrightarrow> cardinality_inv (set_gauge (infraSample r v) m)"
  using set_gauges_inv [of m "[infraSample r v]"] infraSample_unguarded by simp

lemma admit_inv:
  assumes "cardinality_inv m" "admit n m = (b, m')"
  shows "cardinality_inv m' \<and> (b \<longrightarrow> n \<in> set (mt_seen m'))"
  using assms by (auto simp: admit_def cardinality_inv_def split: if_splits)

lemma RecordResult_inv:
  assumes "cardinality_inv m"
  shows "cardinality_inv (RecordResult now r m)"
proof (cases "r_infra_error r")
  case True
  with assms show ?thesis by (simp add: RecordResult_def infra_gauge_inv)
next
  case False
  obtain b m2 where a: "admit (r_name r) (set_gauge (infraSample r 0) m) = (b, m2)" by fastforce
  from admit_inv [OF infra_gauge_inv [OF assms] a]
  have i: "cardinality_inv m2" "b \<Longrightarrow> r_name r \<in> set (mt_seen m2)" by blast+
  have "cardinality_inv (fold set_gauge (resultSamples r) m2)" if b
    using i that by (intro set_gauges_inv) (auto simp: resultSamples_name)
  with False a i show ?thesis
    by (cases b) (auto simp: RecordResult_def Let_def cardinality_inv_def)
qed

lemma init_metrics_inv: "0 < limit \<Longrightarrow> cardinality_inv (SetMaxCheckCardinality limit init_metrics)"
  by (simp add: cardinality_inv_def SetMaxCheckCardinality_def init_metrics_def)

lemma RecordResult_max [simp]: "mt_max (RecordResult now r m) = mt_max m"
  by (auto simp: RecordResult_def Let_def admit_def)

lemma record_run_inv:
  "cardinality_inv m \<Longrightarrow> cardinality_inv (fold (\<lambda>(now, r). RecordResult now r) rs m)
     \<and> mt_max (fold (\<lambda>(now, r). RecordResult now r) rs m) = mt_max m"
  by (induction rs arbitrary: m) (auto simp: RecordResult_inv)

text \<open>
  Property C33. The cardinality guard: whatever results are recorded, the check names that occur
  in the time series of any metric but the infrastructure-error and budget gauges are at most as
  many as the configured limit.
\<close>

theorem cardinality_bounded:
  assumes "0 < limit"
    and "m = fold (\<lambda>(now, r). RecordResult now r) rs (SetMaxCheckCardinality limit init_metrics)"
  shows "finite (series_name ` {s. guarded s \<and> mt_series m s \<noteq> None})
    \<and> int (card (series_name ` {s. guarded s \<and> mt_series m s \<noteq> None})) \<le> limit"
proof -
  let ?S = "series_name ` {s. guarded s \<and> mt_series m s \<noteq> None}"
  have inv: "cardinality_inv m" and mx: "mt_max m = limit"
    using record_run_inv [OF init_metrics_inv [OF assms(1)], of rs] assms
    by (simp_all add: SetMaxCheckCardinality_def)
  have sub: "?S \<subseteq> set (mt_seen m)" using inv by (auto simp: cardinality_inv_def)
  then have "card ?S \<le> length (mt_seen m)"
    using card_mono [OF _ sub] card_length [of "mt_seen m"] by simp
  with inv mx sub show ?thesis
    using finite_subset [OF sub] by (simp add: cardinality_inv_def)
qed

theorem cardinality_bounded_witness:
  "int (card (series_name ` {s. guarded s \<and> mt_series
     (fold (\<lambda>(now, r). RecordResult now r) [(1, NewResult 1 ''a'' ''tcp'' None), (2, NewResult 1 ''b'' ''tcp'' None)]
       (SetMaxCheckCardinality 1 init_metrics)) s \<noteq> None})) \<le> 1"
  using cardinality_bounded [OF zero_less_one refl,
      where rs = "[(1, NewResult 1 ''a'' ''tcp'' None), (2, NewResult 1 ''b'' ''tcp'' None)]"]
  by (rule conjunct2)

text \<open>
  The infrastructure-error gauge is set before the guard: a name beyond the limit still gets that
  series.
\<close>

lemma infra_gauge_unguarded:
  assumes "\<not> r_infra_error r" "r_name r \<notin> set (mt_seen m)" "mt_max m \<le> int (length (mt_seen m))"
  shows "mt_series (RecordResult now r m) (fst (infraSample r 0)) = Some 0"
  using assms by (simp add: RecordResult_def Let_def admit_def set_gauge_def infraSample_def typed_def)

section \<open>What is recorded\<close>

lemma typeMetrics_metric: "s \<in> set (typeMetrics r l) \<Longrightarrow> fst (fst s) \<notin> set typed_metrics"
  by (auto simp: typeMetrics_def recordHTTPMetrics_def recordBrowserMetrics_def recordTCPMetrics_def
      recordDNSMetrics_def recordICMPMetrics_def recordNTPMetrics_def recordTLSMetrics_def
      recordUDPMetrics_def recordWebSocketMetrics_def recordBGPMetrics_def recordDomainExpiryMetrics_def
      recordHARMetrics_def named_def browser_def typed_metrics_def
      split: if_splits option.splits)

lemma typed_lookup:
  assumes "mt \<in> set typed_metrics"
  shows "map_of (rev (resultSamples r)) (mt, r_type r # r_name r # site (siteLabels r)) =
    map_of [(''technician_check_healthy'', flag (r_success r)),
      (''technician_check_duration_seconds'', seconds (r_duration r)),
      (''technician_check_degraded'', flag (r_degraded r))] mt"
proof -
  have "map_of (rev (typeMetrics r (siteLabels r))) (mt, lvs) = None" for lvs
    using assms typeMetrics_metric [of _ r "siteLabels r"] by (force simp: map_of_eq_None_iff)
  with assms show ?thesis
    by (auto simp: resultSamples_def Let_def typed_def typed_metrics_def map_add_def)
qed

text \<open>
  Recording a result: an infrastructure error sets the infrastructure-error gauge of
  the check to 1 and changes nothing else, so the target metrics keep their last values; any other
  result sets it to 0, and for a name within the limit sets health, duration and degradation of
  the check to the values of the result and the freshness timestamp to the present.
\<close>

theorem RecordResult_gauges:
  assumes "k = r_type r # r_name r # site (siteLabels r)"
  shows "(r_infra_error r \<longrightarrow> mt_series (RecordResult now r m) = (mt_series m)((''technician_check_infra_error'', k) \<mapsto> 1))
    \<and> (\<not> r_infra_error r \<longrightarrow> mt_series (RecordResult now r m) (''technician_check_infra_error'', k) = Some 0)
    \<and> (\<not> r_infra_error r \<and> (r_name r \<in> set (mt_seen m) \<or> int (length (mt_seen m)) < mt_max m) \<longrightarrow>
        mt_series (RecordResult now r m) (''technician_check_healthy'', k) = Some (flag (r_success r))
        \<and> mt_series (RecordResult now r m) (''technician_check_duration_seconds'', k) = Some (seconds (r_duration r))
        \<and> mt_series (RecordResult now r m) (''technician_check_degraded'', k) = Some (flag (r_degraded r))
        \<and> mt_last_run (RecordResult now r m) = now)"
proof -
  note lk = typed_lookup [of _ r, folded assms]
  have "\<forall>mt \<in> set typed_metrics. map_of (rev (resultSamples r)) (mt, k) =
    map_of [(''technician_check_healthy'', flag (r_success r)),
      (''technician_check_duration_seconds'', seconds (r_duration r)),
      (''technician_check_degraded'', flag (r_degraded r))] mt" using lk by blast
  then show ?thesis
    by (auto simp: RecordResult_def Let_def admit_def set_gauges_series map_add_def
        infraSample_def typed_def set_gauge_def assms typed_metrics_def)
qed

theorem RecordResult_gauges_witness:
  "mt_series (RecordResult 5 ((NewResult 1 ''a'' ''tcp'' None) \<lparr> r_success := True \<rparr>) init_metrics)
     (''technician_check_healthy'', [''tcp'', ''a'', '''', '''', '''']) = Some 1"
  using RecordResult_gauges [OF refl, of "(NewResult 1 ''a'' ''tcp'' None) \<lparr> r_success := True \<rparr>" 5 init_metrics]
  by (simp add: init_metrics_def DefaultMaxCheckCardinality_def flag_def siteLabels_def site_def NewResult_labels Let_def)

section \<open>HAR files\<close>

lemma searchFrom_iff:
  "searchFrom s sub i n \<longleftrightarrow> (\<exists>j. i \<le> j \<and> j < i + n \<and> take (length sub) (drop j s) = sub)"
proof (induction n arbitrary: i)
  case (Suc n)
  show ?case
  proof (cases "take (length sub) (drop i s) = sub")
    case True
    then show ?thesis by auto
  next
    case False
    then have "i \<le> j \<and> j < i + Suc n \<and> take (length sub) (drop j s) = sub \<longleftrightarrow>
        Suc i \<le> j \<and> j < Suc i + n \<and> take (length sub) (drop j s) = sub" for j
      by (cases "j = i") auto
    with False Suc show ?thesis by simp
  qed
qed simp

lemma contains_iff: "contains s sub \<longleftrightarrow> sublist sub s"
proof
  assume "contains s sub"
  then obtain j where "take (length sub) (drop j s) = sub"
    by (auto simp: contains_def searchString_def searchFrom_iff)
  then show "sublist sub s" by (metis sublist_drop sublist_order.order.trans sublist_take)
next
  assume "sublist sub s"
  then obtain a b where s: "s = a @ sub @ b" by (auto simp: sublist_def)
  then show "contains s sub"
    by (auto simp: contains_def searchString_def searchFrom_iff intro!: exI [of _ "length a"])
qed

lemma transfer_total:
  "fold (\<lambda>e t. wrap64 (t + transferSize e)) es (wrap64 t) = wrap64 (t + sum_list (map transferSize es))"
proof (induction es arbitrary: t)
  case (Cons e es)
  have "fold (\<lambda>e t. wrap64 (t + transferSize e)) (e # es) (wrap64 t) =
      fold (\<lambda>e t. wrap64 (t + transferSize e)) es (wrap64 (t + transferSize e))"
    by (simp add: wrap64_add_left)
  with Cons [of "t + transferSize e"] show ?case by (simp add: add.assoc)
qed simp

text \<open>
  A parsed HAR file: its total is the sum of the transfer sizes of its entries in 64-bit
  arithmetic, and an entry is classified by the first of the listed fragments that occurs in its
  MIME type.
\<close>

lemma ParseHARFile_total:
  "ParseHARFile u data = Some h \<Longrightarrow>
   hd_total_transfer_bytes h = wrap64 (sum_list (map he_transfer_size (hd_entries h)))"
proof -
  assume "ParseHARFile u data = Some h"
  then obtain es where "h = \<lparr> hd_entries = map harEntry es,
      hd_total_transfer_bytes = fold (\<lambda>e t. wrap64 (t + transferSize e)) es 0 \<rparr>"
    by (auto simp: ParseHARFile_def split: option.splits)
  then show ?thesis
    using transfer_total [of es 0] by (simp add: wrap64_def [of 0] harEntry_def comp_def)
qed

lemma classifyMimeType_cases:
  "sublist ''html'' mime \<Longrightarrow> classifyMimeType mime = ''document''"
  "sublist ''javascript'' mime \<Longrightarrow> \<not> sublist ''html'' mime \<Longrightarrow> classifyMimeType mime = ''script''"
  by (auto simp: classifyMimeType_def contains_iff)

end
