(* ===== verification/Validate_Cmd.thy ===== *)
theory Validate_Cmd
  imports Scheduler Budgets Metrics
begin

text \<open>
  The command \<open>technician validate\<close>, \<open>cmd/validate.go\<close>: the loop of \<open>runValidate\<close> over the
  loaded checks, the report and the exit code. Loading is modelled in the theories of the
  configuration; here the checks, the budgets, the origin and the checkers are arguments.
\<close>

record validate_flags =
  vf_check_type :: string
  vf_exclude_type :: string
  vf_output :: string
  vf_fail_on_error :: bool
  vf_fail_on_budget :: bool

record validation =
  va_violations :: "Violation list"
  va_infra_errors :: "Result list"
  va_metrics :: metrics

definition validateOne ::
  "gotime \<Rightarrow> Origin option \<Rightarrow> Budget list \<Rightarrow> Checker \<Rightarrow> CheckConfig \<Rightarrow> validation \<Rightarrow> validation"
where
  "validateOne now origin budgets checker pc v =
     (let result = fst (RunWithRetry (\<lambda>_. False) checker pc origin);
          v1 = v \<lparr> va_metrics := RecordResult now result (va_metrics v) \<rparr>
      in if r_infra_error result then v1 \<lparr> va_infra_errors := va_infra_errors v1 @ [result] \<rparr>
         else (let violations = Evaluate result budgets
               in v1 \<lparr> va_metrics := fold (\<lambda>x. RecordBudgetViolation (vi_check x) (vi_metric x) True origin)
                         violations (va_metrics v1),
                       va_violations := va_violations v1 @ violations \<rparr>))"

fun validateLoop ::
  "gotime \<Rightarrow> Origin option \<Rightarrow> Budget list \<Rightarrow> ProberRegistry \<Rightarrow> check_type list option \<Rightarrow> check_type list option
   \<Rightarrow> CheckConfig list \<Rightarrow> validation \<Rightarrow> validation"
where
  "validateLoop now origin budgets checkers inc exc [] v = v"
| "validateLoop now origin budgets checkers inc exc (pc # pcs) v =
     (if \<not> shouldRun (c_type pc) inc exc then validateLoop now origin budgets checkers inc exc pcs v
      else (case checkers (c_type pc) of
              None \<Rightarrow> validateLoop now origin budgets checkers inc exc pcs v
            | Some checker \<Rightarrow>
                validateLoop now origin budgets checkers inc exc pcs (validateOne now origin budgets checker pc v)))"

text \<open>The rest of \<open>runValidate\<close>: the report, and the exit code (0 for a return without error).\<close>

definition runValidate ::
  "gotime \<Rightarrow> Config \<Rightarrow> string \<Rightarrow> validate_flags \<Rightarrow> Budget list \<Rightarrow> ProberRegistry \<Rightarrow> CheckConfig list \<Rightarrow> report \<times> int \<times> validation"
where
  "runValidate now cfg originID fl budgets checkers checks =
     (let v0 = \<lparr> va_violations = [], va_infra_errors = [],
                 va_metrics = SetMaxCheckCardinality (pm_max_check_cardinality (cfg_prometheus cfg)) init_metrics \<rparr>;
          v = validateLoop now (ResolveOrigin cfg originID) budgets checkers
                (parseTypeSet (vf_check_type fl)) (parseTypeSet (vf_exclude_type fl)) checks v0
      in (Report (NewReporter (vf_output fl)) (va_violations v),
          if vf_fail_on_error fl \<and> length (va_infra_errors v) > 0 then 1
          else if vf_fail_on_budget fl \<and> length (va_violations v) > 0 then 1
          else 0,
          v))"

section \<open>What is validated\<close>

definition validated :: "ProberRegistry \<Rightarrow> check_type list option \<Rightarrow> check_type list option \<Rightarrow> CheckConfig \<Rightarrow> bool" where
  "validated checkers inc exc pc \<longleftrightarrow> shouldRun (c_type pc) inc exc \<and> checkers (c_type pc) \<noteq> None"

definition outcome :: "Origin option \<Rightarrow> ProberRegistry \<Rightarrow> CheckConfig \<Rightarrow> Result" where
  "outcome origin checkers pc = fst (RunWithRetry (\<lambda>_. False) (the (checkers (c_type pc))) pc origin)"

lemma validateOne_sel:
  "va_infra_errors (validateOne now og bs ck pc v) =
     va_infra_errors v @ filter r_infra_error [fst (RunWithRetry (\<lambda>_. False) ck pc og)]"
  "va_violations (validateOne now og bs ck pc v) =
     va_violations v @ concat (map (\<lambda>r. Evaluate r bs)
       (filter (\<lambda>r. \<not> r_infra_error r) [fst (RunWithRetry (\<lambda>_. False) ck pc og)]))"
  by (simp_all add: validateOne_def Let_def)

lemma validateLoop_sel:
  "va_infra_errors (validateLoop now og bs cks inc exc pcs v) =
     va_infra_errors v @ filter r_infra_error (map (outcome og cks) (filter (validated cks inc exc) pcs))"
  "va_violations (validateLoop now og bs cks inc exc pcs v) =
     va_violations v @ concat (map (\<lambda>r. Evaluate r bs)
       (filter (\<lambda>r. \<not> r_infra_error r) (map (outcome og cks) (filter (validated cks inc exc) pcs))))"
  by (induction pcs arbitrary: v)
     (auto simp: validated_def outcome_def validateOne_sel split: option.splits)



end
