(* ===== verification/Metric_Schema.thy ===== *)
theory Metric_Schema
  imports Metrics
begin

text \<open>
  The declarations of the metrics in \<open>internal/metrics/prometheus.go\<close>: the gauge vectors with their
  label names, the two metrics without labels and the list that \<open>init\<close> registers. The client
  library panics when \<open>WithLabelValues\<close> is given another number of values than the vector has
  labels, and when a name is registered twice; the lemmas show that neither happens.
\<close>

section \<open>Declarations\<close>

text \<open>The vectors in the order of the source, up to \<open>udpRTT\<close> and from \<open>udpResponseBytes\<close> on.\<close>

definition checkVecs :: "(string \<times> string list) list" where
  "checkVecs =
     [(''technician_check_healthy'', [''type'', ''name'', ''region'', ''city'', ''country'']),
      (''technician_check_duration_seconds'', [''type'', ''name'', ''region'', ''city'', ''country'']),
      (''technician_http_response_status'', [''name'', ''region'', ''city'', ''country'']),
      (''technician_http_dns_seconds'', [''name'', ''region'', ''city'', ''country'']),
      (''technician_http_tls_seconds'', [''name'', ''region'', ''city'', ''country'']),
      (''technician_http_connect_seconds'', [''name'', ''region'', ''city'', ''country'']),
      (''technician_http_ttfb_seconds'', [''name'', ''region'', ''city'', ''country'']),
      (''technician_http_transfer_seconds'', [''name'', ''region'', ''city'', ''country'']),
      (''technician_http_response_bytes'', [''name'', ''region'', ''city'', ''country'']),
      (''technician_browser_ttfb_ms'', [''name'', ''network'', ''device'', ''region'', ''city'', ''country'']),
      (''technician_browser_fcp_ms'', [''name'', ''network'', ''device'', ''region'', ''city'', ''country'']),
      (''technician_browser_lcp_ms'', [''name'', ''network'', ''device'', ''region'', ''city'', ''country'']),
      (''technician_browser_cls'', [''name'', ''network'', ''device'', ''region'', ''city'', ''country'']),
      (''technician_browser_inp_ms'', [''name'', ''network'', ''device'', ''region'', ''city'', ''country'']),
      (''technician_browser_dom_complete_ms'', [''name'', ''network'', ''device'', ''region'', ''city'', ''country'']),
      (''technician_browser_total_transfer_bytes'', [''name'', ''network'', ''device'', ''region'', ''city'', ''country'']),
      (''technician_browser_resource_count'', [''name'', ''network'', ''device'', ''region'', ''city'', ''country'']),
      (''technician_har_resource_duration_ms'', [''name'', ''resource_type'', ''region'', ''city'', ''country'']),
      (''technician_har_resource_bytes'', [''name'', ''resource_type'', ''region'', ''city'', ''country'']),
      (''technician_budget_violation'', [''name'', ''metric'', ''region'', ''city'', ''country'']),
      (''technician_tcp_connect_seconds'', [''name'', ''region'', ''city'', ''country'']),
      (''technician_tcp_tls_seconds'', [''name'', ''region'', ''city'', ''country'']),
      (''technician_dns_query_seconds'', [''name'', ''region'', ''city'', ''country'']),
      (''technician_icmp_packet_loss_percent'', [''name'', ''region'', ''city'', ''country'']),
      (''technician_icmp_avg_rtt_seconds'', [''name'', ''region'', ''city'', ''country'']),
      (''technician_ntp_offset_ms'', [''name'', ''region'', ''city'', ''country'']),
      (''technician_ntp_stratum'', [''name'', ''region'', ''city'', ''country'']),
      (''technician_ntp_rtt_seconds'', [''name'', ''region'', ''city'', ''country'']),
      (''technician_udp_rtt_seconds'', [''name'', ''region'', ''city'', ''country''])]"

definition typeVecs :: "(string \<times> string list) list" where
  "typeVecs =
     [(''technician_udp_response_bytes'', [''name'', ''region'', ''city'', ''country'']),
      (''technician_ws_connect_seconds'', [''name'', ''region'', ''city'', ''country'']),
      (''technician_ws_message_seconds'', [''name'', ''region'', ''city'', ''country'']),
      (''technician_tls_cert_expiry_days'', [''name'', ''region'', ''city'', ''country'']),
      (''technician_tls_cert_valid'', [''name'', ''region'', ''city'', ''country'']),
      (''technician_bgp_prefix_visible'', [''name'', ''region'', ''city'', ''country'']),
      (''technician_bgp_origin_asn'', [''name'', ''region'', ''city'', ''country'']),
      (''technician_bgp_origin_match'', [''name'', ''region'', ''city'', ''country'']),
      (''technician_bgp_rpki_valid'', [''name'', ''region'', ''city'', ''country'']),
      (''technician_domain_expiry_days'', [''name'', ''region'', ''city'', ''country'']),
      (''technician_domain_registered'', [''name'', ''region'', ''city'', ''country'']),
      (''technician_check_infra_error'', [''type'', ''name'', ''region'', ''city'', ''country'']),
      (''technician_check_degraded'', [''type'', ''name'', ''region'', ''city'', ''country''])]"


definition scalarMetrics :: "string list" where
  "scalarMetrics = [''technician_status_store_write_errors_total'', ''technician_last_run_timestamp_seconds'']"

definition registered :: "string list" where
  "registered =
     [''technician_check_healthy'',
      ''technician_check_duration_seconds'',
      ''technician_http_response_status'',
      ''technician_http_dns_seconds'',
      ''technician_http_tls_seconds'',
      ''technician_http_connect_seconds'',
      ''technician_http_ttfb_seconds'',
      ''technician_http_transfer_seconds'',
      ''technician_http_response_bytes'',
      ''technician_browser_ttfb_ms'',
      ''technician_browser_fcp_ms'',
      ''technician_browser_lcp_ms'',
      ''technician_browser_cls'',
      ''technician_browser_inp_ms'',
      ''technician_browser_dom_complete_ms'',
      ''technician_browser_total_transfer_bytes'',
      ''technician_browser_resource_count'',
      ''technician_har_resource_duration_ms'',
      ''technician_har_resource_bytes'',
      ''technician_budget_violation'',
      ''technician_tcp_connect_seconds'',
      ''technician_tcp_tls_seconds'',
      ''technician_dns_query_seconds'',
      ''technician_icmp_packet_loss_percent'',
      ''technician_icmp_avg_rtt_seconds'',
      ''technician_ntp_offset_ms'',
      ''technician_ntp_stratum'',
      ''technician_ntp_rtt_seconds'',
      ''technician_udp_rtt_seconds'',
      ''technician_udp_response_bytes'',
      ''technician_ws_connect_seconds'',
      ''technician_ws_message_seconds'',
      ''technician_tls_cert_expiry_days'',
      ''technician_tls_cert_valid'',
      ''technician_bgp_prefix_visible'',
      ''technician_bgp_origin_asn'',
      ''technician_bgp_origin_match'',
      ''technician_bgp_rpki_valid'',
      ''technician_domain_expiry_days'',
      ''technician_domain_registered'',
      ''technician_check_infra_error'',
      ''technician_check_degraded'',
      ''technician_status_store_write_errors_total'',
      ''technician_last_run_timestamp_seconds'']"

definition metricVecs :: "(string \<times> string list) list" where
  "metricVecs = checkVecs @ typeVecs"

section \<open>Registration\<close>

text \<open>Every declared metric is registered once, so it is exported, and no registration panics.\<close>

lemma registered_declared: "registered = map fst metricVecs @ scalarMetrics"
  by code_simp

lemma registered_distinct: "distinct registered"
  by code_simp

lemma registered_prefix: "list_all (\<lambda>n. HasPrefix n ''technician_'') registered"
  by code_simp

section \<open>Labels\<close>

text \<open>The labels of a sample, and the part every series of a check has.\<close>

definition labels_of :: "series \<Rightarrow> (string \<times> string) list option" where
  "labels_of k =
     (case map_of metricVecs (fst k) of
        None \<Rightarrow> None
      | Some ls \<Rightarrow> if length ls = length (snd k) then Some (zip ls (snd k)) else None)"

definition labelled :: "string \<Rightarrow> labelSet \<Rightarrow> series \<Rightarrow> bool" where
  "labelled name l k \<longleftrightarrow>
     (case labels_of k of
        None \<Rightarrow> False
      | Some kvs \<Rightarrow> map_of kvs ''name'' = Some name \<and> map_of kvs ''region'' = Some (ls_code l)
          \<and> map_of kvs ''city'' = Some (ls_city l) \<and> map_of kvs ''country'' = Some (ls_country l))"

text \<open>The three shapes of vectors.\<close>

definition named_vecs :: "string list" where
  "named_vecs = map fst (filter (\<lambda>(n, ls). ls = [''name'', ''region'', ''city'', ''country'']) metricVecs)"

lemma vec_shape:
  "m \<in> set named_vecs \<Longrightarrow> map_of metricVecs m = Some [''name'', ''region'', ''city'', ''country'']"
proof -
  have "distinct (map fst metricVecs)" using registered_distinct by (simp add: registered_declared)
  then show "m \<in> set named_vecs \<Longrightarrow> map_of metricVecs m = Some [''name'', ''region'', ''city'', ''country'']"
    by (auto simp: named_vecs_def)
qed

lemma labelled_named: "m \<in> set named_vecs \<Longrightarrow> labelled (r_name r) l (fst (named m r l v))"
  using vec_shape [of m] by (simp add: labelled_def labels_of_def named_def site_def)

text \<open>Every sample of a result has the labels its vector declares.\<close>

lemma named_vecs_list:
  "named_vecs =
     [''technician_http_response_status'',
      ''technician_http_dns_seconds'',
      ''technician_http_tls_seconds'',
      ''technician_http_connect_seconds'',
      ''technician_http_ttfb_seconds'',
      ''technician_http_transfer_seconds'',
      ''technician_http_response_bytes'',
      ''technician_tcp_connect_seconds'',
      ''technician_tcp_tls_seconds'',
      ''technician_dns_query_seconds'',
      ''technician_icmp_packet_loss_percent'',
      ''technician_icmp_avg_rtt_seconds'',
      ''technician_ntp_offset_ms'',
      ''technician_ntp_stratum'',
      ''technician_ntp_rtt_seconds'',
      ''technician_udp_rtt_seconds'',
      ''technician_udp_response_bytes'',
      ''technician_ws_connect_seconds'',
      ''technician_ws_message_seconds'',
      ''technician_tls_cert_expiry_days'',
      ''technician_tls_cert_valid'',
      ''technician_bgp_prefix_visible'',
      ''technician_bgp_origin_asn'',
      ''technician_bgp_origin_match'',
      ''technician_bgp_rpki_valid'',
      ''technician_domain_expiry_days'',
      ''technician_domain_registered'']"
  by code_simp

lemma wide_vecs:
  "map_of metricVecs ''technician_check_healthy'' = Some [''type'', ''name'', ''region'', ''city'', ''country'']"
  "map_of metricVecs ''technician_check_duration_seconds'' = Some [''type'', ''name'', ''region'', ''city'', ''country'']"
  "map_of metricVecs ''technician_browser_ttfb_ms'' = Some [''name'', ''network'', ''device'', ''region'', ''city'', ''country'']"
  "map_of metricVecs ''technician_browser_fcp_ms'' = Some [''name'', ''network'', ''device'', ''region'', ''city'', ''country'']"
  "map_of metricVecs ''technician_browser_lcp_ms'' = Some [''name'', ''network'', ''device'', ''region'', ''city'', ''country'']"
  "map_of metricVecs ''technician_browser_cls'' = Some [''name'', ''network'', ''device'', ''region'', ''city'', ''country'']"
  "map_of metricVecs ''technician_browser_inp_ms'' = Some [''name'', ''network'', ''device'', ''region'', ''city'', ''country'']"
  "map_of metricVecs ''technician_browser_dom_complete_ms'' = Some [''name'', ''network'', ''device'', ''region'', ''city'', ''country'']"
  "map_of metricVecs ''technician_browser_total_transfer_bytes'' = Some [''name'', ''network'', ''device'', ''region'', ''city'', ''country'']"
  "map_of metricVecs ''technician_browser_resource_count'' = Some [''name'', ''network'', ''device'', ''region'', ''city'', ''country'']"
  "map_of metricVecs ''technician_har_resource_duration_ms'' = Some [''name'', ''resource_type'', ''region'', ''city'', ''country'']"
  "map_of metricVecs ''technician_har_resource_bytes'' = Some [''name'', ''resource_type'', ''region'', ''city'', ''country'']"
  "map_of metricVecs ''technician_budget_violation'' = Some [''name'', ''metric'', ''region'', ''city'', ''country'']"
  "map_of metricVecs ''technician_check_infra_error'' = Some [''type'', ''name'', ''region'', ''city'', ''country'']"
  "map_of metricVecs ''technician_check_degraded'' = Some [''type'', ''name'', ''region'', ''city'', ''country'']"
  by code_simp+

lemma typeMetrics_labelled: "list_all (\<lambda>s. labelled (r_name r) l (fst s)) (typeMetrics r l)"
proof -
  have har: "list_all (\<lambda>s. labelled (r_name r) l (fst s)) (recordHARMetrics r l)"
    by (auto simp: recordHARMetrics_def list_all_iff labelled_def labels_of_def wide_vecs site_def split: option.split)
  then have "list_all (\<lambda>s. labelled (r_name r) l (fst s)) (recordBrowserMetrics r l)"
    by (simp add: recordBrowserMetrics_def browser_def labelled_def labels_of_def wide_vecs site_def split: option.split)
  moreover have "list_all (\<lambda>s. labelled (r_name r) l (fst s)) (recordHTTPMetrics r l)"
    "list_all (\<lambda>s. labelled (r_name r) l (fst s)) (recordTCPMetrics r l)"
    "list_all (\<lambda>s. labelled (r_name r) l (fst s)) (recordDNSMetrics r l)"
    "list_all (\<lambda>s. labelled (r_name r) l (fst s)) (recordICMPMetrics r l)"
    "list_all (\<lambda>s. labelled (r_name r) l (fst s)) (recordNTPMetrics r l)"
    "list_all (\<lambda>s. labelled (r_name r) l (fst s)) (recordTLSMetrics r l)"
    "list_all (\<lambda>s. labelled (r_name r) l (fst s)) (recordUDPMetrics r l)"
    "list_all (\<lambda>s. labelled (r_name r) l (fst s)) (recordWebSocketMetrics r l)"
    "list_all (\<lambda>s. labelled (r_name r) l (fst s)) (recordBGPMetrics r l)"
    "list_all (\<lambda>s. labelled (r_name r) l (fst s)) (recordDomainExpiryMetrics r l)"
    by (simp_all add: recordHTTPMetrics_def recordTCPMetrics_def recordDNSMetrics_def recordICMPMetrics_def
        recordNTPMetrics_def recordTLSMetrics_def recordUDPMetrics_def recordWebSocketMetrics_def recordBGPMetrics_def
        recordDomainExpiryMetrics_def labelled_named named_vecs_list)
  ultimately show ?thesis by (simp add: typeMetrics_def)
qed

lemma typed_labelled:
  "m \<in> {''technician_check_healthy'', ''technician_check_duration_seconds'', ''technician_check_infra_error'',
     ''technician_check_degraded''} \<Longrightarrow> labelled (r_name r) l (fst (typed m r l v))"
  by (auto simp: typed_def labelled_def labels_of_def wide_vecs site_def)

lemma resultSamples_labelled: "list_all (\<lambda>s. labelled (r_name r) (siteLabels r) (fst s)) (resultSamples r)"
  using typeMetrics_labelled [of r "siteLabels r"] by (simp add: resultSamples_def Let_def typed_labelled)

text \<open>What the metrics hold: no series but those of a declared vector, with as many values as it has labels.\<close>

definition schema_ok :: "metrics \<Rightarrow> bool" where
  "schema_ok m \<longleftrightarrow> (\<forall>k. mt_series m k \<noteq> None \<longrightarrow> labels_of k \<noteq> None)"

datatype metric_op =
    OpResult gotime Result
  | OpBudget string string bool "Origin option"
  | OpWriteError
  | OpSetMax int

fun metric_step :: "metric_op \<Rightarrow> metrics \<Rightarrow> metrics" where
  "metric_step (OpResult now r) m = RecordResult now r m"
| "metric_step (OpBudget chk metric v og) m = RecordBudgetViolation chk metric v og m"
| "metric_step OpWriteError m = RecordStatusStoreWriteError m"
| "metric_step (OpSetMax n) m = SetMaxCheckCardinality n m"

lemma set_gauge_new:
  "mt_series (fold set_gauge ss m) k \<noteq> None \<Longrightarrow> mt_series m k \<noteq> None \<or> k \<in> set (map fst ss)"
proof (induction ss arbitrary: m)
  case (Cons s ss)
  from Cons.IH [of "set_gauge s m"] Cons.prems show ?case by (auto simp: set_gauge_def split: if_splits)
qed simp

lemma admit_series [simp]: "mt_series (snd (admit name m)) = mt_series m"
  by (simp add: admit_def)

lemma RecordResult_new:
  assumes "mt_series (RecordResult now r m) k \<noteq> None"
  shows "mt_series m k \<noteq> None \<or> labelled (r_name r) (siteLabels r) k"
proof -
  have i: "labelled (r_name r) (siteLabels r) (fst (infraSample r v))" for v
    by (simp add: infraSample_def typed_labelled)
  have s: "k \<in> set (map fst (resultSamples r)) \<Longrightarrow> labelled (r_name r) (siteLabels r) k"
    using resultSamples_labelled [of r] by (auto simp: list_all_iff)
  show ?thesis
  proof (cases "r_infra_error r")
    case True
    with assms i show ?thesis by (auto simp: RecordResult_def set_gauge_def split: if_splits)
  next
    case False
    obtain ok m2 where a: "admit (r_name r) (set_gauge (infraSample r 0) m) = (ok, m2)" by fastforce
    then have "mt_series m2 = mt_series (set_gauge (infraSample r 0) m)" by (metis admit_series snd_conv)
    moreover have "mt_series m2 k \<noteq> None \<or> k \<in> set (map fst (resultSamples r))"
      using assms False a set_gauge_new [of "resultSamples r" m2 k]
      by (auto simp: RecordResult_def split: if_splits bool.splits)
    ultimately show ?thesis using i s by (auto simp: set_gauge_def split: if_splits)
  qed
qed

lemma metric_step_ok: "schema_ok m \<Longrightarrow> schema_ok (metric_step op m)"
proof (cases op)
  case (OpResult now r)
  assume ok: "schema_ok m"
  have "labels_of k \<noteq> None" if "labelled (r_name r) (siteLabels r) k" for k
    using that by (auto simp: labelled_def split: option.splits)
  with ok OpResult RecordResult_new [of now r m] show ?thesis unfolding schema_ok_def OpResult metric_step.simps by blast
next
  case (OpBudget chk metric v og)
  assume "schema_ok m"
  with OpBudget show ?thesis
    by (auto simp: schema_ok_def RecordBudgetViolation_def set_gauge_def labels_of_def wide_vecs site_def)
qed (auto simp: schema_ok_def RecordStatusStoreWriteError_def SetMaxCheckCardinality_def)

lemma metric_steps_ok: "schema_ok m \<Longrightarrow> schema_ok (fold metric_step ops m)"
  by (induction ops arbitrary: m) (auto intro: metric_step_ok)


definition sample_infra :: Result where
  "sample_infra = (NewResult 9 ''db'' CheckTypeTCP None) \<lparr> r_infra_error := True \<rparr>"


end
