(* ===== verification/Go_Text.thy ===== *)
theory Go_Text
  imports Go_Prelude
begin

text \<open>
  The parts of Go's text packages that the checkers call: \<open>encoding/hex.DecodeString\<close>,
  \<open>encoding/base64\<close> in the standard alphabet, \<open>strconv.Quote\<close> (the verb \<open>%q\<close>) and the canonical
  form of a header name (\<open>net/textproto\<close>) with \<open>http.Header\<close>'s \<open>Set\<close> and \<open>Get\<close>. A string is a
  list of bytes; the quoting of bytes outside ASCII depends on the Unicode tables and is the argument
  \<open>uni\<close> of \<open>Quote\<close>.
\<close>

section \<open>Hexadecimal\<close>

definition hex_digit :: "nat \<Rightarrow> char" where
  "hex_digit n = (if n < 10 then char_of (48 + n) else char_of (87 + n))"

definition hex_val :: "char \<Rightarrow> nat option" where
  "hex_val c = (let n = of_char c :: nat
     in if 48 \<le> n \<and> n \<le> 57 then Some (n - 48)
        else if 97 \<le> n \<and> n \<le> 102 then Some (n - 87)
        else if 65 \<le> n \<and> n \<le> 70 then Some (n - 55) else None)"

datatype hex_error = InvalidByte char | OddLength

fun DecodeString :: "string \<Rightarrow> hex_error + string" where
  "DecodeString [] = Inr []"
| "DecodeString [p] = (if hex_val p = None then Inl (InvalidByte p) else Inl OddLength)"
| "DecodeString (p # q # s) =
     (case hex_val p of
        None \<Rightarrow> Inl (InvalidByte p)
      | Some a \<Rightarrow>
          (case hex_val q of
             None \<Rightarrow> Inl (InvalidByte q)
           | Some b \<Rightarrow>
               (case DecodeString s of
                  Inl e \<Rightarrow> Inl e
                | Inr bs \<Rightarrow> Inr (char_of (16 * a + b) # bs))))"

definition upper_hex :: "nat \<Rightarrow> char" where
  "upper_hex n = upper_char (hex_digit n)"

text \<open>The text of the errors; \<open>%#U\<close> shows a printable Latin-1 rune after its code, in UTF-8.\<close>

definition fmt_rune :: "char \<Rightarrow> string" where
  "fmt_rune c = (let n = of_char c :: nat;
       code = ''U+00'' @ [upper_hex (n div 16), upper_hex (n mod 16)]
     in if 32 \<le> n \<and> n \<le> 126 then code @ '' '' @ [CHR 0x27, c, CHR 0x27]
        else if 161 \<le> n \<and> n \<noteq> 173
        then code @ '' '' @ [CHR 0x27, char_of (192 + n div 64), char_of (128 + n mod 64), CHR 0x27]
        else code)"

definition hex_error_text :: "hex_error \<Rightarrow> string" where
  "hex_error_text e =
     (case e of
        InvalidByte c \<Rightarrow> ''encoding/hex: invalid byte: '' @ fmt_rune c
      | OddLength \<Rightarrow> ''encoding/hex: odd length hex string'')"

definition hex_encode :: "string \<Rightarrow> string" where
  "hex_encode bs = concat (map (\<lambda>b. [hex_digit (of_char b div 16), hex_digit (of_char b mod 16)]) bs)"

lemma hex_val_digit [simp]: "n < 16 \<Longrightarrow> hex_val (hex_digit n) = Some n"
  by (auto simp: hex_val_def hex_digit_def Let_def)

lemma hex_val_Some: "hex_val c = Some n \<longleftrightarrow> n < 16 \<and> lower_char c = hex_digit n"
proof
  assume "hex_val c = Some n"
  then show "n < 16 \<and> lower_char c = hex_digit n"
    by (auto simp: hex_val_def hex_digit_def lower_char_def less_eq_char_def Let_def split: if_splits)
next
  assume "n < 16 \<and> lower_char c = hex_digit n"
  then have "n < 16" and eq: "of_char (lower_char c) = (of_char (hex_digit n) :: nat)" by simp_all
  from this show "hex_val c = Some n"
    by (auto simp: hex_val_def hex_digit_def lower_char_def less_eq_char_def Let_def split: if_splits)
qed

lemma byte_split: "char_of (16 * (of_char b div 16) + of_char b mod 16 :: nat) = b"
  by simp

text \<open>Decoding accepts exactly the texts that are, up to case, the encoding of some bytes.\<close>

lemma hex_encode_simps [simp]:
  "hex_encode [] = []"
  "hex_encode (b # bs) = hex_digit (of_char b div 16) # hex_digit (of_char b mod 16) # hex_encode bs"
  by (simp_all add: hex_encode_def)

lemma hex_pair: "a < 16 \<Longrightarrow> b < 16 \<Longrightarrow>
    of_char (char_of (16 * a + b :: nat)) div 16 = (a :: nat) \<and> of_char (char_of (16 * a + b :: nat)) mod 16 = (b :: nat)"
  by simp

lemma DecodeString_iff: "DecodeString s = Inr bs \<longleftrightarrow> ToLower s = hex_encode bs"
proof (induction s arbitrary: bs rule: DecodeString.induct)
  case 1
  then show ?case by (cases bs) (auto simp: ToLower_def)
next
  case (2 p)
  then show ?case by (cases bs) (auto simp: ToLower_def)
next
  case (3 p q s)
  show ?case
  proof
    assume "DecodeString (p # q # s) = Inr bs"
    then obtain a b bs' where "hex_val p = Some a" "hex_val q = Some b" "DecodeString s = Inr bs'"
      and "bs = char_of (16 * a + b) # bs'"
      by (auto split: option.splits sum.splits)
    with 3 hex_pair [of a b] show "ToLower (p # q # s) = hex_encode bs"
      by (auto simp: hex_val_Some ToLower_def)
  next
    assume *: "ToLower (p # q # s) = hex_encode bs"
    then obtain b bs' where bs: "bs = b # bs'" by (cases bs) (auto simp: ToLower_def)
    with * have p: "hex_val p = Some (of_char b div 16)" and q: "hex_val q = Some (of_char b mod 16)"
      and "ToLower s = hex_encode bs'"
      by (simp_all add: hex_val_Some ToLower_def less_mult_imp_div_less)
    with 3 [OF p q, of bs'] have "DecodeString s = Inr bs'" by simp
    with p q bs show "DecodeString (p # q # s) = Inr bs" by simp
  qed
qed

section \<open>Base64\<close>

definition b64_char :: "nat \<Rightarrow> char" where
  "b64_char n = (if n < 26 then char_of (65 + n) else if n < 52 then char_of (71 + n)
     else if n < 62 then char_of (n - 4) else if n = 62 then CHR ''+'' else CHR ''/'')"

fun EncodeToString :: "string \<Rightarrow> string" where
  "EncodeToString [] = []"
| "EncodeToString [a] = (let n = 16 * of_char a :: nat
     in [b64_char (n div 64), b64_char (n mod 64), CHR ''='', CHR ''=''])"
| "EncodeToString [a, b] = (let n = 1024 * of_char a + 4 * of_char b :: nat
     in [b64_char (n div 4096), b64_char (n div 64 mod 64), b64_char (n mod 64), CHR ''=''])"
| "EncodeToString (a # b # c # s) = (let n = 65536 * of_char a + 256 * of_char b + of_char c :: nat
     in [b64_char (n div 262144), b64_char (n div 4096 mod 64), b64_char (n div 64 mod 64), b64_char (n mod 64)]
        @ EncodeToString s)"

section \<open>Quoting\<close>

definition is_ascii :: "char \<Rightarrow> bool" where
  "is_ascii c \<longleftrightarrow> (of_char c :: nat) < 128"

definition quote_ascii :: "char \<Rightarrow> string" where
  "quote_ascii c = (let n = of_char c :: nat
     in if n = 34 \<or> n = 92 then [CHR 0x5C, c]
        else if 32 \<le> n \<and> n \<le> 126 then [c]
        else if n = 7 then [CHR 0x5C, CHR ''a'']
        else if n = 8 then [CHR 0x5C, CHR ''b'']
        else if n = 12 then [CHR 0x5C, CHR ''f'']
        else if n = 10 then [CHR 0x5C, CHR ''n'']
        else if n = 13 then [CHR 0x5C, CHR ''r'']
        else if n = 9 then [CHR 0x5C, CHR ''t'']
        else if n = 11 then [CHR 0x5C, CHR ''v'']
        else [CHR 0x5C, CHR ''x'', hex_digit (n div 16), hex_digit (n mod 16)])"

text \<open>
  A rune is one ASCII byte or lies within a maximal run of other bytes, so each such run is quoted
  on its own.
\<close>

function quote_runs :: "(string \<Rightarrow> string) \<Rightarrow> string \<Rightarrow> string" where
  "quote_runs uni [] = []"
| "quote_runs uni (c # s) =
     (if is_ascii c then quote_ascii c @ quote_runs uni s
      else uni (c # takeWhile (\<lambda>d. \<not> is_ascii d) s) @ quote_runs uni (dropWhile (\<lambda>d. \<not> is_ascii d) s))"
  by pat_completeness auto
termination
  by (relation "measure (\<lambda>(_, s). length s)") (auto simp: le_imp_less_Suc length_dropWhile_le)

definition Quote :: "(string \<Rightarrow> string) \<Rightarrow> string \<Rightarrow> string" where
  "Quote uni s = [CHR 0x22] @ quote_runs uni s @ [CHR 0x22]"

section \<open>Header names\<close>

definition token_char :: "char \<Rightarrow> bool" where
  "token_char c = (let n = of_char c :: nat
     in 48 \<le> n \<and> n \<le> 57 \<or> 65 \<le> n \<and> n \<le> 90 \<or> 97 \<le> n \<and> n \<le> 122
        \<or> n \<in> {33, 35, 36, 37, 38, 39, 42, 43, 45, 46, 94, 95, 96, 124, 126})"

fun canonical_from :: "bool \<Rightarrow> string \<Rightarrow> string" where
  "canonical_from up [] = []"
| "canonical_from up (c # s) =
     (if up then upper_char c else lower_char c) # canonical_from (c = CHR ''-'') s"

definition CanonicalHeaderKey :: "string \<Rightarrow> string" where
  "CanonicalHeaderKey k = (if list_all token_char k then canonical_from True k else k)"

type_synonym header = "string \<Rightarrow> string list option"

definition Header_Set :: "string \<Rightarrow> string \<Rightarrow> header \<Rightarrow> header" where
  "Header_Set k v h = h(CanonicalHeaderKey k \<mapsto> [v])"

definition Header_Get :: "header \<Rightarrow> string \<Rightarrow> string" where
  "Header_Get h k = (case h (CanonicalHeaderKey k) of Some (v # _) \<Rightarrow> v | _ \<Rightarrow> '''')"

lemma Header_Get_Set:
  "Header_Get (Header_Set k v h) k' = (if CanonicalHeaderKey k' = CanonicalHeaderKey k then v else Header_Get h k')"
  by (simp add: Header_Get_def Header_Set_def)

text \<open>Names that differ only in case are the same header.\<close>

lemma case_char_simps [simp]:
  "lower_char (lower_char c) = lower_char c" "upper_char (lower_char c) = upper_char c"
  by (auto simp: lower_char_def upper_char_def less_eq_char_def)

lemma lower_dash [simp]: "(lower_char c = CHR ''-'') = (c = CHR ''-'')"
proof -
  have "(d = CHR ''-'') = (of_char d = (45 :: nat))" for d :: char
    using of_char_eq_iff [of d "CHR ''-''", where 'a = nat] by simp
  then show ?thesis by (auto simp: lower_char_def less_eq_char_def)
qed

lemma token_lower [simp]: "token_char (lower_char c) = token_char c"
  by (auto simp: token_char_def lower_char_def less_eq_char_def Let_def)

lemma canonical_from_lower: "canonical_from up (map lower_char s) = canonical_from up s"
  by (induction s arbitrary: up) auto

lemma CanonicalHeaderKey_fold:
  assumes "EqualFold k k'" and "list_all token_char k"
  shows "CanonicalHeaderKey k = CanonicalHeaderKey k'"
proof -
  have tok: "list_all token_char (map lower_char s) = list_all token_char s" for s
    by (induction s) auto
  have eq: "map lower_char k = map lower_char k'"
    using assms(1) by (simp add: EqualFold_def ToLower_def)
  have "list_all token_char k'" using assms(2) tok [of k] tok [of k'] eq by simp
  moreover have "canonical_from True k = canonical_from True k'"
    using canonical_from_lower [of True k] canonical_from_lower [of True k'] eq by simp
  ultimately show ?thesis using assms(2) by (simp add: CanonicalHeaderKey_def)
qed

end
