(* ===== verification/Artifacts.thy ===== *)
theory Artifacts
  imports Go_Text
begin

text \<open>
  The artifact stores, \<open>internal/artifact/\<close>: the factory \<open>New\<close> of \<open>artifact.go\<close> and the operation
  \<open>Upload\<close> of the four drivers (\<open>local.go\<close>, \<open>s3.go\<close>, \<open>stdout.go\<close>, \<open>NoopStore\<close>). The state is what
  the drivers write to: the files, the objects of the bucket and the two output streams. A reader is
  the bytes it yields and the error it ends with, if any. The operating system and the S3 client are
  arguments that return \<open>None\<close> or the text of an error, a failed write also what it wrote.
\<close>

datatype store = LocalStore string | S3Store string | StdoutStore | NoopStore

record sinks =
  sk_files :: "string \<Rightarrow> string option"
  sk_objects :: "string \<times> string \<Rightarrow> (string \<times> string) option"
  sk_stdout :: string
  sk_stderr :: string

record artifact_os =
  ao_join :: "string \<Rightarrow> string \<Rightarrow> string"
  ao_dir :: "string \<Rightarrow> string"
  ao_mkdir :: "string \<Rightarrow> string option"
  ao_create :: "string \<Rightarrow> string option"
  ao_write :: "string \<Rightarrow> string \<Rightarrow> (string \<times> string) option"
  ao_aws :: "string \<Rightarrow> string option"
  ao_put :: "string \<Rightarrow> string \<Rightarrow> string option"

type_synonym reader = "string \<times> string option"

definition opt_get :: "(string, string) gomap \<Rightarrow> string \<Rightarrow> string" where
  "opt_get opts k = (case map_of opts k of None \<Rightarrow> '''' | Some v \<Rightarrow> v)"

definition NewS3Store :: "artifact_os \<Rightarrow> string \<Rightarrow> string \<Rightarrow> string + store" where
  "NewS3Store os bucket region =
     (case ao_aws os region of Some err \<Rightarrow> Inl (''loading AWS config: '' @ err) | None \<Rightarrow> Inr (S3Store bucket))"

definition NewArtifactStore :: "artifact_os \<Rightarrow> string \<Rightarrow> (string, string) gomap \<Rightarrow> string + store" where
  "NewArtifactStore os driver opts =
     (if driver = ''local'' then
        (let path = opt_get opts ''path''
         in Inr (LocalStore (if path = '''' then ''/tmp/technician/artifacts'' else path)))
      else if driver = ''s3'' then NewS3Store os (opt_get opts ''bucket'') (opt_get opts ''region'')
      else if driver = ''stdout'' then Inr StdoutStore
      else if driver = ''none'' \<or> driver = '''' then Inr NoopStore
      else Inl (''unknown artifact driver: '' @ driver))"

text \<open>\<open>io.Copy\<close> writes what the reader yields until one of the two fails.\<close>

definition LocalUpload :: "artifact_os \<Rightarrow> string \<Rightarrow> string \<Rightarrow> reader \<Rightarrow> sinks \<Rightarrow> (string + string) \<times> sinks" where
  "LocalUpload os basePath key rd s =
     (let fullPath = ao_join os basePath key; dir = ao_dir os fullPath
      in case ao_mkdir os dir of
           Some err \<Rightarrow> (Inl (''creating directory '' @ dir @ '': '' @ err), s)
         | None \<Rightarrow>
             (case ao_create os fullPath of
                Some err \<Rightarrow> (Inl (''creating file '' @ fullPath @ '': '' @ err), s)
              | None \<Rightarrow>
                  (case ao_write os fullPath (fst rd) of
                     Some (written, err) \<Rightarrow> (Inl (''writing file '' @ fullPath @ '': '' @ err),
                                             s \<lparr> sk_files := (sk_files s)(fullPath \<mapsto> written) \<rparr>)
                   | None \<Rightarrow>
                       (let s' = s \<lparr> sk_files := (sk_files s)(fullPath \<mapsto> fst rd) \<rparr>
                        in case snd rd of
                             Some err \<Rightarrow> (Inl (''writing file '' @ fullPath @ '': '' @ err), s')
                           | None \<Rightarrow> (Inr fullPath, s')))))"

definition S3Upload :: "artifact_os \<Rightarrow> string \<Rightarrow> string \<Rightarrow> reader \<Rightarrow> string \<Rightarrow> sinks \<Rightarrow> (string + string) \<times> sinks" where
  "S3Upload os bucket key rd contentType s =
     (case (snd rd, ao_put os bucket key) of
        (None, None) \<Rightarrow>
          (Inr (''s3://'' @ bucket @ ''/'' @ key), s \<lparr> sk_objects := (sk_objects s)((bucket, key) \<mapsto> (fst rd, contentType)) \<rparr>)
      | (Some err, _) \<Rightarrow> (Inl (''uploading to S3: '' @ err), s)
      | (None, Some err) \<Rightarrow> (Inl (''uploading to S3: '' @ err), s))"

definition isTextContent :: "string \<Rightarrow> bool" where
  "isTextContent ct \<longleftrightarrow>
     list_ex (\<lambda>prfx. length ct \<ge> length prfx \<and> take (length prfx) ct = prfx) [''text/'', ''application/json'', ''application/xml'']"

definition StdoutUpload :: "string \<Rightarrow> reader \<Rightarrow> string \<Rightarrow> sinks \<Rightarrow> (string + string) \<times> sinks" where
  "StdoutUpload key rd contentType s =
     (let s1 = s \<lparr> sk_stderr := sk_stderr s @ ''--- Artifact: '' @ key @ '' (type: '' @ contentType @ '') ---'' @ [CHR 10] \<rparr>
      in case snd rd of
           Some err \<Rightarrow> (Inl (''reading artifact data: '' @ err), s1)
         | None \<Rightarrow>
             (let text = (if isTextContent contentType then fst rd else EncodeToString (fst rd) @ [CHR 10]);
                  s2 = s1 \<lparr> sk_stdout := sk_stdout s1 @ text \<rparr>
              in (Inr (''stdout://'' @ key),
                  s2 \<lparr> sk_stderr := sk_stderr s2 @ ''--- End artifact: '' @ key @ '' ---'' @ [CHR 10] \<rparr>)))"

fun Upload :: "artifact_os \<Rightarrow> store \<Rightarrow> string \<Rightarrow> reader \<Rightarrow> string \<Rightarrow> sinks \<Rightarrow> (string + string) \<times> sinks" where
  "Upload os (LocalStore basePath) key rd contentType s = LocalUpload os basePath key rd s"
| "Upload os (S3Store bucket) key rd contentType s = S3Upload os bucket key rd contentType s"
| "Upload os StdoutStore key rd contentType s = StdoutUpload key rd contentType s"
| "Upload os NoopStore key rd contentType s = (Inr '''', s)"

section \<open>What an upload leaves\<close>

text \<open>
  An upload that reports success has stored exactly the bytes of the reader under the reported
  place, and nothing else has changed there; only the local driver leaves a trace of a failed one,
  the incomplete file.
\<close>

lemma LocalUpload_ok:
  assumes "LocalUpload os base key rd s = (Inr path, s')"
  shows "path = ao_join os base key" "snd rd = None" "sk_files s' = (sk_files s)(path \<mapsto> fst rd)"
    "sk_objects s' = sk_objects s" "sk_stdout s' = sk_stdout s"
  using assms by (auto simp: LocalUpload_def Let_def split: option.splits)

lemma S3Upload_ok:
  assumes "S3Upload os bucket key rd ct s = (Inr url, s')"
  shows "url = ''s3://'' @ bucket @ ''/'' @ key" "sk_objects s' = (sk_objects s)((bucket, key) \<mapsto> (fst rd, ct))" "sk_files s' = sk_files s"
  using assms by (auto simp: S3Upload_def split: option.splits)

lemma failed_upload_keeps:
  assumes "Upload os st key rd ct s = (Inl err, s')"
  shows "sk_objects s' = sk_objects s" "sk_stdout s' = sk_stdout s"
    "\<forall>base. st \<noteq> LocalStore base \<Longrightarrow> sk_files s' = sk_files s"
  using assms
  by (cases st; auto simp: LocalUpload_def S3Upload_def StdoutUpload_def Let_def split: option.splits if_splits)+

lemma NewArtifactStore_drivers:
  "(\<exists>st. NewArtifactStore os driver opts = Inr st) \<longleftrightarrow>
     driver \<in> {''local'', ''stdout'', ''none'', ''''} \<or> driver = ''s3'' \<and> ao_aws os (opt_get opts ''region'') = None"
  by (auto simp: NewArtifactStore_def NewS3Store_def Let_def split: option.split)

end
