(* ===== verification/Status_Persist.thy ===== *)
theory Status_Persist
  imports Status_Store
begin

text \<open>
  Persistence of the status store, \<open>internal/status/store.go\<close>: \<open>Save\<close>, the write-failure
  counter, the dated backups and loading. The directory of \<open>s.path\<close> is a \<open>gomap\<close> from file
  names to contents, \<open>base\<close> the name of the status file in it; a content is the struct that was
  marshalled or bytes that do not parse. What the operating system does is the record \<open>io\<close> of
  outcomes; a failed write may leave garbage in the file it wrote to. Dates are those of the clock
  in UTC.
\<close>

section \<open>Data\<close>

record persistedRing =
  pr_name :: string
  pr_type :: check_type
  pr_group :: string
  pr_target :: string
  pr_entries :: "Entry list"
  pr_downSince :: gotime

record persistedBudget =
  pb_violated :: bool
  pb_consecutive :: int

record persistedStore =
  ps_order :: "string list"
  ps_rings :: "(string, persistedRing) gomap"
  ps_budgets :: "(string, persistedBudget) gomap"

datatype filedata = Json persistedStore | Garbage

type_synonym dir = "(string, filedata) gomap"

record io =
  io_mkdir :: bool
  io_write :: bool
  io_rename :: bool
  io_readdir :: bool
  io_remove :: "string \<Rightarrow> bool"

datatype save_error = CreateDirectory | WriteStore | RenameStore

definition writeFailureThreshold :: int where
  "writeFailureThreshold = 5"

definition backupRetention :: duration where
  "backupRetention = 90 * 24 * Hour"

section \<open>Saving\<close>

definition persistRing :: "checkRing \<Rightarrow> persistedRing" where
  "persistRing r = \<lparr> pr_name = ri_name r, pr_type = ri_typ r, pr_group = ri_group r,
     pr_target = ri_target r, pr_entries = ordered r, pr_downSince = ri_downSince r \<rparr>"

definition persist :: "Store \<Rightarrow> persistedStore" where
  "persist s = \<lparr> ps_order = st_order s,
     ps_rings = map (\<lambda>(k, r). (k, persistRing r)) (st_checks s),
     ps_budgets = (if length (st_budgetChecks s) > 0
       then map (\<lambda>(k, b). (k, \<lparr> pb_violated = bs_violated b, pb_consecutive = bs_consecutive b \<rparr>)) (st_budgetChecks s)
       else []) \<rparr>"

definition save :: "io \<Rightarrow> string \<Rightarrow> Store \<Rightarrow> dir \<Rightarrow> save_error option \<times> dir" where
  "save os base s d =
     (let data = Json (persist s); tmp = base @ ''.tmp''
      in if \<not> io_mkdir os then (Some CreateDirectory, d)
         else if \<not> io_write os then (Some WriteStore, AList.update tmp Garbage d)
         else (let d1 = AList.update tmp data d
               in if \<not> io_rename os then (Some RenameStore, d1)
                  else (None, AList.update base data (AList.delete tmp d1))))"

definition recordWriteResult :: "save_error option \<Rightarrow> Store \<Rightarrow> Store" where
  "recordWriteResult err s =
     (case err of
        None \<Rightarrow> s \<lparr> st_consecutiveWriteFail := 0 \<rparr>
      | Some e \<Rightarrow> s \<lparr> st_consecutiveWriteFail := st_consecutiveWriteFail s + 1 \<rparr>)"

definition Save :: "io \<Rightarrow> string \<Rightarrow> Store \<Rightarrow> dir \<Rightarrow> save_error option \<times> Store \<times> dir" where
  "Save os base s d =
     (if st_path s = '''' then (None, s, d)
      else (case save os base s d of (err, d') \<Rightarrow> (err, recordWriteResult err s, d')))"

definition WriteHealthy :: "Store \<Rightarrow> bool" where
  "WriteHealthy s \<longleftrightarrow> st_consecutiveWriteFail s < writeFailureThreshold"

definition ConsecutiveWriteFailures :: "Store \<Rightarrow> int" where
  "ConsecutiveWriteFailures s = st_consecutiveWriteFail s"

section \<open>Backups\<close>

definition TrimPrefix :: "string \<Rightarrow> string \<Rightarrow> string" where
  "TrimPrefix s p = (if HasPrefix s p then drop (length p) s else s)"

text \<open>The date of a backup, \<open>None\<close> for a file that is none.\<close>

definition backupDate :: "string \<Rightarrow> string \<Rightarrow> gotime option" where
  "backupDate base name =
     (if \<not> HasPrefix name (base @ ''.'') then None else ParseDate8 (TrimPrefix name (base @ ''.'')))"

fun pruneLoop :: "io \<Rightarrow> string \<Rightarrow> gotime \<Rightarrow> string list \<Rightarrow> dir \<Rightarrow> dir" where
  "pruneLoop os base cutoff [] d = d"
| "pruneLoop os base cutoff (name # names) d =
     (case backupDate base name of
        None \<Rightarrow> pruneLoop os base cutoff names d
      | Some t \<Rightarrow>
          if t < cutoff \<and> io_remove os name
          then pruneLoop os base cutoff names (AList.delete name d)
          else pruneLoop os base cutoff names d)"

definition pruneBackups :: "io \<Rightarrow> gotime \<Rightarrow> string \<Rightarrow> dir \<Rightarrow> dir" where
  "pruneBackups os now base d =
     (if \<not> io_readdir os then d
      else pruneLoop os base (now - backupRetention) (sort (gokeys d)) d)"

definition SaveBackup :: "io \<Rightarrow> gotime \<Rightarrow> gotime \<Rightarrow> string \<Rightarrow> Store \<Rightarrow> dir \<Rightarrow> dir" where
  "SaveBackup os now now' base s d =
     (if st_path s = '''' then d
      else (case map_of d base of
              None \<Rightarrow> d
            | Some src \<Rightarrow>
                (let backup = base @ ''.'' @ FormatDate8 now
                 in case map_of d backup of
                      Some _ \<Rightarrow> d
                    | None \<Rightarrow>
                        if \<not> io_write os then AList.update backup Garbage d
                        else pruneBackups os now' base (AList.update backup src d))))"

fun latestLoop :: "string \<Rightarrow> string list \<Rightarrow> string \<Rightarrow> string" where
  "latestLoop base [] latest = latest"
| "latestLoop base (name # names) latest =
     (if backupDate base name \<noteq> None \<and> latest < name then latestLoop base names name
      else latestLoop base names latest)"

definition latestBackup :: "io \<Rightarrow> string \<Rightarrow> dir \<Rightarrow> filedata option" where
  "latestBackup os base d =
     (if \<not> io_readdir os then None
      else (let latest = latestLoop base (sort (gokeys d)) ''''
            in if latest = '''' then None else map_of d latest))"

section \<open>Loading\<close>

definition loadRing :: "persistedRing \<Rightarrow> checkRing" where
  "loadRing p = newRing (pr_name p) (pr_type p) (pr_group p) (pr_target p) (pr_entries p) (pr_downSince p)"

definition tryLoadData :: "filedata \<Rightarrow> Store \<Rightarrow> bool \<times> Store" where
  "tryLoadData data s =
     (case data of
        Garbage \<Rightarrow> (False, s)
      | Json raw \<Rightarrow>
          (let s1 = s \<lparr> st_order := ps_order raw,
                        st_checks := fold (\<lambda>(k, p). AList.update k (loadRing p)) (ps_rings raw) (st_checks s) \<rparr>
           in (True,
               if length (ps_budgets raw) > 0
               then s1 \<lparr> st_budgetChecks := fold (\<lambda>(k, b). AList.update k
                           \<lparr> bs_violated = pb_violated b, bs_consecutive = pb_consecutive b \<rparr>) (ps_budgets raw) [] \<rparr>
               else s1)))"

definition load :: "io \<Rightarrow> string \<Rightarrow> dir \<Rightarrow> Store \<Rightarrow> Store" where
  "load os base d s =
     (case (case map_of d base of Some data \<Rightarrow> Some data | None \<Rightarrow> latestBackup os base d) of
        None \<Rightarrow> s
      | Some data \<Rightarrow>
          (case tryLoadData data s of
             (True, s') \<Rightarrow> s'
           | (False, s') \<Rightarrow>
               (case latestBackup os base d of None \<Rightarrow> s' | Some bk \<Rightarrow> snd (tryLoadData bk s'))))"

definition NewStore :: "io \<Rightarrow> string \<Rightarrow> dir \<Rightarrow> string \<Rightarrow> Origin option \<Rightarrow> string \<Rightarrow> Store" where
  "NewStore os base d service origin path =
     (if path \<noteq> '''' then load os base d (emptyStore service origin path)
      else emptyStore service origin path)"

section \<open>Atomic writes\<close>

lemma tmp_differs: "base @ ''.tmp'' \<noteq> base"
  by simp

text \<open>
  Property C31. Saving is atomic: after a success the status file holds exactly the current
  contents of the store, after any failure it is what it was before; no other file but the
  temporary one is touched, and a success leaves no temporary file.
\<close>

theorem save_atomic:
  "case save os base s d of
     (None, d') \<Rightarrow> map_of d' = (map_of d)(base := Some (Json (persist s)), base @ ''.tmp'' := None)
   | (Some e, d') \<Rightarrow> map_of d' base = map_of d base
        \<and> (map_of d')(base @ ''.tmp'' := None) = (map_of d)(base @ ''.tmp'' := None)"
  by (auto simp: save_def Let_def gm.lookup_put gm.lookup_del fun_eq_iff split: option.split)

section \<open>Write health\<close>

interpretation wf: streak recordWriteResult "\<lambda>e. True" "\<lambda>e. e \<noteq> None" st_consecutiveWriteFail "\<lambda>s. True"
  by unfold_locales (auto simp: recordWriteResult_def split: option.split)

text \<open>
  The store is write-healthy exactly as long as fewer than five saves in a row have
  failed.
\<close>

theorem WriteHealthy_iff:
  "WriteHealthy (fold recordWriteResult errs (emptyStore service og path)) \<longleftrightarrow>
     \<not> (5 \<le> length errs \<and> list_all (\<lambda>e. e \<noteq> None) (lastn 5 errs))"
proof -
  have "st_consecutiveWriteFail (emptyStore service og path) = 0" by (simp add: emptyStore_def)
  from wf.count_ge_iff [OF TrueI this, of 5 errs] show ?thesis
    by (auto simp: WriteHealthy_def writeFailureThreshold_def)
qed

section \<open>Round trip\<close>

lemma map_of_map_snd: "map_of (map (\<lambda>(k, v). (k, f v)) xs) k = map_option f (map_of xs k)"
  by (simp add: map_of_map)

lemma load_fold:
  assumes "gomap_ok kvs"
  shows "map_of (fold (\<lambda>(k, v). AList.update k (f v)) kvs []) = (\<lambda>k. map_option f (map_of kvs k))"
    and "gomap_ok (fold (\<lambda>(k, v). AList.update k (f v)) kvs [])"
proof -
  have "map_of (rev (map (\<lambda>(k, v). (k, f v)) kvs)) = map_of (map (\<lambda>(k, v). (k, f v)) kvs)"
    using assms by (subst map_of_inject_set) (auto simp: gomap_ok_def comp_def case_prod_beta rev_map [symmetric])
  with gm.lookup_put_all [of "\<lambda>k. f" kvs "[]"]
  show "map_of (fold (\<lambda>(k, v). AList.update k (f v)) kvs []) = (\<lambda>k. map_option f (map_of kvs k))"
    by (simp add: map_of_map fun_eq_iff)
  show "gomap_ok (fold (\<lambda>(k, v). AList.update k (f v)) kvs [])"
    using gm.ok_put_all [of "[]" "\<lambda>k. f" kvs] by simp
qed

text \<open>What of a ring is visible: its description, its history in order and the outage start.\<close>

definition ring_view :: "checkRing \<Rightarrow> string \<times> check_type \<times> string \<times> string \<times> Entry list \<times> gotime" where
  "ring_view r = (ri_name r, ri_typ r, ri_group r, ri_target r, ordered r, ri_downSince r)"

lemma loadRing_view: "ring_view (loadRing (persistRing r)) = ring_view r"
  by (simp add: ring_view_def loadRing_def persistRing_def) (simp add: newRing_def)

lemma loadRing_at: "ring_at k r \<Longrightarrow> ring_at k (loadRing (persistRing r))"
  by (auto simp: ring_at_def loadRing_def persistRing_def newRing_ok rh.items_bound)
     (simp add: newRing_def)

lemma gomap_ok_map_snd: "gomap_ok (map (\<lambda>(k, v). (k, f v)) m) = gomap_ok m"
  by (simp add: gomap_ok_def comp_def case_prod_beta)

text \<open>Loading a file that holds the image of a store.\<close>

lemma load_persisted:
  assumes "store_ok s" and "path \<noteq> ''''" and "map_of d base = Some (Json (persist s))"
    and "t = NewStore os base d service og path"
  shows "store_ok t" "st_order t = st_order s"
    "map_option ring_view (map_of (st_checks t) k) = map_option ring_view (map_of (st_checks s) k)"
    "map_of (st_budgetChecks t) k = map_of (st_budgetChecks s) k" "st_path t = path"
proof -
  have t: "t = snd (tryLoadData (Json (persist s)) (emptyStore service og path))"
    using assms(2,3) by (simp add: assms(4) NewStore_def load_def tryLoadData_def Let_def)
  have rings: "gomap_ok (ps_rings (persist s))" and budgets: "gomap_ok (ps_budgets (persist s))"
    using assms(1) by (simp_all add: persist_def gomap_ok_map_snd store_ok_def)
  have c: "map_of (st_checks t) = (\<lambda>k. map_option (\<lambda>r. loadRing (persistRing r)) (map_of (st_checks s) k))"
    "gomap_ok (st_checks t)"
    using load_fold [OF rings, of loadRing]
    by (simp_all add: t tryLoadData_def Let_def emptyStore_def persist_def map_of_map_snd option.map_comp comp_def)
  have copy: "(\<lambda>x :: budgetState. \<lparr> bs_violated = bs_violated x, bs_consecutive = bs_consecutive x \<rparr>) = (\<lambda>x. x)"
    by (simp add: fun_eq_iff)
  have b: "map_of (st_budgetChecks t) = map_of (st_budgetChecks s)" "gomap_ok (st_budgetChecks t)"
    using load_fold [OF budgets, of "\<lambda>b. \<lparr> bs_violated = pb_violated b, bs_consecutive = pb_consecutive b \<rparr>"]
    by (auto simp: t tryLoadData_def Let_def emptyStore_def persist_def map_of_map_snd option.map_comp
        comp_def copy option.map_ident fun_eq_iff)
  show "st_order t = st_order s" by (simp add: t tryLoadData_def Let_def persist_def)
  with assms(1) c b show "store_ok t"
    by (auto simp: store_ok_def domIff loadRing_at)
  from c b show "map_option ring_view (map_of (st_checks t) k) = map_option ring_view (map_of (st_checks s) k)"
    "map_of (st_budgetChecks t) k = map_of (st_budgetChecks s) k"
    by (auto simp: option.map_comp comp_def loadRing_view split: option.split)
  show "st_path t = path" by (simp add: t tryLoadData_def Let_def emptyStore_def)
qed

lemma Save_writes: "Save os base s d = (None, s', d') \<Longrightarrow> st_path s \<noteq> '''' \<Longrightarrow> map_of d' base = Some (Json (persist s))"
  by (auto simp: Save_def save_def Let_def gm.lookup_put split: if_splits)


definition all_ok :: io where
  "all_ok = \<lparr> io_mkdir = True, io_write = True, io_rename = True, io_readdir = True, io_remove = (\<lambda>_. True) \<rparr>"


section \<open>Backups\<close>

definition expired :: "io \<Rightarrow> string \<Rightarrow> gotime \<Rightarrow> string \<Rightarrow> bool" where
  "expired os base cutoff f \<longleftrightarrow> (\<exists>t. backupDate base f = Some t \<and> t < cutoff) \<and> io_remove os f"

lemma pruneLoop_fold: "pruneLoop os base cutoff names d = fold AList.delete (filter (expired os base cutoff) names) d"
  by (induction names arbitrary: d) (auto simp: expired_def split: option.split)

text \<open>
  Pruning removes exactly the dated backups of this status file that are older than
  ninety days (and that the system lets it remove): every other file stays, in particular the
  status file and the backup just made.
\<close>

theorem pruneBackups_removes:
  assumes "io_readdir os"
  shows "map_of (pruneBackups os now base d) f =
    (if expired os base (now - 90 * 24 * Hour) f then None else map_of d f)
    \<and> map_of (pruneBackups os now base d) base = map_of d base"
proof -
  have base: "\<not> expired os base c base" for c
    by (simp add: expired_def backupDate_def HasPrefix_iff)
  have "map_of (pruneBackups os now base d) f =
    (if expired os base (now - 90 * 24 * Hour) f then None else map_of d f)" for f
  proof (cases "f \<in> set (gokeys d)")
    case True
    with assms show ?thesis by (simp add: pruneBackups_def pruneLoop_fold gm.lookup_del_all backupRetention_def)
  next
    case False
    then have "map_of d f = None" by (simp add: gm.set_keys domIff)
    with assms show ?thesis by (simp add: pruneBackups_def pruneLoop_fold gm.lookup_del_all)
  qed
  with base show ?thesis by simp
qed

theorem pruneBackups_removes_witness:
  "map_of (pruneBackups all_ok (738885 * 24 * Hour) ''s'' [(''s'', Garbage), (''s.20230101'', Garbage)]) ''s'' = Some Garbage"
proof -
  have "io_readdir all_ok" by (simp add: all_ok_def)
  from pruneBackups_removes [OF this, THEN conjunct2, of "738885 * 24 * Hour" "''s''" "[(''s'', Garbage), (''s.20230101'', Garbage)]"]
  show ?thesis by simp
qed

lemma latestLoop_max:
  assumes "\<And>n. n \<in> set names \<Longrightarrow> backupDate base n \<noteq> None \<Longrightarrow> n \<noteq> ''''"
  shows "let l = latestLoop base names acc; dated = filter (\<lambda>n. backupDate base n \<noteq> None) names
    in acc \<le> l \<and> (l = acc \<or> l \<in> set dated) \<and> (\<forall>n \<in> set dated. n \<le> l)"
  using assms
proof (induction names arbitrary: acc)
  case (Cons n names)
  then have ih: "let l = latestLoop base names acc; dated = filter (\<lambda>n. backupDate base n \<noteq> None) names
    in acc \<le> l \<and> (l = acc \<or> l \<in> set dated) \<and> (\<forall>n \<in> set dated. n \<le> l)" for acc by simp
  show ?case
    using ih [of acc] ih [of n] by (auto simp: Let_def not_less)
qed simp

lemma backupDate_nonempty: "backupDate base n \<noteq> None \<Longrightarrow> n \<noteq> ''''"
  by (auto simp: backupDate_def HasPrefix_iff)

text \<open>
  Property C39. Loading falls back: with a readable directory and a status file that is missing or
  does not parse, the state is taken from the dated backup with the greatest name (no other dated
  backup has a greater one), and with neither the store starts empty.
\<close>

theorem load_fallback:
  assumes "io_readdir os" and "map_of d base = None \<or> map_of d base = Some Garbage"
  shows "(\<exists>f data. backupDate base f \<noteq> None \<and> map_of d f = Some data
            \<and> (\<forall>g \<in> set (gokeys d). backupDate base g \<noteq> None \<longrightarrow> g \<le> f)
            \<and> load os base d s = snd (tryLoadData data s))
         \<or> ((\<forall>g \<in> set (gokeys d). backupDate base g = None) \<and> load os base d s = s)"
proof -
  let ?l = "latestLoop base (sort (gokeys d)) ''''"
  have mx: "?l = '''' \<or> ?l \<in> set (gokeys d) \<and> backupDate base ?l \<noteq> None"
    "\<forall>g \<in> set (gokeys d). backupDate base g \<noteq> None \<longrightarrow> g \<le> ?l"
    using latestLoop_max [of "sort (gokeys d)" base "''''"] backupDate_nonempty by (auto simp: Let_def)
  have lb: "latestBackup os base d = (if ?l = '''' then None else map_of d ?l)"
    using assms(1) by (simp add: latestBackup_def Let_def)
  have ld: "load os base d s = (case latestBackup os base d of None \<Rightarrow> s | Some bk \<Rightarrow> snd (tryLoadData bk s))"
    using assms(2) by (auto simp: load_def tryLoadData_def Let_def split: option.split filedata.split)
  show ?thesis
  proof (cases "?l = ''''")
    case True
    have "backupDate base g = None" if "g \<in> set (gokeys d)" for g
      using mx(2) that backupDate_nonempty [of base g] True
      by (cases "backupDate base g"; cases g) auto
    with True lb ld show ?thesis by simp
  next
    case False
    with mx(1) have "?l \<in> dom (map_of d)" by (simp add: gm.set_keys)
    then obtain data where "map_of d ?l = Some data" by blast
    with False mx lb ld show ?thesis by auto
  qed
qed

theorem load_fallback_witness:
  "load all_ok ''s'' [(''s'', Garbage)] (emptyStore ''svc'' None ''s'') = emptyStore ''svc'' None ''s''"
  using load_fallback [of all_ok "[(''s'', Garbage)]" "''s''" "emptyStore ''svc'' None ''s''"]
  by (auto simp: all_ok_def gokeys_def backupDate_def HasPrefix_def split: if_splits)

section \<open>A file with a dangling order\<close>

text \<open>
  Loading does not check that every key of the order has a ring: a status file without the ring
  of an ordered key parses, and the next snapshot dereferences nil.
\<close>

lemma dangling_order_panics:
  "computeSnapshot now (NewStore all_ok ''s''
     [(''s'', Json \<lparr> ps_order = [''http:web''], ps_rings = [], ps_budgets = [] \<rparr>)] service og ''s'') = None"
  by (simp add: NewStore_def load_def tryLoadData_def computeSnapshot_def emptyStore_def Let_def)

end
