(* ===== verification/Worker.thy ===== *)
theory Worker
  imports Scheduler Notify Budgets Status_Persist Metrics
begin

text \<open>
  The worker, \<open>cmd/worker.go\<close>: the loop that drains the scheduler's results into the status
  store, the notifier, the budgets, the metrics and the log, the periodic and the final save, and
  the \<open>/health\<close> handler. \<open>clk n\<close> is the \<open>n\<close>-th reading of the clock within one iteration;
  \<open>trace\<close> stands for \<open>metrics.TraceCheckResult\<close>, which returns the ids of the exported span.
  A dereference of the nil origin is the flag \<open>w_panic\<close>, after which the loop is dead.
\<close>

section \<open>State\<close>

record log_entry =
  lg_warn :: bool
  lg_name :: string
  lg_type :: check_type
  lg_success :: bool
  lg_duration :: duration
  lg_region :: string
  lg_degraded :: bool
  lg_retries :: int
  lg_error :: string
  lg_trace :: "(string \<times> string) option"

record worker =
  w_store :: Store
  w_notifier :: "Manager option"
  w_metrics :: metrics
  w_log :: "log_entry list"
  w_panic :: bool

section \<open>The drain loop\<close>

text \<open>The body of the loop over the evaluated budget metrics; \<open>i\<close> counts the iterations.\<close>

definition drainBudget :: "(nat \<Rightarrow> gotime) \<Rightarrow> Origin option \<Rightarrow> nat \<Rightarrow> CheckResult \<Rightarrow> worker \<Rightarrow> worker" where
  "drainBudget clk origin i c w =
     (let mt = RecordBudgetViolation (cr_check c) (cr_metric c) (cr_violated c) origin (w_metrics w);
          (crossed, st) = RecordBudgetCheck (cr_check c) (cr_metric c) (cr_violated c) (w_store w);
          nf = (if crossed
                then HandleBudgetViolation (clk (2 + 2 * i)) (clk (3 + 2 * i)) (w_notifier w) (cr_check c) (cr_metric c) True
                else w_notifier w)
      in w \<lparr> w_metrics := mt, w_store := st, w_notifier := nf \<rparr>)"

fun drainBudgets :: "(nat \<Rightarrow> gotime) \<Rightarrow> Origin option \<Rightarrow> nat \<Rightarrow> CheckResult list \<Rightarrow> worker \<Rightarrow> worker" where
  "drainBudgets clk origin i [] w = w"
| "drainBudgets clk origin i (c # cs) w = drainBudgets clk origin (Suc i) cs (drainBudget clk origin i c w)"

definition logResult :: "(Result \<Rightarrow> (string \<times> string)) \<Rightarrow> Origin \<Rightarrow> Result \<Rightarrow> log_entry" where
  "logResult trace og r =
     \<lparr> lg_warn = (\<not> r_success r \<or> r_degraded r), lg_name = r_name r, lg_type = r_type r,
       lg_success = r_success r, lg_duration = r_duration r, lg_region = o_id og,
       lg_degraded = r_degraded r, lg_retries = r_retries r, lg_error = r_error r,
       lg_trace = (if fst (trace r) \<noteq> '''' then Some (trace r) else None) \<rparr>"

definition drainResult ::
  "(Result \<Rightarrow> (string \<times> string)) \<Rightarrow> (nat \<Rightarrow> gotime) \<Rightarrow> Origin option \<Rightarrow> Budget list \<Rightarrow> Result \<Rightarrow> worker \<Rightarrow> worker"
where
  "drainResult trace clk origin budgets r w =
     (if w_panic w then w
      else (let w1 = w \<lparr> w_store := Push r (w_store w),
                         w_notifier := HandleCertResult (clk 1) (HandleResult (clk 0) (w_notifier w) r) r \<rparr>;
                w2 = (if length budgets > 0 \<and> \<not> r_infra_error r
                      then drainBudgets clk origin 0 (EvaluateAll r budgets) w1 else w1)
            in case origin of
                 None \<Rightarrow> w2 \<lparr> w_panic := True \<rparr>
               | Some og \<Rightarrow> w2 \<lparr> w_log := w_log w2 @ [logResult trace og r] \<rparr>))"

definition drain ::
  "(Result \<Rightarrow> (string \<times> string)) \<Rightarrow> Origin option \<Rightarrow> Budget list \<Rightarrow> ((nat \<Rightarrow> gotime) \<times> Result) list \<Rightarrow> worker \<Rightarrow> worker"
where
  "drain trace origin budgets rs w = fold (\<lambda>(clk, r). drainResult trace clk origin budgets r) rs w"

section \<open>Saving and health\<close>

definition saveTick :: "io \<Rightarrow> string \<Rightarrow> worker \<times> dir \<Rightarrow> worker \<times> dir" where
  "saveTick os base wd =
     (case Save os base (w_store (fst wd)) (snd wd) of
        (err, st, d) \<Rightarrow>
          ((fst wd) \<lparr> w_store := st,
             w_metrics := (if err \<noteq> None then RecordStatusStoreWriteError (w_metrics (fst wd)) else w_metrics (fst wd)) \<rparr>, d))"

definition backupTick :: "io \<Rightarrow> gotime \<Rightarrow> gotime \<Rightarrow> string \<Rightarrow> worker \<times> dir \<Rightarrow> worker \<times> dir" where
  "backupTick os now now' base wd = (fst wd, SaveBackup os now now' base (w_store (fst wd)) (snd wd))"

definition health :: "Store \<Rightarrow> int \<times> string" where
  "health s =
     (if \<not> WriteHealthy s
      then (503, ''status store writes failing: '' @ itoa (ConsecutiveWriteFailures s)
              @ '' consecutive failures'' @ [CHR 10])
      else (200, ''ok''))"

text \<open>What \<open>runWorker\<close> builds before the loops start.\<close>

definition startWorker ::
  "io \<Rightarrow> string \<Rightarrow> dir \<Rightarrow> Config \<Rightarrow> string \<Rightarrow> CheckConfig list \<Rightarrow> string \<Rightarrow> worker"
where
  "startWorker os base d cfg originID checks path =
     (let st = Reconcile checks (NewStore os base d (cfg_service cfg) (ResolveOrigin cfg originID) path)
      in \<lparr> w_store = (if pe_enabled (cfg_persistence cfg) then SetHistory st else st),
           w_notifier = NewManager (cfg_webhooks cfg),
           w_metrics = SetMaxCheckCardinality (pm_max_check_cardinality (cfg_prometheus cfg)) init_metrics,
           w_log = [], w_panic = False \<rparr>)"

section \<open>Draining\<close>

definition input_results :: "input list \<Rightarrow> Result list" where
  "input_results is = List.map_filter (\<lambda>i. case i of ResultIn now r \<Rightarrow> Some r | _ \<Rightarrow> None) is"

definition only_violations :: "input list \<Rightarrow> bool" where
  "only_violations is \<longleftrightarrow> list_all (\<lambda>i. case i of BudgetIn ts now c m v \<Rightarrow> v | _ \<Rightarrow> True) is"

lemma input_results_simps [simp]:
  "input_results [] = []" "input_results (is @ js) = input_results is @ input_results js"
  "input_results (ResultIn now r # is) = r # input_results is"
  "input_results (CertIn now r # is) = input_results is"
  "input_results (BudgetIn ts now c m v # is) = input_results is"
  by (simp_all add: input_results_def List.map_filter_def)

lemma only_violations_append [simp]: "only_violations (is @ js) \<longleftrightarrow> only_violations is \<and> only_violations js"
  by (simp add: only_violations_def)

lemma nil_manager:
  "HandleResult now None r = None" "HandleCertResult now None r = None"
  "HandleBudgetViolation ts now None c m v = None"
  by (simp_all add: HandleResult_def HandleCertResult_def HandleBudgetViolation_def)

text \<open>One step of the loop as calls of the notifier.\<close>

lemma drainBudget_frame [simp]:
  "w_log (drainBudget clk og i c w) = w_log w" "w_panic (drainBudget clk og i c w) = w_panic w"
  "st_checks (w_store (drainBudget clk og i c w)) = st_checks (w_store w)"
  "st_order (w_store (drainBudget clk og i c w)) = st_order (w_store w)"
  by (simp_all add: drainBudget_def Let_def case_prod_beta RecordBudgetCheck_sel)

lemma drainBudget_ok: "store_ok (w_store w) \<Longrightarrow> store_ok (w_store (drainBudget clk og i c w))"
  by (simp add: drainBudget_def Let_def case_prod_beta RecordBudgetCheck_ok)

lemma drainBudget_inputs:
  "\<exists>is. only_violations is \<and> input_results is = []
     \<and> w_notifier (drainBudget clk og i c w) = map_option (fold handle is) (w_notifier w)"
proof (cases "fst (RecordBudgetCheck (cr_check c) (cr_metric c) (cr_violated c) (w_store w)) \<and> w_notifier w \<noteq> None")
  case True
  let ?i = "BudgetIn (clk (2 + 2 * i)) (clk (3 + 2 * i)) (cr_check c) (cr_metric c) True"
  from True have "w_notifier (drainBudget clk og i c w) = map_option (fold handle [?i]) (w_notifier w)"
    by (auto simp: drainBudget_def Let_def case_prod_beta handle_is_handler)
  moreover have "only_violations [?i]" "input_results [?i] = []"
    by (simp_all add: only_violations_def)
  ultimately show ?thesis by blast
next
  case False
  then have "w_notifier (drainBudget clk og i c w) = map_option (fold handle []) (w_notifier w)"
    by (cases "w_notifier w") (auto simp: drainBudget_def Let_def case_prod_beta nil_manager)
  moreover have "only_violations []" "input_results [] = []" by (simp_all add: only_violations_def)
  ultimately show ?thesis by blast
qed

lemma map_option_fold_append:
  "map_option (fold f ys) (map_option (fold f xs) x) = map_option (fold f (xs @ ys)) x"
  by (cases x) simp_all

lemma drainBudgets_frame [simp]:
  "w_log (drainBudgets clk og i cs w) = w_log w" "w_panic (drainBudgets clk og i cs w) = w_panic w"
  "st_checks (w_store (drainBudgets clk og i cs w)) = st_checks (w_store w)"
  "st_order (w_store (drainBudgets clk og i cs w)) = st_order (w_store w)"
  by (induction cs arbitrary: i w) simp_all

lemma drainBudgets_ok: "store_ok (w_store w) \<Longrightarrow> store_ok (w_store (drainBudgets clk og i cs w))"
  by (induction cs arbitrary: i w) (simp_all add: drainBudget_ok)

lemma no_calls: "only_violations []" "input_results [] = []" "x = map_option (fold handle []) x"
  by (simp_all add: only_violations_def option.map_id)

lemma drainBudgets_inputs:
  "\<exists>is. only_violations is \<and> input_results is = []
     \<and> w_notifier (drainBudgets clk og i cs w) = map_option (fold handle is) (w_notifier w)"
proof (induction cs arbitrary: i w)
  case Nil
  show ?case unfolding drainBudgets.simps using no_calls by blast
next
  case (Cons c cs)
  let ?w = "drainBudget clk og i c w"
  from Cons [of "Suc i" ?w] obtain js where js: "only_violations js" "input_results js = []"
    "w_notifier (drainBudgets clk og (Suc i) cs ?w) = map_option (fold handle js) (w_notifier ?w)" by blast
  from drainBudget_inputs [of clk og i c w] obtain is0 where is0: "only_violations is0" "input_results is0 = []"
    "w_notifier ?w = map_option (fold handle is0) (w_notifier w)" by blast
  have "w_notifier (drainBudgets clk og i (c # cs) w) = map_option (fold handle (is0 @ js)) (w_notifier w)"
    using js(3) is0(3) map_option_fold_append [of handle js is0 "w_notifier w"] by simp
  moreover have "only_violations (is0 @ js)" "input_results (is0 @ js) = []" using js is0 by simp_all
  ultimately show ?case by blast
qed

definition calls_for :: "(nat \<Rightarrow> gotime) \<Rightarrow> Result \<Rightarrow> input list" where
  "calls_for clk r = [ResultIn (clk 0) r, CertIn (clk 1) r]"

lemma drainResult_spec:
  assumes "\<not> w_panic w"
  shows "w_panic (drainResult trace clk origin budgets r w) \<longleftrightarrow> origin = None"
    and "st_checks (w_store (drainResult trace clk origin budgets r w)) = st_checks (Push r (w_store w))"
    and "store_ok (w_store w) \<Longrightarrow> store_ok (w_store (drainResult trace clk origin budgets r w))"
    and "w_log (drainResult trace clk origin budgets r w) =
      w_log w @ (case origin of None \<Rightarrow> [] | Some og \<Rightarrow> [logResult trace og r])"
    and "\<exists>is. only_violations is \<and> input_results is = [r]
      \<and> w_notifier (drainResult trace clk origin budgets r w) = map_option (fold handle is) (w_notifier w)"
proof -
  define w1 where "w1 = w \<lparr> w_store := Push r (w_store w),
      w_notifier := HandleCertResult (clk 1) (HandleResult (clk 0) (w_notifier w) r) r \<rparr>"
  define w2 where "w2 = (if length budgets > 0 \<and> \<not> r_infra_error r
      then drainBudgets clk origin 0 (EvaluateAll r budgets) w1 else w1)"
  have d: "drainResult trace clk origin budgets r w =
      (case origin of None \<Rightarrow> w2 \<lparr> w_panic := True \<rparr> | Some og \<Rightarrow> w2 \<lparr> w_log := w_log w2 @ [logResult trace og r] \<rparr>)"
    using assms unfolding drainResult_def Let_def w1_def [symmetric] w2_def [symmetric] by simp
  note b = drainBudgets_inputs [of clk origin 0 "EvaluateAll r budgets" w1]
  have n1: "w_notifier w1 = map_option (fold handle (calls_for clk r)) (w_notifier w)"
    by (cases "w_notifier w") (simp_all add: w1_def calls_for_def handle_is_handler nil_manager)
  have "\<exists>is. only_violations is \<and> input_results is = [] \<and> w_notifier w2 = map_option (fold handle is) (w_notifier w1)"
  proof (cases "length budgets > 0 \<and> \<not> r_infra_error r")
    case True
    then have "w2 = drainBudgets clk origin 0 (EvaluateAll r budgets) w1" by (simp add: w2_def)
    with b show ?thesis by (simp only:)
  next
    case False
    then have "w2 = w1" unfolding w2_def by (simp only: if_False)
    with no_calls show ?thesis by blast
  qed
  then obtain is2 where is2: "only_violations is2" "input_results is2 = []"
    "w_notifier w2 = map_option (fold handle is2) (w_notifier w1)" by blast
  have n2: "only_violations (calls_for clk r @ is2) \<and> input_results (calls_for clk r @ is2) = [r]
      \<and> w_notifier w2 = map_option (fold handle (calls_for clk r @ is2)) (w_notifier w)"
    using is2 n1 map_option_fold_append [of handle is2 "calls_for clk r" "w_notifier w"]
    by (simp add: calls_for_def only_violations_def)
  have "w_notifier (drainResult trace clk origin budgets r w) = w_notifier w2"
    unfolding d by (simp split: option.split)
  with n2 show "\<exists>is. only_violations is \<and> input_results is = [r]
      \<and> w_notifier (drainResult trace clk origin budgets r w) = map_option (fold handle is) (w_notifier w)"
    by metis
  have "w_panic w2 = w_panic w" "st_checks (w_store w2) = st_checks (Push r (w_store w))" "w_log w2 = w_log w"
    "store_ok (w_store w) \<longrightarrow> store_ok (w_store w2)"
    by (simp_all add: w2_def w1_def Push_ok drainBudgets_ok)
  with assms show "w_panic (drainResult trace clk origin budgets r w) \<longleftrightarrow> origin = None"
    "st_checks (w_store (drainResult trace clk origin budgets r w)) = st_checks (Push r (w_store w))"
    "store_ok (w_store w) \<Longrightarrow> store_ok (w_store (drainResult trace clk origin budgets r w))"
    "w_log (drainResult trace clk origin budgets r w) =
      w_log w @ (case origin of None \<Rightarrow> [] | Some og \<Rightarrow> [logResult trace og r])"
    unfolding d by (auto split: option.split)
qed

lemma history_of_cong: "st_checks a = st_checks b \<Longrightarrow> history_of key a = history_of key b"
  by (simp add: history_of_def)

lemma drain_Cons: "drain trace og budgets ((clk, r) # rs) w = drain trace og budgets rs (drainResult trace clk og budgets r w)"
  by (simp add: drain_def)

lemma drain_all:
  assumes "\<not> w_panic w" "store_ok (w_store w)"
  shows "let w' = drain trace (Some og) budgets rs w
    in \<not> w_panic w' \<and> store_ok (w_store w')
       \<and> w_log w' = w_log w @ map (\<lambda>(clk, r). logResult trace og r) rs
       \<and> history_of key (w_store w') = history_of key (fold Push (map snd rs) (w_store w))
       \<and> (\<exists>is. only_violations is \<and> input_results is = map snd rs
            \<and> w_notifier w' = map_option (fold handle is) (w_notifier w))"
  using assms
proof (induction rs arbitrary: w)
  case Nil
  then show ?case using no_calls(1,2) no_calls(3) [of "w_notifier w"]
    by (auto simp: drain_def Let_def)
next
  case (Cons x rs)
  obtain clk r where x: "x = (clk, r)" by (cases x)
  let ?w1 = "drainResult trace clk (Some og) budgets r w"
  note sp = drainResult_spec [OF Cons.prems(1), where trace = trace and clk = clk
      and origin = "Some og" and budgets = budgets and r = r]
  have np: "\<not> w_panic ?w1" and ok: "store_ok (w_store ?w1)" using sp(1,3) Cons.prems(2) by simp_all
  let ?w' = "drain trace (Some og) budgets rs ?w1"
  note ih = Cons.IH [OF np ok, unfolded Let_def]
  from ih obtain js where js: "only_violations js" "input_results js = map snd rs"
    "w_notifier ?w' = map_option (fold handle js) (w_notifier ?w1)" by blast
  from sp(5) obtain is0 where is0: "only_violations is0" "input_results is0 = [r]"
    "w_notifier ?w1 = map_option (fold handle is0) (w_notifier w)" by blast
  have "history_of key (fold Push (map snd rs) (w_store ?w1)) =
      history_of key (fold Push (map snd rs) (Push r (w_store w)))"
    using history_of_cong [OF sp(2), of key]
    by (simp add: history_of_pushes [OF ok] history_of_pushes [OF Push_ok [OF Cons.prems(2)]])
  with ih have hist: "history_of key (w_store ?w') = history_of key (fold Push (map snd (x # rs)) (w_store w))"
    by (simp add: x)
  have "w_notifier ?w' = map_option (fold handle (is0 @ js)) (w_notifier w)"
    using js(3) is0(3) map_option_fold_append [of handle js is0 "w_notifier w"] by simp
  moreover have "only_violations (is0 @ js)" "input_results (is0 @ js) = map snd (x # rs)"
    using js is0 x by simp_all
  ultimately have calls: "\<exists>is. only_violations is \<and> input_results is = map snd (x # rs)
      \<and> w_notifier ?w' = map_option (fold handle is) (w_notifier w)" by blast
  have log: "w_log ?w' = w_log w @ map (\<lambda>(clk, r). logResult trace og r) (x # rs)"
    using ih sp(4) by (simp add: x)
  show ?case
    unfolding x drain_Cons Let_def using ih hist calls log x by blast
qed


definition sample_worker :: worker where
  "sample_worker = \<lparr> w_store = emptyStore ''svc'' None '''', w_notifier = NewManager [sample_hook],
     w_metrics = init_metrics, w_log = [], w_panic = False \<rparr>"

definition sample_origin :: Origin where
  "sample_origin = \<lparr> o_id = ''fra'', o_city = ''Frankfurt'', o_country = ''DE'', o_platform = '''', o_labels = [] \<rparr>"


section \<open>Two defects of the loop\<close>

text \<open>
  Without a configured origin the loop panics at its first result, after having pushed it: every
  later result is lost, and nothing is logged.
\<close>

lemma drain_without_origin:
  assumes "\<not> w_panic w"
  shows "drain trace None budgets (x # rs) w = drain trace None budgets [x] w
    \<and> w_panic (drain trace None budgets (x # rs) w)
    \<and> w_log (drain trace None budgets (x # rs) w) = w_log w"
proof -
  obtain clk r where x: "x = (clk, r)" by (cases x)
  let ?w1 = "drainResult trace clk None budgets r w"
  have p: "w_panic ?w1" "w_log ?w1 = w_log w" using drainResult_spec [OF assms] by simp_all
  have "drain trace None budgets rs v = v" if "w_panic v" for v
    using that by (induction rs) (auto simp: drain_def drainResult_def)
  with p show ?thesis by (simp add: x drain_Cons) (simp add: drain_def)
qed

lemma only_violations_run:
  "only_violations is \<Longrightarrow> get_or False (m_budgetStates m) key \<Longrightarrow> get_or False (m_budgetStates (fold handle is m)) key"
proof (induction "is" arbitrary: m)
  case (Cons i "is")
  then show ?case
    by (cases i) (auto simp: only_violations_def handle_budget_state violating_def concerns_budget_def)
qed simp

text \<open>
  The loop reports a crossed budget threshold with \<open>true\<close> and never reports its recovery, so the
  notifier stays in the violated state: once raised, the notification of a check and metric is not
  raised again, however long the metric recovered in between.
\<close>

lemma budget_notified_once:
  assumes "\<not> w_panic w" "store_ok (w_store w)" "w_notifier w = Some m"
    and "get_or False (m_budgetStates m) (budget_key c metric)"
  shows "\<exists>m'. w_notifier (drain trace (Some og) budgets rs w) = Some m'
    \<and> raised (BudgetIn ts now c metric True) m' = None"
proof -
  from drain_all [OF assms(1,2), of trace og budgets rs] obtain "is" where
    "only_violations is" "w_notifier (drain trace (Some og) budgets rs w) = map_option (fold handle is) (w_notifier w)"
    by (auto simp: Let_def)
  with only_violations_run [OF _ assms(4)] assms(3) show ?thesis
    by (auto simp: raised_def trackBudget_def Let_def)
qed

section \<open>Health\<close>

definition saveTicks :: "(io list) \<Rightarrow> string \<Rightarrow> worker \<times> dir \<Rightarrow> worker \<times> dir" where
  "saveTicks oss base wd = fold (\<lambda>os. saveTick os base) oss wd"

definition save_fails :: "io \<Rightarrow> bool" where
  "save_fails os \<longleftrightarrow> \<not> (io_mkdir os \<and> io_write os \<and> io_rename os)"

lemma save_error_iff: "fst (save os base s d) \<noteq> None \<longleftrightarrow> save_fails os"
  by (simp add: save_def save_fails_def Let_def)

lemma saveTick_spec:
  assumes "st_path (w_store (fst wd)) \<noteq> ''''"
  shows "st_path (w_store (fst (saveTick os base wd))) = st_path (w_store (fst wd))"
    and "\<exists>err. (err \<noteq> None \<longleftrightarrow> save_fails os)
      \<and> w_store (fst (saveTick os base wd)) = recordWriteResult err (w_store (fst wd))"
    and "mt_write_errors (w_metrics (fst (saveTick os base wd))) =
      mt_write_errors (w_metrics (fst wd)) + of_bool (save_fails os)"
  using assms save_error_iff [of os base "w_store (fst wd)" "snd wd"]
  by (auto simp: saveTick_def Save_def case_prod_beta recordWriteResult_def RecordStatusStoreWriteError_def
      split: option.split)

lemma saveTicks_spec:
  assumes "st_path (w_store (fst wd)) \<noteq> ''''"
  shows "(\<exists>errs. map (\<lambda>e. e \<noteq> None) errs = map save_fails oss
      \<and> w_store (fst (saveTicks oss base wd)) = fold recordWriteResult errs (w_store (fst wd)))
    \<and> mt_write_errors (w_metrics (fst (saveTicks oss base wd))) =
      mt_write_errors (w_metrics (fst wd)) + int (length (filter save_fails oss))"
  using assms
proof (induction oss arbitrary: wd)
  case (Cons os oss)
  note st = saveTick_spec [OF Cons.prems, of os base]
  from Cons.IH [of "saveTick os base wd"] st(1) Cons.prems obtain errs where
    e: "map (\<lambda>e. e \<noteq> None) errs = map save_fails oss"
      "w_store (fst (saveTicks oss base (saveTick os base wd))) = fold recordWriteResult errs (w_store (fst (saveTick os base wd)))"
      "mt_write_errors (w_metrics (fst (saveTicks oss base (saveTick os base wd)))) =
        mt_write_errors (w_metrics (fst (saveTick os base wd))) + int (length (filter save_fails oss))"
    by auto
  from st(2) obtain err where "err \<noteq> None \<longleftrightarrow> save_fails os"
    "w_store (fst (saveTick os base wd)) = recordWriteResult err (w_store (fst wd))" by blast
  with e st(3) have "map (\<lambda>e. e \<noteq> None) (err # errs) = map save_fails (os # oss)
      \<and> w_store (fst (saveTicks (os # oss) base wd)) = fold recordWriteResult (err # errs) (w_store (fst wd))"
    "mt_write_errors (w_metrics (fst (saveTicks (os # oss) base wd))) =
      mt_write_errors (w_metrics (fst wd)) + int (length (filter save_fails (os # oss)))"
    by (auto simp: saveTicks_def)
  then show ?case by blast
qed (auto simp: saveTicks_def intro: exI [of _ "[]"])

text \<open>
  The health endpoint of a worker with a fresh counter: after any sequence of saves
  it answers 503 exactly when the last five all failed, and otherwise 200; the write-error counter
  has grown by the number of failed saves.
\<close>

theorem health_reflects_saves:
  assumes "st_path (w_store (fst wd)) \<noteq> ''''" and "st_consecutiveWriteFail (w_store (fst wd)) = 0"
  shows "fst (health (w_store (fst (saveTicks oss base wd)))) =
      (if 5 \<le> length oss \<and> list_all save_fails (lastn 5 oss) then 503 else 200)
    \<and> mt_write_errors (w_metrics (fst (saveTicks oss base wd))) =
      mt_write_errors (w_metrics (fst wd)) + int (length (filter save_fails oss))"
proof -
  from saveTicks_spec [OF assms(1), of oss base] obtain errs where
    e: "map (\<lambda>e. e \<noteq> None) errs = map save_fails oss"
      "w_store (fst (saveTicks oss base wd)) = fold recordWriteResult errs (w_store (fst wd))"
    and me: "mt_write_errors (w_metrics (fst (saveTicks oss base wd))) =
      mt_write_errors (w_metrics (fst wd)) + int (length (filter save_fails oss))" by blast
  have len: "length errs = length oss" using arg_cong [OF e(1), of length] by simp
  have "list_all (\<lambda>e. e \<noteq> None) (lastn 5 errs) \<longleftrightarrow> list_all save_fails (lastn 5 oss)"
    using arg_cong [OF e(1), of "\<lambda>bs. list_all id (lastn 5 bs)"]
    by (simp add: lastn_def drop_map list.pred_map comp_def)
  with wf.count_ge_iff [OF TrueI assms(2), of 5 errs] len me show ?thesis
    by (auto simp: health_def WriteHealthy_def writeFailureThreshold_def e(2))
qed

theorem health_reflects_saves_witness:
  "fst (health (w_store (fst (saveTicks (replicate 5 (all_ok \<lparr> io_write := False \<rparr>)) ''s''
     (sample_worker \<lparr> w_store := emptyStore ''svc'' None ''s'' \<rparr>, []))))) = 503"
  using health_reflects_saves [of "(sample_worker \<lparr> w_store := emptyStore ''svc'' None ''s'' \<rparr>, [])"
      "replicate 5 (all_ok \<lparr> io_write := False \<rparr>)" "''s''"]
  by (simp add: emptyStore_def save_fails_def lastn_def list_all_iff)

end
