(* ===== verification/Check_BGP.thy ===== *)
theory Check_BGP
  imports Scheduler
begin

text \<open>
  The BGP checker, \<open>internal/check/bgp.go\<close>. RIPE Stat is not part of the program: its answers to
  the two queries are the arguments \<open>routing_reply\<close> and \<open>rpki_reply\<close>, one constructor per
  outcome that the code tells apart. The map \<open>knownMoreSpecifics\<close> is the state; the time taken is
  the argument \<open>elapsed\<close>.
\<close>

section \<open>Data\<close>

record moreSpecific =
  ms_prefix :: string
  ms_origin :: int

datatype routing_reply =
    BuildFailed string
  | QueryFailed string
  | BadStatus int
  | ParseFailed string
  | Routing "int list" "moreSpecific list"

datatype rpki_reply = RpkiNoAnswer | RpkiHTTP int | RpkiUnparsed | RpkiVerdict string

type_synonym known = "string \<Rightarrow> string list option"

definition NewBGPChecker :: known where
  "NewBGPChecker = Map.empty"

section \<open>Operations\<close>

definition observeMoreSpecifics :: "known \<Rightarrow> string \<Rightarrow> string list \<Rightarrow> string list \<times> known" where
  "observeMoreSpecifics kn checkName current =
     ((case kn checkName of
         None \<Rightarrow> []
       | Some seen \<Rightarrow> filter (\<lambda>p. p \<notin> set seen) current),
      kn(checkName \<mapsto> current))"

definition rpkiStatus :: "rpki_reply \<Rightarrow> string" where
  "rpkiStatus reply =
     (case reply of
        RpkiNoAnswer \<Rightarrow> ''unknown''
      | RpkiHTTP code \<Rightarrow> ''unknown''
      | RpkiUnparsed \<Rightarrow> ''unknown''
      | RpkiVerdict s \<Rightarrow> if s = '''' then ''unknown'' else s)"

definition rogue_of :: "int \<Rightarrow> moreSpecific list \<Rightarrow> string list" where
  "rogue_of expected mss =
     map (\<lambda>ms. ms_prefix ms @ '' (AS'' @ itoa (ms_origin ms) @ '')'') (filter (\<lambda>ms. ms_origin ms \<noteq> expected) mss)"

definition unexpected_of :: "int \<Rightarrow> int list \<Rightarrow> string list" where
  "unexpected_of expected asns = map (\<lambda>asn. ''AS'' @ itoa asn) (filter (\<lambda>asn. asn \<noteq> expected) asns)"

text \<open>The judgement of a routing answer, from line 165 on.\<close>

definition judgeRouting ::
  "BGPCheckConfig \<Rightarrow> string list \<Rightarrow> rpki_reply \<Rightarrow> int list \<Rightarrow> moreSpecific list \<Rightarrow> Result \<Rightarrow> Result"
where
  "judgeRouting b fresh rpki origins mss r0 =
     (let rogue = rogue_of (b_expected_origin b) mss;
          r = r0 \<lparr> r_bgp_prefix_visible := (length origins > 0 \<or> length mss > 0) \<rparr>
      in if length rogue > 0 then
           r \<lparr> r_bgp_origin_match := False,
               r_error := ''more-specific prefix of '' @ b_prefix b
                 @ '' announced by an unexpected origin: '' @ Join rogue '', '' @ '' (possible hijack)'' \<rparr>
         else if length fresh > 0 then
           r \<lparr> r_bgp_origin_match := False,
               r_error := ''new more-specific prefix of '' @ b_prefix b
                 @ '' appeared, announced by the expected origin AS'' @ itoa (b_expected_origin b)
                 @ '': '' @ Join fresh '', '' @ '' (a forged AS path can show the correct origin for a hijacked route; verify this announcement is intentional)'' \<rparr>
         else if \<not> r_bgp_prefix_visible r then
           r \<lparr> r_error := ''prefix '' @ b_prefix b @ '' not visible in global routing table'' \<rparr>
         else
           (let r1 = (case origins of [] \<Rightarrow> r | asn # _ \<Rightarrow> r \<lparr> r_bgp_origin_asn := asn \<rparr>);
                unexpected = unexpected_of (b_expected_origin b) origins
            in if length unexpected > 0 then
                 r1 \<lparr> r_bgp_origin_match := False,
                      r_error := ''origin AS mismatch for '' @ b_prefix b @ '': expected AS''
                        @ itoa (b_expected_origin b) @ '', found '' @ Join unexpected '', '' @ '' (possible hijack)'' \<rparr>
               else
                 (let r2 = r1 \<lparr> r_bgp_origin_match := True, r_bgp_rpki_status := rpkiStatus rpki \<rparr>
                  in if HasPrefix (r_bgp_rpki_status r2) ''invalid'' then
                       r2 \<lparr> r_error := ''RPKI '' @ r_bgp_rpki_status r2 @ '' for '' @ b_prefix b
                              @ '' announced by AS'' @ itoa (b_expected_origin b)
                              @ '': no ROA authorizes this announcement'' \<rparr>
                     else r2 \<lparr> r_success := True \<rparr>)))"

definition bgpInfra :: "duration \<Rightarrow> string \<Rightarrow> Result \<Rightarrow> Result" where
  "bgpInfra elapsed msg r = r \<lparr> r_duration := elapsed, r_infra_error := True, r_error := msg \<rparr>"

definition BGP_Run ::
  "gotime \<Rightarrow> duration \<Rightarrow> routing_reply \<Rightarrow> rpki_reply \<Rightarrow> CheckConfig \<Rightarrow> Origin option \<Rightarrow> known \<Rightarrow> Result \<times> known"
where
  "BGP_Run now elapsed reply rpki cfg origin kn =
     (let result = NewResult now (c_name cfg) CheckTypeBGP origin
      in case c_bgp cfg of
           None \<Rightarrow> (result \<lparr> r_error := ''missing BGP check configuration'' \<rparr>, kn)
         | Some b \<Rightarrow>
             (case reply of
                BuildFailed e \<Rightarrow> (bgpInfra elapsed (''building request: '' @ e) result, kn)
              | QueryFailed e \<Rightarrow> (bgpInfra elapsed (''RIPE Stat query failed: '' @ e) result, kn)
              | BadStatus code \<Rightarrow> (bgpInfra elapsed (''RIPE Stat returned HTTP '' @ itoa code) result, kn)
              | ParseFailed e \<Rightarrow> (bgpInfra elapsed (''parsing RIPE Stat response: '' @ e) result, kn)
              | Routing origins mss \<Rightarrow>
                  (case observeMoreSpecifics kn (c_name cfg) (map ms_prefix mss) of
                     (fresh, kn') \<Rightarrow>
                       (judgeRouting b fresh rpki origins mss (result \<lparr> r_duration := elapsed \<rparr>), kn'))))"

section \<open>When the check succeeds\<close>

definition as_expected :: "int \<Rightarrow> int list \<Rightarrow> moreSpecific list \<Rightarrow> bool" where
  "as_expected e origins mss \<longleftrightarrow> (\<forall>asn \<in> set origins. asn = e) \<and> (\<forall>ms \<in> set mss. ms_origin ms = e)
     \<and> (origins \<noteq> [] \<or> mss \<noteq> [])"

lemma rogue_of_empty: "rogue_of e mss = [] \<longleftrightarrow> (\<forall>ms \<in> set mss. ms_origin ms = e)"
  by (auto simp: rogue_of_def filter_empty_conv)

lemma unexpected_of_empty: "unexpected_of e asns = [] \<longleftrightarrow> (\<forall>asn \<in> set asns. asn = e)"
  by (auto simp: unexpected_of_def filter_empty_conv)

lemma judgeRouting_infra [simp]: "r_infra_error (judgeRouting b fresh rpki origins mss r) = r_infra_error r"
  by (simp add: judgeRouting_def Let_def split: list.split)

lemma judgeRouting_success:
  assumes "\<not> r_success r"
  shows "r_success (judgeRouting b fresh rpki origins mss r) \<longleftrightarrow>
    as_expected (b_expected_origin b) origins mss \<and> fresh = [] \<and> \<not> HasPrefix (rpkiStatus rpki) ''invalid''"
  using assms rogue_of_empty [of "b_expected_origin b" mss] unexpected_of_empty [of "b_expected_origin b" origins]
  by (auto simp: judgeRouting_def Let_def as_expected_def split: list.split)

text \<open>
  Property C22. A BGP check with a configuration succeeds exactly when RIPE Stat answered, the
  prefix or a part of it is announced, every announced origin of the prefix and of its
  more-specifics is the expected one, no more-specific is new since the check's last answered
  query, and RPKI does not call the announcement invalid. It is an infrastructure error exactly
  when RIPE Stat did not answer the routing query, and then the baseline of more-specifics is kept.
\<close>

theorem BGP_Run_success_iff:
  assumes "c_bgp cfg = Some b" and "BGP_Run now elapsed reply rpki cfg og kn = (r, kn')"
  shows "(r_success r \<longleftrightarrow>
      (\<exists>origins mss. reply = Routing origins mss \<and> as_expected (b_expected_origin b) origins mss
         \<and> (\<forall>seen. kn (c_name cfg) = Some seen \<longrightarrow> ms_prefix ` set mss \<subseteq> set seen)
         \<and> \<not> HasPrefix (rpkiStatus rpki) ''invalid''))
    \<and> (r_infra_error r \<longleftrightarrow> (\<forall>origins mss. reply \<noteq> Routing origins mss))
    \<and> (r_infra_error r \<longrightarrow> kn' = kn)"
proof (cases reply)
  case (Routing origins mss)
  let ?fresh = "fst (observeMoreSpecifics kn (c_name cfg) (map ms_prefix mss))"
  have "r = judgeRouting b ?fresh rpki origins mss ((NewResult now (c_name cfg) CheckTypeBGP og) \<lparr> r_duration := elapsed \<rparr>)"
    using assms Routing by (simp add: BGP_Run_def case_prod_beta)
  moreover have "?fresh = [] \<longleftrightarrow> (\<forall>seen. kn (c_name cfg) = Some seen \<longrightarrow> ms_prefix ` set mss \<subseteq> set seen)"
    by (auto simp: observeMoreSpecifics_def filter_empty_conv split: option.split)
  ultimately show ?thesis using Routing by (auto simp: judgeRouting_success)
qed (use assms in \<open>auto simp: BGP_Run_def bgpInfra_def Let_def\<close>)

definition sample_bgp :: CheckConfig where
  "sample_bgp = (emptyCheck zeroYAML) \<lparr> c_name := ''dns'', c_type := CheckTypeBGP,
     c_bgp := Some \<lparr> b_prefix = ''8.8.8.0/24'', b_expected_origin = 15169 \<rparr>,
     c_retry := Some \<lparr> rp_count = 1, rp_backoff = ''none'', rp_delay = 5 * Second \<rparr> \<rparr>"

theorem BGP_Run_success_iff_witness:
  "r_success (fst (BGP_Run 1 2 (Routing [15169] []) (RpkiVerdict ''valid'') sample_bgp None NewBGPChecker))"
proof -
  obtain r kn' where r: "BGP_Run 1 2 (Routing [15169] []) (RpkiVerdict ''valid'') sample_bgp None NewBGPChecker = (r, kn')"
    by fastforce
  have b: "c_bgp sample_bgp = Some \<lparr> b_prefix = ''8.8.8.0/24'', b_expected_origin = 15169 \<rparr>"
    by (simp add: sample_bgp_def)
  from BGP_Run_success_iff [OF b r] r show ?thesis
    by (simp add: as_expected_def rpkiStatus_def HasPrefix_def)
qed

section \<open>The new-prefix signal lasts for one run\<close>

lemma observe_twice: "fst (observeMoreSpecifics (snd (observeMoreSpecifics kn n ps)) n ps) = []"
  by (simp add: observeMoreSpecifics_def)

text \<open>
  The checker as the registry holds it, while RIPE Stat gives the same answer: the \<open>n\<close>-th
  invocation starts from the baseline that the previous ones left.
\<close>

fun bgp_after :: "routing_reply \<Rightarrow> rpki_reply \<Rightarrow> CheckConfig \<Rightarrow> known \<Rightarrow> nat \<Rightarrow> known" where
  "bgp_after reply rpki cfg kn 0 = kn"
| "bgp_after reply rpki cfg kn (Suc n) =
     snd (BGP_Run 0 0 reply rpki cfg None (bgp_after reply rpki cfg kn n))"

definition bgp_checker :: "gotime \<Rightarrow> duration \<Rightarrow> routing_reply \<Rightarrow> rpki_reply \<Rightarrow> known \<Rightarrow> Checker" where
  "bgp_checker now elapsed reply rpki kn =
     \<lparr> ck_type = CheckTypeBGP,
       ck_run = (\<lambda>n cfg og. fst (BGP_Run now elapsed reply rpki cfg og (bgp_after reply rpki cfg kn n))) \<rparr>"

text \<open>
  The signal of a new more-specific with the expected origin does not survive a retry: the failing
  run records the new prefix as known, so a second run on the same answer succeeds, and
  \<open>RunWithRetry\<close> with a retry policy reports success.
\<close>

lemma retry_hides_new_prefix:
  assumes "c_bgp cfg = Some b" and "c_retry cfg = Some rp" "0 < rp_count rp"
    and "as_expected (b_expected_origin b) origins mss" "\<not> HasPrefix (rpkiStatus rpki) ''invalid''"
  shows "r_success (fst (RunWithRetry (\<lambda>_. False)
    (bgp_checker now elapsed (Routing origins mss) rpki kn) cfg og))"
proof -
  let ?ck = "bgp_checker now elapsed (Routing origins mss) rpki kn"
  let ?run = "\<lambda>n. ck_run ?ck n cfg og"
  have second: "r_success (?run 1)"
  proof -
    have "bgp_after (Routing origins mss) rpki cfg kn 1 (c_name cfg) = Some (map ms_prefix mss)"
      using assms(1) by (simp add: BGP_Run_def observeMoreSpecifics_def)
    then show ?thesis
      using assms(1,4,5) by (simp add: bgp_checker_def BGP_Run_def judgeRouting_success observeMoreSpecifics_def)
  qed
  show ?thesis
  proof (cases "r_success (?run 0)")
    case True
    then show ?thesis by (simp add: RunWithRetry_def Let_def)
  next
    case False
    then have "stops_at (\<lambda>j. r_success (?run j)) (\<lambda>_. False) (max_retries cfg) 1"
      using second assms(2,3) by (auto simp: stops_at_def max_retries_def)
    from RunWithRetry_stops [OF this] second show ?thesis by (simp add: attempt_result_def)
  qed
qed

end
