(* ===== verification/Check_Contract.thy ===== *)
theory Check_Contract
  imports Scheduler Notify Go_Text
begin

text \<open>
  The interface \<open>check.Checker\<close> as the scheduler, the notifier and the status store rely on it.
  The locale \<open>checker\<close> is what every implementation promises: a result carries the name of the
  check, the type of the checker and the time of the run, and is neither retried nor degraded, for
  these two are the scheduler's. \<open>sound_checker\<close> adds that an infrastructure error is never a
  success, \<open>explained_checker\<close> that a failure comes with a message. The lemmas of the locales are
  what the clients make of these promises; each checker theory interprets the strongest locale its
  code satisfies.
\<close>

section \<open>The promises\<close>

text \<open>
  \<open>'e\<close> is what the checker observes of the outside world in one run (and, for the checkers that
  keep a cache, its contents).
\<close>

locale checker =
  fixes kind :: check_type
    and run :: "'e \<Rightarrow> gotime \<Rightarrow> CheckConfig \<Rightarrow> Origin option \<Rightarrow> Result"
  assumes run_name: "r_name (run e now cfg og) = c_name cfg"
    and run_type: "r_type (run e now cfg og) = kind"
    and run_time: "r_timestamp (run e now cfg og) = now"
    and run_retries: "r_retries (run e now cfg og) = 0"
    and run_degraded: "\<not> r_degraded (run e now cfg og)"

locale sound_checker = checker +
  assumes run_infra: "r_infra_error (run e now cfg og) \<Longrightarrow> \<not> r_success (run e now cfg og)"

locale explained_checker = sound_checker +
  assumes run_error: "\<not> r_success (run e now cfg og) \<Longrightarrow> r_error (run e now cfg og) \<noteq> ''''"

text \<open>The \<open>Checker\<close> value of the scheduler: attempt \<open>j\<close> observes \<open>es j\<close> at the time \<open>ts j\<close>.\<close>

definition as_checker ::
  "check_type \<Rightarrow> ('e \<Rightarrow> gotime \<Rightarrow> CheckConfig \<Rightarrow> Origin option \<Rightarrow> Result) \<Rightarrow> (nat \<Rightarrow> 'e) \<Rightarrow> (nat \<Rightarrow> gotime) \<Rightarrow> Checker"
where
  "as_checker t run es ts = \<lparr> ck_type = t, ck_run = (\<lambda>j cfg og. run (es j) (ts j) cfg og) \<rparr>"

definition honest :: "check_type \<Rightarrow> Checker \<Rightarrow> bool" where
  "honest t ck \<longleftrightarrow> ck_type ck = t \<and> (\<forall>j cfg og. r_name (ck_run ck j cfg og) = c_name cfg \<and> r_type (ck_run ck j cfg og) = t
     \<and> r_retries (ck_run ck j cfg og) = 0 \<and> \<not> r_degraded (ck_run ck j cfg og))"

section \<open>What the clients get\<close>

text \<open>The outcome of a retried run is that of one of its attempts, so it keeps the promises.\<close>

lemma RunWithRetry_attempt:
  obtains k where "k \<le> max_retries cfg" and "fst (RunWithRetry cancelled ck cfg og) = attempt_result ck cfg og k"
proof -
  obtain k where "stops_at (\<lambda>j. r_success (ck_run ck j cfg og)) cancelled (max_retries cfg) k"
    and "RunWithRetry cancelled ck cfg og = (attempt_result ck cfg og k, waited cfg k)"
    using stops_at_ex RunWithRetry_stops by blast
  then show ?thesis by (intro that [of k]) (auto simp: stops_at_def)
qed

definition published :: "golib \<Rightarrow> (nat \<Rightarrow> bool) \<Rightarrow> Checker \<Rightarrow> CheckConfig \<Rightarrow> Origin option \<Rightarrow> Result" where
  "published lib cancelled ck cfg og = annotate lib cfg (fst (RunWithRetry cancelled ck cfg og))"

lemma annotate_sel [simp]:
  "r_name (annotate lib cfg r) = r_name r" "r_type (annotate lib cfg r) = r_type r"
  "r_success (annotate lib cfg r) = r_success r" "r_infra_error (annotate lib cfg r) = r_infra_error r"
  "r_error (annotate lib cfg r) = r_error r" "r_retries (annotate lib cfg r) = r_retries r"
  "r_timestamp (annotate lib cfg r) = r_timestamp r" "r_group (annotate lib cfg r) = c_group cfg"
  "r_target (annotate lib cfg r) = Target lib cfg"
  by (simp_all add: annotate_def Let_def)

lemma honest_published:
  assumes "honest t ck"
  shows "r_name (published lib cancelled ck cfg og) = c_name cfg"
    and "r_type (published lib cancelled ck cfg og) = t"
    and "r_retries (published lib cancelled ck cfg og) \<in> {0 .. int (max_retries cfg)}"
    and "r_degraded (published lib cancelled ck cfg og) \<Longrightarrow>
      r_success (published lib cancelled ck cfg og) \<and> 0 < c_degraded_after cfg"
proof -
  obtain k where k: "k \<le> max_retries cfg" "fst (RunWithRetry cancelled ck cfg og) = attempt_result ck cfg og k"
    by (rule RunWithRetry_attempt)
  with assms show "r_name (published lib cancelled ck cfg og) = c_name cfg"
    "r_type (published lib cancelled ck cfg og) = t"
    "r_retries (published lib cancelled ck cfg og) \<in> {0 .. int (max_retries cfg)}"
    by (simp_all add: published_def attempt_result_def honest_def)
  show "r_success (published lib cancelled ck cfg og) \<and> 0 < c_degraded_after cfg"
    if "r_degraded (published lib cancelled ck cfg og)"
    using that k assms
    by (auto simp: published_def attempt_result_def honest_def annotate_def Let_def split: if_splits)
qed

context checker
begin

lemma honest_run: "honest kind (as_checker kind run es ts)"
  by (simp add: honest_def as_checker_def run_name run_type run_retries run_degraded)

text \<open>Whatever happens in the attempts, the published result is one of the check it was started for.\<close>

lemma published_sel:
  "r_name (published lib cancelled (as_checker kind run es ts) cfg og) = c_name cfg"
  "r_type (published lib cancelled (as_checker kind run es ts) cfg og) = kind"
  "check_key (published lib cancelled (as_checker kind run es ts) cfg og) = kind @ '':'' @ c_name cfg"
  by (simp_all add: honest_published [OF honest_run] check_key_def)

lemma published_run:
  "\<exists>j. r_success (published lib cancelled (as_checker kind run es ts) cfg og) = r_success (run (es j) (ts j) cfg og)
    \<and> r_infra_error (published lib cancelled (as_checker kind run es ts) cfg og) = r_infra_error (run (es j) (ts j) cfg og)
    \<and> r_error (published lib cancelled (as_checker kind run es ts) cfg og) = r_error (run (es j) (ts j) cfg og)"
proof -
  obtain k where "fst (RunWithRetry cancelled (as_checker kind run es ts) cfg og) =
      attempt_result (as_checker kind run es ts) cfg og k"
    by (rule RunWithRetry_attempt)
  then show ?thesis
    by (intro exI [of _ k]) (simp add: published_def attempt_result_def as_checker_def)
qed

end

context sound_checker
begin

text \<open>A published infrastructure error is no success, so the notifier neither counts nor resets.\<close>

lemma published_infra:
  "r_infra_error (published lib cancelled (as_checker kind run es ts) cfg og) \<Longrightarrow>
     \<not> r_success (published lib cancelled (as_checker kind run es ts) cfg og)"
  using published_run [of lib cancelled es ts cfg og] run_infra by auto

end

context explained_checker
begin

text \<open>The notification of an outage names the error of the last attempt.\<close>

lemma published_explained:
  assumes "\<not> r_success (published lib cancelled (as_checker kind run es ts) cfg og)"
  shows "map_of (ev_details (downEvent (published lib cancelled (as_checker kind run es ts) cfg og) n)) ''error'' =
      Some (r_error (published lib cancelled (as_checker kind run es ts) cfg og))"
proof -
  have "r_error (published lib cancelled (as_checker kind run es ts) cfg og) \<noteq> ''''"
    using assms published_run [of lib cancelled es ts cfg og] run_error by metis
  then show ?thesis by (simp add: downEvent_def)
qed

end

end
