(* ===== verification/Check_HTTP.thy ===== *)
theory Check_HTTP
  imports Check_Contract
begin

text \<open>
  The HTTP checker, \<open>internal/check/http.go\<close>: the cache of clients, the request it builds, the
  judgement of the response and the assertions with their cache of compiled patterns. The network
  is the argument \<open>transport\<close>: what a client answers to a request, with the times the trace
  callbacks recorded (0 for a callback that was not called). \<open>regexp.Compile\<close> is the argument
  \<open>compile\<close>, which returns the error text or the matcher; \<open>uni\<close> is the one of \<open>Quote\<close>.
\<close>

section \<open>Clients\<close>

record httpClientKey =
  k_skip_tls :: bool
  k_follow_redirects :: bool
  k_ip_version :: string
  k_min_tls :: string
  k_max_tls :: string
  k_proxy :: string

text \<open>
  What the code sets of an \<open>http.Client\<close>; a TLS version of 0 and the network \<open>tcp\<close> are the
  defaults of the library.
\<close>

record http_client =
  hc_skip_verify :: bool
  hc_min_version :: nat
  hc_max_version :: nat
  hc_proxy :: "url option"
  hc_network :: string
  hc_follow_redirects :: bool

type_synonym http_clients = "httpClientKey \<Rightarrow> http_client option"

definition ipVersionNetwork :: "string \<Rightarrow> string" where
  "ipVersionNetwork v = (if v = ''4'' then ''tcp4'' else if v = ''6'' then ''tcp6'' else ''tcp'')"

definition newClient :: "golib \<Rightarrow> httpClientKey \<Rightarrow> http_client" where
  "newClient lib key =
     \<lparr> hc_skip_verify = k_skip_tls key,
       hc_min_version = (case TLSVersion (k_min_tls key) of Some v \<Rightarrow> v | None \<Rightarrow> 0),
       hc_max_version = (case TLSVersion (k_max_tls key) of Some v \<Rightarrow> v | None \<Rightarrow> 0),
       hc_proxy = (if k_proxy key \<noteq> '''' then url_parse lib (k_proxy key) else None),
       hc_network = ipVersionNetwork (k_ip_version key),
       hc_follow_redirects = k_follow_redirects key \<rparr>"

definition getClient :: "golib \<Rightarrow> httpClientKey \<Rightarrow> http_clients \<Rightarrow> http_client \<times> http_clients" where
  "getClient lib key clients =
     (case clients key of
        Some c \<Rightarrow> (c, clients)
      | None \<Rightarrow> (let client = newClient lib key in (client, clients(key \<mapsto> client))))"

section \<open>Assertions\<close>

type_synonym compiler = "string \<Rightarrow> string + (string \<Rightarrow> bool)"
type_synonym regex_cache = "string \<Rightarrow> (string \<Rightarrow> bool) option"

definition cachedCompile :: "compiler \<Rightarrow> string \<Rightarrow> regex_cache \<Rightarrow> (string + (string \<Rightarrow> bool)) \<times> regex_cache" where
  "cachedCompile compile pattern cache =
     (case cache pattern of
        Some re \<Rightarrow> (Inr re, cache)
      | None \<Rightarrow> (case compile pattern of
                   Inl err \<Rightarrow> (Inl err, cache)
                 | Inr re \<Rightarrow> (Inr re, cache(pattern \<mapsto> re))))"

definition passed :: "Assertion \<Rightarrow> AssertionResult" where
  "passed a = \<lparr> ar_type = a_type a, ar_target = a_target a, ar_passed = True, ar_message = '''' \<rparr>"

definition failed :: "Assertion \<Rightarrow> string \<Rightarrow> AssertionResult" where
  "failed a msg = (passed a) \<lparr> ar_passed := False, ar_message := msg \<rparr>"

definition evaluateHeaderAssertion ::
  "(string \<Rightarrow> string) \<Rightarrow> compiler \<Rightarrow> Assertion \<Rightarrow> header \<Rightarrow> regex_cache \<Rightarrow> AssertionResult \<times> regex_cache"
where
  "evaluateHeaderAssertion uni compile a headers cache =
     (let headerVal = Header_Get headers (a_header a); q = Quote uni
      in if a_type a = ''header_contains'' then
           (if \<not> Contains headerVal (a_target a)
            then failed a (''header '' @ q (a_header a) @ '' does not contain '' @ q (a_target a) @ '' (got '' @ q headerVal @ '')'')
            else passed a, cache)
         else if a_type a = ''header_not_contains'' then
           (if Contains headerVal (a_target a)
            then failed a (''header '' @ q (a_header a) @ '' contains '' @ q (a_target a))
            else passed a, cache)
         else if a_type a = ''header_regex'' then
           (case cachedCompile compile (a_target a) cache of
              (Inl err, cache') \<Rightarrow> (failed a (''invalid regex '' @ q (a_target a) @ '': '' @ err), cache')
            | (Inr re, cache') \<Rightarrow>
                (if \<not> re headerVal
                 then failed a (''header '' @ q (a_header a) @ '' does not match regex '' @ q (a_target a) @ '' (got '' @ q headerVal @ '')'')
                 else passed a, cache'))
         else (failed a (''unknown header assertion type '' @ q (a_type a)), cache))"

definition evaluateAssertion ::
  "(string \<Rightarrow> string) \<Rightarrow> compiler \<Rightarrow> Assertion \<Rightarrow> string \<Rightarrow> regex_cache \<Rightarrow> AssertionResult \<times> regex_cache"
where
  "evaluateAssertion uni compile a body cache =
     (let q = Quote uni
      in if a_type a = ''contains'' then
           (if \<not> Contains body (a_target a) then failed a (''body does not contain '' @ q (a_target a)) else passed a, cache)
         else if a_type a = ''not_contains'' then
           (if Contains body (a_target a) then failed a (''body contains '' @ q (a_target a)) else passed a, cache)
         else if a_type a = ''regex'' then
           (case cachedCompile compile (a_target a) cache of
              (Inl err, cache') \<Rightarrow> (failed a (''invalid regex '' @ q (a_target a) @ '': '' @ err), cache')
            | (Inr re, cache') \<Rightarrow>
                (if \<not> re body then failed a (''body does not match regex '' @ q (a_target a)) else passed a, cache'))
         else (failed a (''unknown assertion type '' @ q (a_type a)), cache))"

text \<open>The loop over the assertions of a check.\<close>

definition assertOne ::
  "(string \<Rightarrow> string) \<Rightarrow> compiler \<Rightarrow> header \<Rightarrow> string \<Rightarrow> Assertion \<Rightarrow> regex_cache \<Rightarrow> AssertionResult \<times> regex_cache"
where
  "assertOne uni compile headers body a cache =
     (if HasPrefix (a_type a) ''header_'' then evaluateHeaderAssertion uni compile a headers cache
      else evaluateAssertion uni compile a body cache)"

fun assertLoop ::
  "(string \<Rightarrow> string) \<Rightarrow> compiler \<Rightarrow> header \<Rightarrow> string \<Rightarrow> Assertion list \<Rightarrow> Result \<Rightarrow> regex_cache \<Rightarrow> Result \<times> regex_cache"
where
  "assertLoop uni compile headers body [] r cache = (r, cache)"
| "assertLoop uni compile headers body (a # as) r cache =
     (case assertOne uni compile headers body a cache of
        (ar, cache') \<Rightarrow>
          (let r1 = r \<lparr> r_assertions := r_assertions r @ [ar] \<rparr>;
               r2 = (if \<not> ar_passed ar \<and> r_success r1
                     then r1 \<lparr> r_success := False, r_error := ''assertion failed: '' @ ar_message ar \<rparr> else r1)
           in assertLoop uni compile headers body as r2 cache'))"

section \<open>A run\<close>

record http_request =
  rq_method :: string
  rq_url :: string
  rq_header :: header
  rq_body :: "string option"

record http_trace =
  tr_dns_start :: gotime
  tr_dns_done :: gotime
  tr_connect_start :: gotime
  tr_connect_done :: gotime
  tr_tls_start :: gotime
  tr_tls_done :: gotime
  tr_first_byte :: gotime
  tr_req_start :: gotime
  tr_do_done :: gotime
  tr_transfer_done :: gotime

datatype http_answer =
    RequestFailed string
  | BodyFailed string
  | Response int header string

record http_env =
  he_bad_request :: "string option"
  he_transport :: "http_client \<Rightarrow> http_request \<Rightarrow> http_answer \<times> http_trace"

record http_state =
  hs_clients :: http_clients
  hs_regex :: regex_cache

definition buildRequest :: "HTTPCheckConfig \<Rightarrow> http_request" where
  "buildRequest h =
     (let hd = fold (\<lambda>(k, v). Header_Set k v) (h_headers h) Map.empty
      in \<lparr> rq_method = h_method h, rq_url = h_url h,
           rq_header = (case h_basic_auth h of
              Some ba \<Rightarrow> Header_Set ''Authorization''
                 (''Basic '' @ EncodeToString (ba_username ba @ '':'' @ ba_password ba)) hd
            | None \<Rightarrow> if h_bearer_token h \<noteq> '''' then Header_Set ''Authorization'' (''Bearer '' @ h_bearer_token h) hd else hd),
           rq_body = (if h_body h \<noteq> '''' then Some (h_body h) else None) \<rparr>)"

definition clientKey :: "HTTPCheckConfig \<Rightarrow> httpClientKey" where
  "clientKey h = \<lparr> k_skip_tls = h_skip_tls h, k_follow_redirects = h_follow_redirects h,
     k_ip_version = h_ip_version h, k_min_tls = h_min_tls h, k_max_tls = h_max_tls h, k_proxy = h_proxy h \<rparr>"

definition between :: "gotime \<Rightarrow> gotime \<Rightarrow> duration" where
  "between t u = (if \<not> IsZero t \<and> \<not> IsZero u then time_sub u t else 0)"

definition httpTimes :: "http_trace \<Rightarrow> Result \<Rightarrow> Result" where
  "httpTimes tr r =
     r \<lparr> r_dns_duration := between (tr_dns_start tr) (tr_dns_done tr),
         r_conn_duration := between (tr_connect_start tr) (tr_connect_done tr),
         r_tls_duration := between (tr_tls_start tr) (tr_tls_done tr),
         r_ttfb_duration := (if \<not> IsZero (tr_first_byte tr) then time_sub (tr_first_byte tr) (tr_req_start tr) else 0),
         r_transfer_duration := (if \<not> IsZero (tr_first_byte tr) then time_sub (tr_transfer_done tr) (tr_first_byte tr) else 0) \<rparr>"

definition judgeResponse :: "HTTPCheckConfig \<Rightarrow> int \<Rightarrow> Result \<Rightarrow> Result" where
  "judgeResponse h code r =
     (let r1 = r \<lparr> r_success := (code = h_expected_status h) \<rparr>
      in if \<not> r_success r1
         then r1 \<lparr> r_error := ''expected status '' @ itoa (h_expected_status h) @ '', got '' @ itoa code \<rparr> else r1)"

text \<open>From the answer on: lines 188 to 249.\<close>

definition judgeAnswer ::
  "(string \<Rightarrow> string) \<Rightarrow> compiler \<Rightarrow> HTTPCheckConfig \<Rightarrow> http_answer \<Rightarrow> http_trace \<Rightarrow> Result \<Rightarrow> regex_cache \<Rightarrow> Result \<times> regex_cache"
where
  "judgeAnswer uni compile h answer tr result cache =
     (let r1 = result \<lparr> r_duration := time_sub (tr_do_done tr) (tr_req_start tr) \<rparr>
      in case answer of
           RequestFailed err \<Rightarrow> (r1 \<lparr> r_error := ''request failed: '' @ err \<rparr>, cache)
         | BodyFailed err \<Rightarrow> (r1 \<lparr> r_error := ''reading response body: '' @ err \<rparr>, cache)
         | Response code headers body \<Rightarrow>
             assertLoop uni compile headers body (h_assertions h)
               (judgeResponse h code (httpTimes tr (r1 \<lparr> r_status_code := code, r_response_bytes := int (length body) \<rparr>)))
               cache)"

definition HTTP_Run ::
  "golib \<Rightarrow> (string \<Rightarrow> string) \<Rightarrow> compiler \<Rightarrow> http_env \<Rightarrow> gotime \<Rightarrow> CheckConfig \<Rightarrow> Origin option
     \<Rightarrow> http_state \<Rightarrow> Result \<times> http_state"
where
  "HTTP_Run lib uni compile env now cfg origin st =
     (let result = NewResult now (c_name cfg) CheckTypeHTTP origin
      in case c_http cfg of
           None \<Rightarrow> (result \<lparr> r_error := ''missing HTTP check configuration'' \<rparr>, st)
         | Some h \<Rightarrow>
             (case he_bad_request env of
                Some err \<Rightarrow> (result \<lparr> r_error := ''creating request: '' @ err \<rparr>, st)
              | None \<Rightarrow>
                  (case getClient lib (clientKey h) (hs_clients st) of
                     (client, clients) \<Rightarrow>
                       (case he_transport env client (buildRequest h) of
                          (answer, tr) \<Rightarrow>
                            (case judgeAnswer uni compile h answer tr result (hs_regex st) of
                               (r, cache) \<Rightarrow> (r, \<lparr> hs_clients = clients, hs_regex = cache \<rparr>))))))"

section \<open>The caches\<close>

text \<open>
  Both caches only ever hold what would be computed without them, so every use of them can be
  replaced by the direct computation.
\<close>

definition patterns_ok :: "compiler \<Rightarrow> regex_cache \<Rightarrow> bool" where
  "patterns_ok compile cache \<longleftrightarrow> (\<forall>p re. cache p = Some re \<longrightarrow> compile p = Inr re)"

definition http_ok :: "golib \<Rightarrow> compiler \<Rightarrow> http_state \<Rightarrow> bool" where
  "http_ok lib compile st \<longleftrightarrow> (\<forall>k c. hs_clients st k = Some c \<longrightarrow> c = newClient lib k) \<and> patterns_ok compile (hs_regex st)"

definition newHTTPState :: http_state where
  "newHTTPState = \<lparr> hs_clients = Map.empty, hs_regex = Map.empty \<rparr>"

lemma newHTTPState_ok: "http_ok lib compile newHTTPState"
  by (simp add: http_ok_def patterns_ok_def newHTTPState_def)

lemma cachedCompile_direct:
  "patterns_ok compile cache \<Longrightarrow> fst (cachedCompile compile p cache) = compile p \<and> patterns_ok compile (snd (cachedCompile compile p cache))"
  by (auto simp: cachedCompile_def patterns_ok_def split: option.split sum.split)

lemma getClient_direct:
  assumes "\<forall>k c. clients k = Some c \<longrightarrow> c = newClient lib k" and "getClient lib key clients = (client, clients')"
  shows "client = newClient lib key" and "\<forall>k c. clients' k = Some c \<longrightarrow> c = newClient lib k"
  using assms by (auto simp: getClient_def Let_def split: option.splits if_splits)

section \<open>Assertions\<close>

text \<open>What the type of an assertion means, without caches and messages.\<close>

definition assertion_holds :: "compiler \<Rightarrow> header \<Rightarrow> string \<Rightarrow> Assertion \<Rightarrow> bool" where
  "assertion_holds compile headers body a =
     (let matches = (\<lambda>s. \<exists>re. compile (a_target a) = Inr re \<and> re s);
          hv = Header_Get headers (a_header a)
      in a_type a = ''contains'' \<and> sublist (a_target a) body
         \<or> a_type a = ''not_contains'' \<and> \<not> sublist (a_target a) body
         \<or> a_type a = ''regex'' \<and> matches body
         \<or> a_type a = ''header_contains'' \<and> sublist (a_target a) hv
         \<or> a_type a = ''header_not_contains'' \<and> \<not> sublist (a_target a) hv
         \<or> a_type a = ''header_regex'' \<and> matches hv)"

lemma passed_sel [simp]: "ar_passed (passed a)" "\<not> ar_passed (failed a msg)"
  "ar_type (passed a) = a_type a" "ar_type (failed a msg) = a_type a"
  "ar_target (passed a) = a_target a" "ar_target (failed a msg) = a_target a"
  by (simp_all add: passed_def failed_def)

lemma cachedCompile_cases:
  assumes "patterns_ok compile cache"
  obtains (bad) e cache' where "cachedCompile compile p cache = (Inl e, cache')" and "compile p = Inl e" and "patterns_ok compile cache'"
  | (good) re cache' where "cachedCompile compile p cache = (Inr re, cache')" and "compile p = Inr re" and "patterns_ok compile cache'"
proof -
  obtain cache' where c: "cachedCompile compile p cache = (compile p, cache')" "patterns_ok compile cache'"
    using cachedCompile_direct [OF assms, of p] by (cases "cachedCompile compile p cache") auto
  show thesis
  proof (cases "compile p")
    case (Inl e)
    with c show thesis by (intro bad) auto
  next
    case (Inr re)
    with c show thesis by (intro good) auto
  qed
qed

lemma assertOne_passed:
  assumes "patterns_ok compile cache"
  shows "ar_passed (fst (assertOne uni compile headers body a cache)) = assertion_holds compile headers body a"
  using assms
  by (cases rule: cachedCompile_cases [OF assms, of "a_target a"])
     (auto simp: assertOne_def evaluateHeaderAssertion_def evaluateAssertion_def assertion_holds_def Let_def
       HasPrefix_iff Contains_iff)

lemma assertOne_direct:
  assumes "patterns_ok compile cache"
  shows "patterns_ok compile (snd (assertOne uni compile headers body a cache))"
    and "fst (assertOne uni compile headers body a cache) = fst (assertOne uni compile headers body a Map.empty)"
proof -
  have "patterns_ok compile Map.empty" by (simp add: patterns_ok_def)
  show "patterns_ok compile (snd (assertOne uni compile headers body a cache))"
    using assms
    by (cases rule: cachedCompile_cases [OF assms, of "a_target a"])
       (simp_all add: assertOne_def evaluateHeaderAssertion_def evaluateAssertion_def Let_def)
  show "fst (assertOne uni compile headers body a cache) = fst (assertOne uni compile headers body a Map.empty)"
    using cachedCompile_cases [OF assms, of "a_target a"]
      cachedCompile_cases [OF \<open>patterns_ok compile Map.empty\<close>, of "a_target a"]
    by (cases rule: cachedCompile_cases [OF assms, of "a_target a"];
        cases rule: cachedCompile_cases [OF \<open>patterns_ok compile Map.empty\<close>, of "a_target a"])
       (simp_all add: assertOne_def evaluateHeaderAssertion_def evaluateAssertion_def Let_def)
qed

lemma assertLoop_spec:
  assumes "patterns_ok compile cache" and "assertLoop uni compile headers body as r cache = (r', cache')"
  shows "patterns_ok compile cache' \<and> r_success r' = (r_success r \<and> list_all (assertion_holds compile headers body) as)
    \<and> map ar_passed (r_assertions r') = map ar_passed (r_assertions r) @ map (assertion_holds compile headers body) as
    \<and> (\<not> r_success r \<longrightarrow> r_error r' = r_error r)
    \<and> (r_success r \<and> \<not> r_success r' \<longrightarrow> r_error r' \<noteq> '''')"
  using assms
proof (induction as arbitrary: r cache)
  case (Cons a as)
  obtain ar c1 where one: "assertOne uni compile headers body a cache = (ar, c1)" by fastforce
  have c1: "patterns_ok compile c1" and ar: "ar_passed ar = assertion_holds compile headers body a"
    using assertOne_direct(1) [OF Cons.prems(1), of uni headers body a]
      assertOne_passed [OF Cons.prems(1), of uni headers body a] by (simp_all add: one)
  let ?r1 = "r \<lparr> r_assertions := r_assertions r @ [ar] \<rparr>"
  let ?r2 = "if \<not> ar_passed ar \<and> r_success ?r1
      then ?r1 \<lparr> r_success := False, r_error := ''assertion failed: '' @ ar_message ar \<rparr> else ?r1"
  have "assertLoop uni compile headers body as ?r2 c1 = (r', cache')"
    using Cons.prems(2) by (simp only: assertLoop.simps one Let_def prod.case)
  from Cons.IH [OF c1 this] show ?case
    by (cases "ar_passed ar"; cases "r_success r") (simp_all add: ar [symmetric])
qed simp

lemma assertLoop_frame:
  "assertLoop uni compile headers body as r cache = (r', cache') \<Longrightarrow>
     r_name r' = r_name r \<and> r_type r' = r_type r \<and> r_timestamp r' = r_timestamp r \<and> r_retries r' = r_retries r
     \<and> r_degraded r' = r_degraded r \<and> r_infra_error r' = r_infra_error r \<and> r_status_code r' = r_status_code r
     \<and> r_duration r' = r_duration r \<and> (r_success r \<or> r_error r \<noteq> '''' \<longrightarrow> r_success r' \<or> r_error r' \<noteq> '''')"
proof (induction as arbitrary: r cache)
  case (Cons a as)
  obtain ar c1 where one: "assertOne uni compile headers body a cache = (ar, c1)" by fastforce
  let ?r1 = "r \<lparr> r_assertions := r_assertions r @ [ar] \<rparr>"
  let ?r2 = "if \<not> ar_passed ar \<and> r_success ?r1
      then ?r1 \<lparr> r_success := False, r_error := ''assertion failed: '' @ ar_message ar \<rparr> else ?r1"
  have "assertLoop uni compile headers body as ?r2 c1 = (r', cache')"
    using Cons.prems by (simp only: assertLoop.simps one Let_def prod.case)
  from Cons.IH [OF this] show ?case by simp
qed simp

section \<open>The verdict\<close>

lemma judged_sel [simp]:
  "r_success (judgeResponse h code r) = (code = h_expected_status h)"
  "code \<noteq> h_expected_status h \<Longrightarrow> r_error (judgeResponse h code r) \<noteq> ''''"
  "r_name (judgeResponse h code r) = r_name r" "r_type (judgeResponse h code r) = r_type r"
  "r_timestamp (judgeResponse h code r) = r_timestamp r" "r_retries (judgeResponse h code r) = r_retries r"
  "r_degraded (judgeResponse h code r) = r_degraded r" "r_infra_error (judgeResponse h code r) = r_infra_error r"
  "r_status_code (judgeResponse h code r) = r_status_code r" "r_assertions (judgeResponse h code r) = r_assertions r"
  by (simp_all add: judgeResponse_def Let_def)

lemma httpTimes_sel [simp]:
  "r_name (httpTimes tr r) = r_name r" "r_type (httpTimes tr r) = r_type r"
  "r_timestamp (httpTimes tr r) = r_timestamp r" "r_retries (httpTimes tr r) = r_retries r"
  "r_degraded (httpTimes tr r) = r_degraded r" "r_infra_error (httpTimes tr r) = r_infra_error r"
  "r_status_code (httpTimes tr r) = r_status_code r" "r_assertions (httpTimes tr r) = r_assertions r"
  by (simp_all add: httpTimes_def)

text \<open>The answer of the target to the request of the check, as a client built for it receives it.\<close>

definition http_answer_of :: "golib \<Rightarrow> http_env \<Rightarrow> HTTPCheckConfig \<Rightarrow> http_answer" where
  "http_answer_of lib env h = fst (he_transport env (newClient lib (clientKey h)) (buildRequest h))"

lemma judgeAnswer_spec:
  assumes "patterns_ok compile cache" and "r0 = NewResult now n t og"
    and "judgeAnswer uni compile h answer tr r0 cache = (r, cache')"
  shows "patterns_ok compile cache'"
    and "r_name r = n \<and> r_type r = t \<and> r_timestamp r = now \<and> r_retries r = 0 \<and> \<not> r_degraded r \<and> \<not> r_infra_error r"
    and "r_success r \<or> r_error r \<noteq> ''''"
    and "case answer of
         Response code headers body \<Rightarrow>
           r_status_code r = code
           \<and> (r_success r \<longleftrightarrow> code = h_expected_status h \<and> list_all (assertion_holds compile headers body) (h_assertions h))
           \<and> map ar_passed (r_assertions r) = map (assertion_holds compile headers body) (h_assertions h)
       | _ \<Rightarrow> \<not> r_success r"
proof -
  have "patterns_ok compile cache'
    \<and> (r_name r = n \<and> r_type r = t \<and> r_timestamp r = now \<and> r_retries r = 0 \<and> \<not> r_degraded r \<and> \<not> r_infra_error r)
    \<and> (r_success r \<or> r_error r \<noteq> '''')
    \<and> (case answer of
         Response code headers body \<Rightarrow>
           r_status_code r = code
           \<and> (r_success r \<longleftrightarrow> code = h_expected_status h \<and> list_all (assertion_holds compile headers body) (h_assertions h))
           \<and> map ar_passed (r_assertions r) = map (assertion_holds compile headers body) (h_assertions h)
       | _ \<Rightarrow> \<not> r_success r)"
  proof (cases answer)
    case (Response code headers body)
    let ?r1 = "judgeResponse h code (httpTimes tr (r0 \<lparr> r_duration := time_sub (tr_do_done tr) (tr_req_start tr),
             r_status_code := code, r_response_bytes := int (length body) \<rparr>))"
    have loop: "assertLoop uni compile headers body (h_assertions h) ?r1 cache = (r, cache')"
      using assms(3) by (simp add: judgeAnswer_def Response Let_def)
    have "r_assertions r0 = []" using assms(2) by (simp add: NewResult_def zeroResult_def Let_def split: option.split)
    with assertLoop_spec [OF assms(1) loop] assertLoop_frame [OF loop] assms(2) show ?thesis
      by (cases "code = h_expected_status h") (auto simp: Response)
  qed (use assms in \<open>auto simp: judgeAnswer_def Let_def\<close>)
  then show "patterns_ok compile cache'"
    "r_name r = n \<and> r_type r = t \<and> r_timestamp r = now \<and> r_retries r = 0 \<and> \<not> r_degraded r \<and> \<not> r_infra_error r"
    "r_success r \<or> r_error r \<noteq> ''''"
    "case answer of
         Response code headers body \<Rightarrow>
           r_status_code r = code
           \<and> (r_success r \<longleftrightarrow> code = h_expected_status h \<and> list_all (assertion_holds compile headers body) (h_assertions h))
           \<and> map ar_passed (r_assertions r) = map (assertion_holds compile headers body) (h_assertions h)
       | _ \<Rightarrow> \<not> r_success r"
    by blast+
qed

lemma HTTP_Run_answered:
  assumes "http_ok lib compile st" and "c_http cfg = Some h" and "he_bad_request env = None"
    and "he_transport env (newClient lib (clientKey h)) (buildRequest h) = (answer, tr)"
    and "HTTP_Run lib uni compile env now cfg og st = (r, st')"
  shows "judgeAnswer uni compile h answer tr (NewResult now (c_name cfg) CheckTypeHTTP og) (hs_regex st) = (r, hs_regex st')"
    and "\<forall>k c. hs_clients st' k = Some c \<longrightarrow> c = newClient lib k"
proof -
  obtain client clients where g: "getClient lib (clientKey h) (hs_clients st) = (client, clients)" by fastforce
  have "\<forall>k c. hs_clients st k = Some c \<longrightarrow> c = newClient lib k" using assms(1) by (simp add: http_ok_def)
  note c = getClient_direct [OF this g]
  have "HTTP_Run lib uni compile env now cfg og st =
      (case judgeAnswer uni compile h answer tr (NewResult now (c_name cfg) CheckTypeHTTP og) (hs_regex st) of
         (r, cache) \<Rightarrow> (r, \<lparr> hs_clients = clients, hs_regex = cache \<rparr>))"
    by (simp add: HTTP_Run_def Let_def assms(2-4) g c(1))
  with assms(5) c(2)
  show "judgeAnswer uni compile h answer tr (NewResult now (c_name cfg) CheckTypeHTTP og) (hs_regex st) = (r, hs_regex st')"
    "\<forall>k c. hs_clients st' k = Some c \<longrightarrow> c = newClient lib k"
    by (auto split: prod.splits)
qed

text \<open>
  Property C8. The verdict of an HTTP check with a request that can be built, whatever the caches
  hold: it succeeds exactly when the target answered with the expected status and every assertion
  holds of the response; the result lists for every assertion whether it holds, a failure comes
  with a message, no outcome is an infrastructure error, and the caches stay correct.
\<close>

theorem HTTP_Run_verdict:
  assumes "http_ok lib compile st" and "c_http cfg = Some h" and "he_bad_request env = None"
    and "HTTP_Run lib uni compile env now cfg og st = (r, st')"
  shows "http_ok lib compile st' \<and> \<not> r_infra_error r \<and> (r_success r \<or> r_error r \<noteq> '''')
    \<and> (case http_answer_of lib env h of
         Response code headers body \<Rightarrow>
           r_status_code r = code
           \<and> (r_success r \<longleftrightarrow> code = h_expected_status h \<and> list_all (assertion_holds compile headers body) (h_assertions h))
           \<and> map ar_passed (r_assertions r) = map (assertion_holds compile headers body) (h_assertions h)
       | _ \<Rightarrow> \<not> r_success r)"
proof -
  obtain answer tr where t: "he_transport env (newClient lib (clientKey h)) (buildRequest h) = (answer, tr)"
    by fastforce
  note run = HTTP_Run_answered [OF assms(1-3) t assms(4)]
  have "patterns_ok compile (hs_regex st)" using assms(1) by (simp add: http_ok_def)
  from judgeAnswer_spec [OF this refl run(1)] run(2) show ?thesis
    by (simp add: http_ok_def http_answer_of_def t)
qed


definition sample_http :: CheckConfig where
  "sample_http = (emptyCheck zeroYAML) \<lparr> c_name := ''web'', c_type := CheckTypeHTTP,
     c_http := Some \<lparr> h_url = ''http://example.org/'', h_method = ''GET'', h_expected_status = 200, h_headers = [],
       h_body = '''', h_skip_tls = False, h_follow_redirects = True, h_ip_version = '''', h_min_tls = '''',
       h_max_tls = '''', h_basic_auth = None, h_bearer_token = '''', h_proxy = '''',
       h_assertions = [\<lparr> a_type = ''contains'', a_header = '''', a_target = ''ok'' \<rparr>] \<rparr> \<rparr>"

definition sample_http_env :: "string \<Rightarrow> http_env" where
  "sample_http_env body = \<lparr> he_bad_request = None,
     he_transport = (\<lambda>_ _. (Response 200 Map.empty body,
       \<lparr> tr_dns_start = 0, tr_dns_done = 0, tr_connect_start = 0, tr_connect_done = 0, tr_tls_start = 0,
         tr_tls_done = 0, tr_first_byte = 0, tr_req_start = 5, tr_do_done = 9, tr_transfer_done = 9 \<rparr>)) \<rparr>"

theorem HTTP_Run_verdict_witness:
  "r_success (fst (HTTP_Run sample_lib id (\<lambda>_. Inl ''none'') (sample_http_env ''all ok'') 1 sample_http None newHTTPState))
   \<and> \<not> r_success (fst (HTTP_Run sample_lib id (\<lambda>_. Inl ''none'') (sample_http_env ''error'') 1 sample_http None newHTTPState))"
proof -
  obtain h where h: "c_http sample_http = Some h" "h_expected_status h = 200"
      "h_assertions h = [\<lparr> a_type = ''contains'', a_header = '''', a_target = ''ok'' \<rparr>]"
    by (simp add: sample_http_def)
  have env: "he_bad_request (sample_http_env body) = None"
    and ans: "http_answer_of sample_lib (sample_http_env body) h = Response 200 Map.empty body" for body
    by (simp_all add: sample_http_env_def http_answer_of_def)
  have "r_success (fst (HTTP_Run sample_lib id (\<lambda>_. Inl ''none'') (sample_http_env body) 1 sample_http None newHTTPState))
      \<longleftrightarrow> Contains body ''ok''" for body
    using HTTP_Run_verdict [OF newHTTPState_ok h(1) env, where lib = sample_lib and compile = "\<lambda>_. Inl ''none''"
        and uni = id and now = 1 and og = None, OF surjective_pairing] ans h
    by (simp add: assertion_holds_def Contains_iff)
  moreover have "Contains ''all ok'' ''ok''" "\<not> Contains ''error'' ''ok''" by (simp_all add: HasPrefix_def)
  ultimately show ?thesis by simp
qed

section \<open>Runs without caches\<close>

lemma assertLoop_direct:
  assumes "patterns_ok compile cache"
  shows "fst (assertLoop uni compile headers body as r cache) = fst (assertLoop uni compile headers body as r Map.empty)"
proof -
  have "fst (assertLoop uni compile headers body as r cache) = fst (assertLoop uni compile headers body as r cache')"
    if "patterns_ok compile cache" "patterns_ok compile cache'" for cache cache'
    using that
  proof (induction as arbitrary: r cache cache')
    case (Cons a as)
    obtain ar c c' where "assertOne uni compile headers body a cache = (ar, c)" "assertOne uni compile headers body a cache' = (ar, c')"
      and "patterns_ok compile c" "patterns_ok compile c'"
      using assertOne_direct [OF Cons.prems(1), of uni headers body a] assertOne_direct [OF Cons.prems(2), of uni headers body a]
      by (metis prod.collapse)
    moreover from this have "fst (assertLoop uni compile headers body as r' c) = fst (assertLoop uni compile headers body as r' c')" for r'
      by (intro Cons.IH)
    ultimately show ?case by (simp add: Let_def)
  qed simp
  from this [of cache Map.empty] assms show ?thesis by (simp add: patterns_ok_def)
qed



section \<open>The contract\<close>

definition http_probe ::
  "golib \<times> (string \<Rightarrow> string) \<times> compiler \<times> http_env \<times> http_state \<Rightarrow> gotime \<Rightarrow> CheckConfig \<Rightarrow> Origin option \<Rightarrow> Result"
where
  "http_probe e now cfg og = (case e of (lib, uni, compile, env, st) \<Rightarrow> fst (HTTP_Run lib uni compile env now cfg og st))"

lemma judgeAnswer_contract:
  assumes "judgeAnswer uni compile h answer tr (NewResult now n t og) cache = (r, cache')"
  shows "r_name r = n \<and> r_type r = t \<and> r_timestamp r = now \<and> r_retries r = 0 \<and> \<not> r_degraded r \<and> \<not> r_infra_error r
    \<and> (r_success r \<or> r_error r \<noteq> '''')"
proof (cases answer)
  case (Response code headers body)
  with assms assertLoop_frame show ?thesis
    by (cases "code = h_expected_status h") (fastforce simp: judgeAnswer_def Let_def)+
qed (use assms in \<open>auto simp: judgeAnswer_def Let_def\<close>)

lemma http_probe_contract:
  "r_name (http_probe e now cfg og) = c_name cfg \<and> r_type (http_probe e now cfg og) = CheckTypeHTTP
   \<and> r_timestamp (http_probe e now cfg og) = now \<and> r_retries (http_probe e now cfg og) = 0
   \<and> \<not> r_degraded (http_probe e now cfg og) \<and> \<not> r_infra_error (http_probe e now cfg og)
   \<and> (r_success (http_probe e now cfg og) \<or> r_error (http_probe e now cfg og) \<noteq> '''')"
  using judgeAnswer_contract [OF surjective_pairing]
  by (auto simp: http_probe_def HTTP_Run_def Let_def case_prod_beta split: option.split)

interpretation http: explained_checker CheckTypeHTTP http_probe
  using http_probe_contract by unfold_locales blast+

end
