(* ===== verification/Check_Expiry.thy ===== *)
theory Check_Expiry
  imports Check_Contract
begin

text \<open>
  The two checkers that watch an expiry date: the TLS certificate checker,
  \<open>internal/check/tls_cert.go\<close>, and the domain expiration checker,
  \<open>internal/check/domain_expiration.go\<close>. What the peer and the RDAP service answer, the clock after
  the answer and \<open>x509.Certificate.Verify\<close> are arguments.
\<close>

section \<open>Days remaining\<close>

definition Hours :: "duration \<Rightarrow> float64" where
  "Hours d = of_int d / of_int Hour"

definition daysRemaining :: "gotime \<Rightarrow> gotime \<Rightarrow> int" where
  "daysRemaining expiry now = truncate_float (Hours (time_sub expiry now) / 24)"

lemma truncate_float_div:
  "0 < k \<Longrightarrow> truncate_float (of_int d / of_int k) = (if 0 \<le> d then d div k else - (- d div k))"
proof -
  assume "0 < k"
  then show ?thesis
    using floor_divide_of_int_eq [of d k, where 'a = rat] floor_divide_of_int_eq [of "- d" k, where 'a = rat]
    by (auto simp: truncate_float_def ceiling_def zero_le_divide_iff)
qed

text \<open>Whole days are cut towards 0: on the last day and on the first day after expiry it is 0.\<close>

lemma daysRemaining_div:
  "daysRemaining e n = (let d = time_sub e n in if 0 \<le> d then d div (24 * Hour) else - (- d div (24 * Hour)))"
proof -
  have "Hours d / 24 = of_int d / of_int (24 * Hour)" for d by (simp add: Hours_def)
  then show ?thesis
    by (simp only: daysRemaining_def Let_def) (rule truncate_float_div, simp)
qed

lemma daysRemaining_le:
  assumes "0 \<le> k" and "n \<le> e" and "e - n < 2 ^ 63"
  shows "daysRemaining e n \<le> k \<longleftrightarrow> e - n < (k + 1) * (24 * Hour)"
proof -
  have "(e - n) div (24 * Hour) \<le> k \<longleftrightarrow> e - n < (k + 1) * (24 * Hour)"
    by (rule iffI; simp; linarith)
  with assms show ?thesis by (simp add: daysRemaining_div time_sub_exact Let_def)
qed

section \<open>TLS certificates\<close>

record cert =
  ce_subject :: string
  ce_issuer :: string
  ce_sans :: "string list"
  ce_not_before :: gotime
  ce_not_after :: gotime

datatype tls_answer =
    DialFailed string
  | HandshakeFailed string
  | Peers "cert list"

text \<open>
  \<open>te_connect host hostname\<close> is the outcome of the connection and the handshake,
  \<open>te_verify leaf hostname intermediates\<close> whether the library accepts the chain.
\<close>

record tls_env =
  te_connect :: "string \<Rightarrow> string \<Rightarrow> tls_answer"
  te_verify :: "cert \<Rightarrow> string \<Rightarrow> cert list \<Rightarrow> bool"
  te_elapsed :: duration
  te_now :: gotime

definition validateChain :: "(cert \<Rightarrow> string \<Rightarrow> cert list \<Rightarrow> bool) \<Rightarrow> cert list \<Rightarrow> string \<Rightarrow> bool" where
  "validateChain verify certs hostname = (case certs of [] \<Rightarrow> False | leaf # rest \<Rightarrow> verify leaf hostname rest)"

definition tlsHost :: "TLSCheckConfig \<Rightarrow> string" where
  "tlsHost t = (if SplitHostPort (tl_host t) = None then JoinHostPort (tl_host t) ''443'' else tl_host t)"

definition tlsHostname :: "TLSCheckConfig \<Rightarrow> string" where
  "tlsHostname t = (case SplitHostPort (tlsHost t) of Some (h, p) \<Rightarrow> h | None \<Rightarrow> '''')"

text \<open>The list \<open>errors\<close> of lines 100 to 116.\<close>

definition certErrors :: "TLSCheckConfig \<Rightarrow> gotime \<Rightarrow> cert \<Rightarrow> int \<Rightarrow> bool \<Rightarrow> string list" where
  "certErrors t now leaf days valid =
     (if \<not> valid then [''certificate chain validation failed''] else [])
     @ (if ce_not_after leaf < now then [''certificate expired on '' @ FormatDate (ce_not_after leaf)]
        else if now < ce_not_before leaf then [''certificate not valid until '' @ FormatDate (ce_not_before leaf)] else [])
     @ (if tl_check_expiry t \<and> days \<le> tl_critical_days t
        then [''certificate expires in '' @ itoa days @ '' days (critical threshold: '' @ itoa (tl_critical_days t) @ '')'']
        else if tl_check_expiry t \<and> days \<le> tl_warn_days t
        then [''certificate expires in '' @ itoa days @ '' days (warn threshold: '' @ itoa (tl_warn_days t) @ '')''] else [])"

definition judgeCert :: "tls_env \<Rightarrow> TLSCheckConfig \<Rightarrow> cert \<Rightarrow> cert list \<Rightarrow> Result \<Rightarrow> Result" where
  "judgeCert env t leaf certs r =
     (let now = te_now env; days = daysRemaining (ce_not_after leaf) now;
          valid = validateChain (te_verify env) certs (tlsHostname t);
          r1 = r \<lparr> r_cert_subject := ce_subject leaf, r_cert_issuer := ce_issuer leaf, r_cert_sans := ce_sans leaf,
                   r_cert_expiry := ce_not_after leaf, r_cert_chain_length := int (length certs),
                   r_cert_days_remaining := days, r_cert_warn_days_val := tl_warn_days t,
                   r_cert_crit_days_val := tl_critical_days t, r_cert_valid := valid \<rparr>;
          errors = certErrors t now leaf days valid
      in if length errors > 0 then
           (let r2 = r1 \<lparr> r_error := Join errors ''; '' \<rparr>
            in if \<not> valid \<or> ce_not_after leaf < now \<or> now < ce_not_before leaf
                  \<or> (tl_check_expiry t \<and> days \<le> tl_critical_days t)
               then r2 \<lparr> r_success := False \<rparr> else r2 \<lparr> r_success := True \<rparr>)
         else r1 \<lparr> r_success := True \<rparr>)"

definition TLS_Run :: "tls_env \<Rightarrow> gotime \<Rightarrow> CheckConfig \<Rightarrow> Origin option \<Rightarrow> Result" where
  "TLS_Run env now0 cfg origin =
     (let result = NewResult now0 (c_name cfg) CheckTypeTLS origin
      in case c_tls cfg of
           None \<Rightarrow> result \<lparr> r_error := ''missing TLS check configuration'' \<rparr>
         | Some t \<Rightarrow>
             (let host = tlsHost t; r = result \<lparr> r_duration := te_elapsed env \<rparr>
              in case te_connect env host (tlsHostname t) of
                   DialFailed err \<Rightarrow> r \<lparr> r_error := ''connecting to '' @ host @ '': '' @ err \<rparr>
                 | HandshakeFailed err \<Rightarrow> r \<lparr> r_error := ''TLS handshake with '' @ host @ '': '' @ err \<rparr>
                 | Peers [] \<Rightarrow> r \<lparr> r_error := ''no certificates presented by '' @ host \<rparr>
                 | Peers (leaf # rest) \<Rightarrow> judgeCert env t leaf (leaf # rest) r))"

section \<open>Domains\<close>

record rdapEvent =
  re_action :: string
  re_date :: gotime

record rdapEntity =
  rt_roles :: "string list"
  rt_handle :: string
  rt_public_ids :: "(string \<times> string) list"

record rdapDomain =
  rd_events :: "rdapEvent list"
  rd_entities :: "rdapEntity list"

datatype rdap_answer =
    RdapBuildFailed string
  | RdapQueryFailed string
  | RdapStatus int
  | RdapParseFailed string
  | Rdap rdapDomain

record rdap_env =
  ra_answer :: rdap_answer
  ra_elapsed :: duration
  ra_now :: gotime

fun publicIDs :: "(string \<times> string) list \<Rightarrow> string \<Rightarrow> string" where
  "publicIDs [] registrar = registrar"
| "publicIDs ((ty, ident) # ids) registrar =
     publicIDs ids (if ty = ''IANA Registrar ID'' then ident else registrar)"

fun rolesLoop :: "rdapEntity \<Rightarrow> string list \<Rightarrow> string \<Rightarrow> string" where
  "rolesLoop entity [] registrar = registrar"
| "rolesLoop entity (role # roles) registrar =
     rolesLoop entity roles
       (if role = ''registrar''
        then publicIDs (rt_public_ids entity) (if rt_handle entity \<noteq> '''' then rt_handle entity else registrar)
        else registrar)"

fun entitiesLoop :: "rdapEntity list \<Rightarrow> string \<Rightarrow> string" where
  "entitiesLoop [] registrar = registrar"
| "entitiesLoop (e # es) registrar = entitiesLoop es (rolesLoop e (rt_roles e) registrar)"

fun eventsLoop :: "rdapEvent list \<Rightarrow> gotime \<Rightarrow> gotime" where
  "eventsLoop [] expiry = expiry"
| "eventsLoop (e # es) expiry = eventsLoop es (if re_action e = ''expiration'' then re_date e else expiry)"

definition domainErrors :: "DomainExpirationCheckConfig \<Rightarrow> gotime \<Rightarrow> gotime \<Rightarrow> int \<Rightarrow> string list" where
  "domainErrors d now expiry days =
     (if expiry < now then [''domain expired on '' @ FormatDate expiry]
      else if days \<le> de_critical_days d
      then [''domain expires in '' @ itoa days @ '' days (critical threshold: '' @ itoa (de_critical_days d) @ '')'']
      else if days \<le> de_warn_days d
      then [''domain expires in '' @ itoa days @ '' days (warn threshold: '' @ itoa (de_warn_days d) @ '')'']
      else [])"

definition judgeDomain :: "gotime \<Rightarrow> DomainExpirationCheckConfig \<Rightarrow> rdapDomain \<Rightarrow> Result \<Rightarrow> Result" where
  "judgeDomain now d rdap r =
     (let r1 = r \<lparr> r_domain_registered := True, r_domain_warn_days_val := de_warn_days d,
                   r_domain_crit_days_val := de_critical_days d,
                   r_domain_registrar := entitiesLoop (rd_entities rdap) (r_domain_registrar r) \<rparr>;
          expiry = eventsLoop (rd_events rdap) 0
      in if IsZero expiry
         then r1 \<lparr> r_error := ''no expiration date found for '' @ de_domain d, r_success := True \<rparr>
         else
           (let days = daysRemaining expiry now;
                r2 = r1 \<lparr> r_domain_expiry_date := expiry, r_domain_expiry_days := days \<rparr>;
                errors = domainErrors d now expiry days
            in if length errors > 0 then
                 (let r3 = r2 \<lparr> r_error := Join errors ''; '' \<rparr>
                  in if expiry < now \<or> days \<le> de_critical_days d then r3 \<lparr> r_success := False \<rparr>
                     else r3 \<lparr> r_success := True \<rparr>)
               else r2 \<lparr> r_success := True \<rparr>))"

definition Domain_Run :: "rdap_env \<Rightarrow> gotime \<Rightarrow> CheckConfig \<Rightarrow> Origin option \<Rightarrow> Result" where
  "Domain_Run env now0 cfg origin =
     (let result = NewResult now0 (c_name cfg) CheckTypeDomainExpiry origin
      in case c_domain_expiry cfg of
           None \<Rightarrow> result \<lparr> r_error := ''missing domain expiration check configuration'' \<rparr>
         | Some d \<Rightarrow>
             (let r = result \<lparr> r_duration := ra_elapsed env \<rparr>
              in case ra_answer env of
                   RdapBuildFailed err \<Rightarrow> r \<lparr> r_infra_error := True, r_error := ''building request: '' @ err \<rparr>
                 | RdapQueryFailed err \<Rightarrow> r \<lparr> r_infra_error := True, r_error := ''RDAP query failed: '' @ err \<rparr>
                 | RdapStatus code \<Rightarrow>
                     if code = 404 then r \<lparr> r_error := ''domain '' @ de_domain d @ '' not found in RDAP'' \<rparr>
                     else r \<lparr> r_infra_error := True, r_error := ''RDAP returned HTTP '' @ itoa code \<rparr>
                 | RdapParseFailed err \<Rightarrow> r \<lparr> r_infra_error := True, r_error := ''parsing RDAP response: '' @ err \<rparr>
                 | Rdap rdap \<Rightarrow> judgeDomain (ra_now env) d rdap r))"

section \<open>The verdict on a certificate\<close>

lemma Join_nonempty: "(\<forall>x \<in> set xs. x \<noteq> '''') \<Longrightarrow> Join xs sep = '''' \<longleftrightarrow> xs = []"
  by (induction xs sep rule: Join.induct) auto

lemma certErrors_texts: "\<forall>x \<in> set (certErrors t now leaf days valid). x \<noteq> ''''"
  by (auto simp: certErrors_def)

lemma certErrors_empty:
  "certErrors t now leaf days valid = [] \<longleftrightarrow>
     valid \<and> ce_not_before leaf \<le> now \<and> now \<le> ce_not_after leaf
     \<and> \<not> (tl_check_expiry t \<and> (days \<le> tl_critical_days t \<or> days \<le> tl_warn_days t))"
  by (auto simp: certErrors_def)

lemma judgeCert_frame [simp]:
  "r_name (judgeCert env t leaf certs r) = r_name r" "r_type (judgeCert env t leaf certs r) = r_type r"
  "r_timestamp (judgeCert env t leaf certs r) = r_timestamp r" "r_retries (judgeCert env t leaf certs r) = r_retries r"
  "r_degraded (judgeCert env t leaf certs r) = r_degraded r" "r_infra_error (judgeCert env t leaf certs r) = r_infra_error r"
  "r_cert_days_remaining (judgeCert env t leaf certs r) = daysRemaining (ce_not_after leaf) (te_now env)"
  "r_cert_valid (judgeCert env t leaf certs r) = validateChain (te_verify env) certs (tlsHostname t)"
  "r_cert_warn_days_val (judgeCert env t leaf certs r) = tl_warn_days t"
  "r_cert_crit_days_val (judgeCert env t leaf certs r) = tl_critical_days t"
  by (simp_all add: judgeCert_def Let_def)

lemma judgeCert_success:
  "r_success (judgeCert env t leaf certs r) \<longleftrightarrow>
     validateChain (te_verify env) certs (tlsHostname t)
     \<and> ce_not_before leaf \<le> te_now env \<and> te_now env \<le> ce_not_after leaf
     \<and> \<not> (tl_check_expiry t \<and> daysRemaining (ce_not_after leaf) (te_now env) \<le> tl_critical_days t)"
  by (auto simp: judgeCert_def Let_def certErrors_empty)

lemma judgeCert_error:
  "r_error r = '''' \<Longrightarrow> r_error (judgeCert env t leaf certs r) = '''' \<longleftrightarrow>
     certErrors t (te_now env) leaf (daysRemaining (ce_not_after leaf) (te_now env))
       (validateChain (te_verify env) certs (tlsHostname t)) = []"
  using Join_nonempty [OF certErrors_texts] by (simp add: judgeCert_def Let_def)


definition sample_leaf :: cert where
  "sample_leaf = \<lparr> ce_subject = ''example.org'', ce_issuer = ''CA'', ce_sans = [''example.org''],
     ce_not_before = 0, ce_not_after = 200 * 24 * Hour \<rparr>"

definition sample_tls :: CheckConfig where
  "sample_tls = (emptyCheck zeroYAML) \<lparr> c_name := ''cert'', c_type := CheckTypeTLS,
     c_tls := Some \<lparr> tl_host = ''example.org'', tl_check_expiry = True, tl_warn_days = 30, tl_critical_days = 7 \<rparr> \<rparr>"

definition sample_tls_env :: "gotime \<Rightarrow> tls_env" where
  "sample_tls_env n = \<lparr> te_connect = (\<lambda>_ _. Peers [sample_leaf]), te_verify = (\<lambda>_ _ _. True), te_elapsed = 5, te_now = n \<rparr>"


text \<open>
  In the day after a certificate has expired the days remaining are 0 and the chain is invalid, which
  the notifier takes for a result without a certificate: it raises nothing.
\<close>

lemma freshly_expired_not_notified:
  assumes "c_tls cfg = Some t" and "te_connect env (tlsHost t) (tlsHostname t) = Peers (leaf # rest)"
    and "\<not> te_verify env leaf (tlsHostname t) rest"
    and "ce_not_after leaf < te_now env" and "te_now env < ce_not_after leaf + 24 * Hour"
  shows "HandleCertResult ts mgr (TLS_Run env now cfg og) = mgr"
proof -
  have "daysRemaining (ce_not_after leaf) (te_now env) = 0"
    using assms(4,5) by (simp add: daysRemaining_div time_sub_def Let_def)
  with assms(1-3) show ?thesis
    by (simp add: HandleCertResult_def TLS_Run_def validateChain_def Let_def split: option.split)
qed

lemma TLS_Run_contract:
  "r_name (TLS_Run e now cfg og) = c_name cfg \<and> r_type (TLS_Run e now cfg og) = CheckTypeTLS
   \<and> r_timestamp (TLS_Run e now cfg og) = now \<and> r_retries (TLS_Run e now cfg og) = 0
   \<and> \<not> r_degraded (TLS_Run e now cfg og) \<and> \<not> r_infra_error (TLS_Run e now cfg og)
   \<and> (r_success (TLS_Run e now cfg og) \<or> r_error (TLS_Run e now cfg og) \<noteq> '''')"
  by (auto simp: TLS_Run_def Let_def judgeCert_success judgeCert_error certErrors_empty
      split: option.split tls_answer.split list.split)

interpretation tls: explained_checker CheckTypeTLS TLS_Run
  using TLS_Run_contract by unfold_locales blast+

section \<open>The verdict on a domain\<close>

text \<open>The loop over the events finds the last expiration event.\<close>

lemma eventsLoop_last:
  "eventsLoop es e = (let xs = filter (\<lambda>ev. re_action ev = ''expiration'') es
     in if xs = [] then e else re_date (last xs))"
  by (induction es arbitrary: e) (auto simp: Let_def)

lemma domainErrors_texts: "\<forall>x \<in> set (domainErrors d now expiry days). x \<noteq> ''''"
  by (auto simp: domainErrors_def)

lemma judgeDomain_frame [simp]:
  "r_name (judgeDomain now d rdap r) = r_name r" "r_type (judgeDomain now d rdap r) = r_type r"
  "r_timestamp (judgeDomain now d rdap r) = r_timestamp r" "r_retries (judgeDomain now d rdap r) = r_retries r"
  "r_degraded (judgeDomain now d rdap r) = r_degraded r" "r_infra_error (judgeDomain now d rdap r) = r_infra_error r"
  "r_domain_registered (judgeDomain now d rdap r)"
  by (simp_all add: judgeDomain_def Let_def)

lemma judgeDomain_success:
  "r_success (judgeDomain now d rdap r) \<longleftrightarrow>
     (let expiry = eventsLoop (rd_events rdap) 0
      in IsZero expiry \<or> now \<le> expiry \<and> de_critical_days d < daysRemaining expiry now)"
  by (auto simp: judgeDomain_def Let_def domainErrors_def)

lemma judgeDomain_error:
  "\<not> r_success (judgeDomain now d rdap r) \<Longrightarrow> r_error (judgeDomain now d rdap r) \<noteq> ''''"
  by (auto simp: judgeDomain_def Let_def domainErrors_def Join_nonempty)

text \<open>
  The verdict of a domain check: a registered domain succeeds exactly when RDAP gives
  no expiration date or the last one it gives has not passed and is further away than the critical
  threshold; a domain that RDAP does not know fails; every other missing answer is an infrastructure
  error, which says nothing about the domain.
\<close>

theorem Domain_Run_verdict:
  assumes "c_domain_expiry cfg = Some d" and "r = Domain_Run env now cfg og"
  shows "(r_infra_error r \<longleftrightarrow> \<not> r_domain_registered r \<and> ra_answer env \<noteq> RdapStatus 404)
    \<and> (case ra_answer env of
         Rdap rdap \<Rightarrow> r_domain_registered r
           \<and> (let xs = filter (\<lambda>ev. re_action ev = ''expiration'') (rd_events rdap);
                  expiry = (if xs = [] then 0 else re_date (last xs))
              in r_success r \<longleftrightarrow> IsZero expiry \<or> ra_now env \<le> expiry \<and> de_critical_days d < daysRemaining expiry (ra_now env))
       | _ \<Rightarrow> \<not> r_success r)"
proof -
  have "\<not> r_domain_registered (NewResult now (c_name cfg) t og)" for t
    by (simp add: NewResult_def zeroResult_def Let_def split: option.split)
  with assms show ?thesis
    by (cases "ra_answer env") (auto simp: Domain_Run_def Let_def judgeDomain_success eventsLoop_last)
qed

definition sample_domain :: CheckConfig where
  "sample_domain = (emptyCheck zeroYAML) \<lparr> c_name := ''dom'', c_type := CheckTypeDomainExpiry,
     c_domain_expiry := Some \<lparr> de_domain = ''example.org'', de_warn_days = 30, de_critical_days = 7 \<rparr> \<rparr>"

definition sample_rdap :: "gotime \<Rightarrow> rdap_env" where
  "sample_rdap n = \<lparr> ra_answer = Rdap \<lparr> rd_events = [\<lparr> re_action = ''expiration'', re_date = 200 * 24 * Hour \<rparr>], rd_entities = [] \<rparr>,
     ra_elapsed = 5, ra_now = n \<rparr>"

theorem Domain_Run_verdict_witness:
  "r_success (Domain_Run (sample_rdap (180 * 24 * Hour)) 1 sample_domain None)
   \<and> \<not> r_success (Domain_Run (sample_rdap (195 * 24 * Hour)) 1 sample_domain None)"
proof -
  obtain d where d: "c_domain_expiry sample_domain = Some d" "de_critical_days d = 7"
    by (simp add: sample_domain_def)
  show ?thesis
    using Domain_Run_verdict [OF d(1) refl, of "sample_rdap (180 * 24 * Hour)" 1 None]
      Domain_Run_verdict [OF d(1) refl, of "sample_rdap (195 * 24 * Hour)" 1 None] d(2)
    by (simp add: sample_rdap_def daysRemaining_div time_sub_def IsZero_def)
qed

lemma Domain_Run_contract:
  "r_name (Domain_Run e now cfg og) = c_name cfg \<and> r_type (Domain_Run e now cfg og) = CheckTypeDomainExpiry
   \<and> r_timestamp (Domain_Run e now cfg og) = now \<and> r_retries (Domain_Run e now cfg og) = 0
   \<and> \<not> r_degraded (Domain_Run e now cfg og)
   \<and> (r_infra_error (Domain_Run e now cfg og) \<longrightarrow> \<not> r_success (Domain_Run e now cfg og))
   \<and> (r_success (Domain_Run e now cfg og) \<or> r_error (Domain_Run e now cfg og) \<noteq> '''')"
  using judgeDomain_error
  by (auto simp: Domain_Run_def Let_def split: option.split rdap_answer.split)

interpretation domain: explained_checker CheckTypeDomainExpiry Domain_Run
  using Domain_Run_contract by unfold_locales blast+

end
