(* ===== verification/Check_ICMP.thy ===== *)
theory Check_ICMP
  imports Check_Contract
begin

text \<open>
  The ICMP checker, \<open>internal/check/icmp.go\<close>: the choice of network and socket, the loop over the
  echo requests, the loop that waits for the matching reply, and the statistics. The resolver, the
  sockets and the packets that arrive are arguments. Reading has a deadline, so the packets a wait
  can see before it are a finite list; after them the read times out.
\<close>

section \<open>Waiting for a reply\<close>

datatype icmp_read =
    ReadFailed string
  | MalformedPacket
  | OtherType
  | NoEchoBody
  | EchoReply int int string

record ping_env =
  pi_marshal :: "string option"
  pi_now :: gotime
  pi_ctx_deadline :: "gotime option"
  pi_set_deadline :: "string option"
  pi_write :: "string option"
  pi_ctx_err :: "nat \<Rightarrow> string option"
  pi_reads :: "gotime \<Rightarrow> (icmp_read \<times> duration) list"

definition echo_payload :: string where
  "echo_payload = ''technician-check''"

definition payloadMatches :: "string \<Rightarrow> string \<Rightarrow> bool" where
  "payloadMatches received expected = HasPrefix received expected"

text \<open>The loop of lines 231 to 276; \<open>n\<close> counts the iterations.\<close>

fun replyLoop :: "(nat \<Rightarrow> string option) \<Rightarrow> int \<Rightarrow> int \<Rightarrow> nat \<Rightarrow> (icmp_read \<times> duration) list \<Rightarrow> string + duration" where
  "replyLoop ctx_err ident seq n [] =
     (case ctx_err n of Some e \<Rightarrow> Inl e | None \<Rightarrow> Inl ''timeout waiting for reply'')"
| "replyLoop ctx_err ident seq n ((p, rtt) # ps) =
     (case ctx_err n of
        Some e \<Rightarrow> Inl e
      | None \<Rightarrow>
          (case p of
             ReadFailed e \<Rightarrow> Inl (''read ICMP reply: '' @ e)
           | MalformedPacket \<Rightarrow> replyLoop ctx_err ident seq (Suc n) ps
           | OtherType \<Rightarrow> replyLoop ctx_err ident seq (Suc n) ps
           | NoEchoBody \<Rightarrow> replyLoop ctx_err ident seq (Suc n) ps
           | EchoReply rid rseq payload \<Rightarrow>
               if rid = ident \<and> rseq = seq then Inr rtt
               else if rseq = seq \<and> payloadMatches payload echo_payload then Inr rtt
               else replyLoop ctx_err ident seq (Suc n) ps))"

definition pingDeadline :: "gotime \<Rightarrow> duration \<Rightarrow> gotime option \<Rightarrow> gotime" where
  "pingDeadline now timeout ctxDeadline =
     (let deadline = now + timeout
      in case ctxDeadline of Some d \<Rightarrow> if d < deadline then d else deadline | None \<Rightarrow> deadline)"

definition sendPing :: "ping_env \<Rightarrow> int \<Rightarrow> int \<Rightarrow> duration \<Rightarrow> string + duration" where
  "sendPing env ident seq timeout =
     (case pi_marshal env of
        Some e \<Rightarrow> Inl (''marshal ICMP message: '' @ e)
      | None \<Rightarrow>
          (let deadline = pingDeadline (pi_now env) timeout (pi_ctx_deadline env)
           in case pi_set_deadline env of
                Some e \<Rightarrow> Inl (''set read deadline: '' @ e)
              | None \<Rightarrow>
                  (case pi_write env of
                     Some e \<Rightarrow> Inl (''send ICMP: '' @ e)
                   | None \<Rightarrow> replyLoop (pi_ctx_err env) ident seq 0 (pi_reads env deadline))))"

section \<open>A run\<close>

record icmp_env =
  ie_resolve :: "string \<Rightarrow> string \<Rightarrow> string + bool"
  ie_listen :: "string \<Rightarrow> string \<Rightarrow> string option"
  ie_echo_id :: int
  ie_cancelled :: "nat \<Rightarrow> bool"
  ie_ping :: "nat \<Rightarrow> ping_env"
  ie_elapsed :: duration

definition ipNetwork :: "string \<Rightarrow> string" where
  "ipNetwork v = (if v = ''4'' then ''ip4'' else if v = ''6'' then ''ip6'' else ''ip'')"

text \<open>The sockets tried for an address family: privileged, unprivileged and the listen address.\<close>

definition icmpSockets :: "bool \<Rightarrow> string \<times> string \<times> string" where
  "icmpSockets isIPv6 = (if isIPv6 then (''ip6:ipv6-icmp'', ''udp6'', ''::'') else (''ip4:icmp'', ''udp4'', ''0.0.0.0''))"

definition listenICMP :: "(string \<Rightarrow> string \<Rightarrow> string option) \<Rightarrow> bool \<Rightarrow> string option" where
  "listenICMP listen isIPv6 =
     (case icmpSockets isIPv6 of
        (privileged, unprivileged, addr) \<Rightarrow>
          (case listen privileged addr of None \<Rightarrow> None | Some _ \<Rightarrow> listen unprivileged addr))"

fun pingLoop :: "icmp_env \<Rightarrow> duration \<Rightarrow> nat \<Rightarrow> nat \<Rightarrow> int \<times> duration list \<Rightarrow> int \<times> duration list" where
  "pingLoop env timeout 0 seq acc = acc"
| "pingLoop env timeout (Suc n) seq (sent, rtts) =
     (if ie_cancelled env seq then (sent, rtts)
      else (case sendPing (ie_ping env seq) (ie_echo_id env) (int seq) timeout of
              Inl err \<Rightarrow> pingLoop env timeout n (Suc seq) (sent + 1, rtts)
            | Inr rtt \<Rightarrow> pingLoop env timeout n (Suc seq) (sent + 1, rtts @ [rtt])))"

fun rttLoop :: "duration list \<Rightarrow> duration \<times> duration \<times> duration \<Rightarrow> duration \<times> duration \<times> duration" where
  "rttLoop [] acc = acc"
| "rttLoop (rtt # rtts) (tot, lo, hi) =
     rttLoop rtts (wrap64 (tot + rtt), if rtt < lo then rtt else lo, if rtt > hi then rtt else hi)"

definition icmpStats :: "int \<Rightarrow> duration list \<Rightarrow> Result \<Rightarrow> Result" where
  "icmpStats sent rtts r =
     (let r1 = r \<lparr> r_icmp_sent := sent, r_icmp_recv := int (length rtts) \<rparr>;
          r2 = (if sent > 0
                then r1 \<lparr> r_icmp_loss := of_int (sent - int (length rtts)) / of_int sent * 100 \<rparr> else r1)
      in case rtts of
           [] \<Rightarrow> r2
         | first # _ \<Rightarrow>
             (case rttLoop rtts (0, first, first) of
                (tot, lo, hi) \<Rightarrow>
                  r2 \<lparr> r_icmp_min_rtt := lo, r_icmp_max_rtt := hi,
                       r_icmp_avg_rtt := tot sdiv int (length rtts), r_success := True \<rparr>))"

definition icmpTimeout :: "CheckConfig \<Rightarrow> duration" where
  "icmpTimeout cfg = (if c_timeout cfg = 0 then 30 * Second else c_timeout cfg)"

definition icmpCount :: "ICMPCheckConfig \<Rightarrow> int" where
  "icmpCount i = (if i_count i \<le> 0 then 3 else i_count i)"

definition ICMP_Run :: "icmp_env \<Rightarrow> gotime \<Rightarrow> CheckConfig \<Rightarrow> Origin option \<Rightarrow> Result" where
  "ICMP_Run env now cfg origin =
     (let result = NewResult now (c_name cfg) CheckTypeICMP origin
      in case c_icmp cfg of
           None \<Rightarrow> result \<lparr> r_error := ''missing ICMP check configuration'' \<rparr>
         | Some i \<Rightarrow>
             (let count = icmpCount i; probeTimeout = icmpTimeout cfg sdiv count
              in case ie_resolve env (ipNetwork (i_ip_version i)) (i_host i) of
                   Inl err \<Rightarrow> result \<lparr> r_error := ''resolving '' @ i_host i @ '': '' @ err \<rparr>
                 | Inr isIPv6 \<Rightarrow>
                     (case listenICMP (ie_listen env) isIPv6 of
                        Some err \<Rightarrow> result \<lparr> r_error := ''listen ICMP: '' @ err \<rparr>
                      | None \<Rightarrow>
                          (case pingLoop env probeTimeout (nat count) 0 (0, []) of
                             (sent, rtts) \<Rightarrow> icmpStats sent rtts (result \<lparr> r_duration := ie_elapsed env \<rparr>)))))"

section \<open>The replies that count\<close>

text \<open>The replies that a wait for sequence number \<open>seq\<close> accepts.\<close>

definition accepts :: "int \<Rightarrow> int \<Rightarrow> icmp_read \<Rightarrow> bool" where
  "accepts ident seq p = (case p of
     EchoReply rid rseq payload \<Rightarrow> rseq = seq \<and> (rid = ident \<or> HasPrefix payload echo_payload) | _ \<Rightarrow> False)"

definition is_failure :: "icmp_read \<Rightarrow> bool" where
  "is_failure p = (case p of ReadFailed _ \<Rightarrow> True | _ \<Rightarrow> False)"

definition ctx_alive :: "(nat \<Rightarrow> string option) \<Rightarrow> nat \<Rightarrow> nat \<Rightarrow> bool" where
  "ctx_alive ctx_err m n \<longleftrightarrow> (\<forall>j \<in> {m .. m + n}. ctx_err j = None)"

lemma ctx_alive_Suc: "ctx_alive ctx_err m (Suc n) \<longleftrightarrow> ctx_err m = None \<and> ctx_alive ctx_err (Suc m) n"
  by (simp add: ctx_alive_def Icc_eq_insert_lb_nat)

lemma replyLoop_skip:
  "ctx_err m = None \<Longrightarrow> \<not> accepts ident seq q \<Longrightarrow> \<not> is_failure q \<Longrightarrow>
     replyLoop ctx_err ident seq m ((q, d) # ps) = replyLoop ctx_err ident seq (Suc m) ps"
  by (auto simp: accepts_def is_failure_def payloadMatches_def split: icmp_read.splits)

lemma replyLoop_accept:
  "ctx_err m = None \<Longrightarrow> accepts ident seq q \<Longrightarrow> replyLoop ctx_err ident seq m ((q, d) # ps) = Inr d"
  by (auto simp: accepts_def payloadMatches_def split: icmp_read.splits)

lemma replyLoop_fail:
  "ctx_err m = None \<Longrightarrow> is_failure q \<Longrightarrow> replyLoop ctx_err ident seq m ((q, d) # ps) \<noteq> Inr rtt \<and> \<not> accepts ident seq q"
  by (auto simp: accepts_def is_failure_def split: icmp_read.splits)

text \<open>A wait returns a round trip exactly when an accepted reply comes before any failure.\<close>

lemma replyLoop_first:
  "replyLoop ctx_err ident seq m ps = Inr rtt \<longleftrightarrow>
     (\<exists>pre q post. ps = pre @ (q, rtt) # post \<and> accepts ident seq q \<and> ctx_alive ctx_err m (length pre)
       \<and> list_all (\<lambda>(p, _). \<not> accepts ident seq p \<and> \<not> is_failure p) pre)"
proof (induction ps arbitrary: m)
  case Nil
  then show ?case by (simp split: option.split)
next
  case (Cons p ps)
  obtain q d where p: "p = (q, d)" by (cases p)
  consider e where "ctx_err m = Some e" | "ctx_err m = None" "accepts ident seq q"
    | "ctx_err m = None" "is_failure q" | "ctx_err m = None" "\<not> accepts ident seq q" "\<not> is_failure q"
    by (cases "ctx_err m") auto
  then show ?case
  proof cases
    case 1
    then have "\<not> ctx_alive ctx_err m n" for n by (auto simp: ctx_alive_def)
    with 1 p show ?thesis by simp
  next
    case 2
    then have "ctx_alive ctx_err m 0" by (simp add: ctx_alive_def)
    with 2 p show ?thesis
      by (auto simp: Cons_eq_append_conv replyLoop_accept simp del: replyLoop.simps)
         (rule exI [of _ "[]"], auto)
  next
    case 3
    with p show ?thesis
      using replyLoop_fail [of ctx_err m q] 3 by (auto simp: Cons_eq_append_conv simp del: replyLoop.simps)
  next
    case 4
    let ?ok = "list_all (\<lambda>(p, _). \<not> accepts ident seq p \<and> \<not> is_failure p)"
    have "(\<exists>pre q' post. (q, d) # ps = pre @ (q', rtt) # post \<and> accepts ident seq q' \<and> ctx_alive ctx_err m (length pre) \<and> ?ok pre)
      \<longleftrightarrow> (\<exists>pre q' post. ps = pre @ (q', rtt) # post \<and> accepts ident seq q' \<and> ctx_alive ctx_err (Suc m) (length pre) \<and> ?ok pre)"
      (is "?A \<longleftrightarrow> ?B")
    proof
      assume ?A
      then obtain pre q' post where *: "(q, d) # ps = pre @ (q', rtt) # post" "accepts ident seq q'"
        "ctx_alive ctx_err m (length pre)" "?ok pre" by blast
      with 4 obtain pre' where "pre = (q, d) # pre'" by (cases pre) auto
      with * show ?B by (auto simp: ctx_alive_Suc)
    next
      assume ?B
      then obtain pre q' post where "ps = pre @ (q', rtt) # post" "accepts ident seq q'"
        "ctx_alive ctx_err (Suc m) (length pre)" "?ok pre" by blast
      with 4 show ?A
        by (intro exI [of _ "(q, d) # pre"] exI [of _ q'] exI [of _ post]) (simp add: ctx_alive_Suc)
    qed
    with Cons.IH [of "Suc m"] replyLoop_skip [of ctx_err m ident seq q d ps] 4 p show ?thesis by (simp del: replyLoop.simps)
  qed
qed

section \<open>The statistics\<close>

lemma pingLoop_counts:
  assumes "pingLoop env timeout n seq (s, rs) = (sent, rtts)" and "int (length rs) \<le> s"
  shows "s \<le> sent \<and> sent \<le> s + int n \<and> int (length rtts) \<le> sent"
  using assms
proof (induction n arbitrary: seq s rs)
  case (Suc n)
  show ?case
  proof (cases "ie_cancelled env seq")
    case False
    then obtain rs' where "pingLoop env timeout n (Suc seq) (s + 1, rs') = (sent, rtts)" "length rs' \<le> Suc (length rs)"
      using Suc.prems(1) by (auto split: sum.splits)
    with Suc.IH [of "Suc seq" "s + 1" rs'] Suc.prems(2) show ?thesis by simp
  qed (use Suc.prems in simp)
qed simp

lemma rttLoop_spec:
  assumes "\<forall>d \<in> set rtts. 0 \<le> d" and "0 \<le> tot" and "tot + sum_list rtts < 2 ^ 63"
  shows "rttLoop rtts (tot, lo, hi) = (tot + sum_list rtts, fold min rtts lo, fold max rtts hi)"
  using assms
proof (induction rtts arbitrary: tot lo hi)
  case (Cons d ds)
  have "0 \<le> sum_list ds" using Cons.prems(1) by (intro sum_list_nonneg) auto
  with Cons.prems have "wrap64 (tot + d) = tot + d" by (intro wrap64_id) auto
  moreover have "(if d < lo then d else lo) = min d lo" "(if hi < d then d else hi) = max d hi" by auto
  ultimately show ?case using Cons by (simp add: add.assoc)
qed simp

lemma sum_list_between:
  fixes xs :: "int list"
  assumes "\<forall>x \<in> set xs. lo \<le> x \<and> x \<le> hi"
  shows "lo * int (length xs) \<le> sum_list xs \<and> sum_list xs \<le> hi * int (length xs)"
  using assms by (induction xs) (auto simp: distrib_left)

lemma fold_min_max:
  fixes xs :: "int list"
  shows "fold min xs a = Min (insert a (set xs))" "fold max xs a = Max (insert a (set xs))"
  by (simp_all add: Min.set_eq_fold Max.set_eq_fold flip: list.set)

lemma sdiv_between:
  fixes n :: int
  assumes "0 < n" and "0 \<le> lo" and "lo * n \<le> s" and "s \<le> hi * n"
  shows "lo \<le> s sdiv n \<and> s sdiv n \<le> hi"
proof -
  have "0 \<le> s" using assms by (meson mult_nonneg_nonneg order.trans less_imp_le)
  then have "s sdiv n = s div n" using assms(1) by (cases "s = 0") (simp_all add: signed_divide_int_def)
  moreover have "lo \<le> s div n" using assms(1,3) zdiv_mono1 [of "lo * n" s n] by simp
  moreover have "s div n \<le> hi" using assms(1,4) zdiv_mono1 [of s "hi * n" n] by simp
  ultimately show ?thesis by simp
qed

text \<open>The outcome of the request loop for the configuration \<open>i\<close> of a check.\<close>

definition pinged :: "icmp_env \<Rightarrow> CheckConfig \<Rightarrow> ICMPCheckConfig \<Rightarrow> int \<times> duration list" where
  "pinged env cfg i = pingLoop env (icmpTimeout cfg sdiv icmpCount i) (nat (icmpCount i)) 0 (0, [])"

lemma pinged_bounds:
  assumes "pinged env cfg i = (sent, rtts)"
  shows "0 \<le> sent" "sent \<le> icmpCount i" "int (length rtts) \<le> sent"
  using pingLoop_counts [OF assms [unfolded pinged_def]] by (simp_all add: icmpCount_def split: if_splits)

lemma icmpStats_loss:
  assumes "int (length rtts) \<le> sent" and "0 < sent"
  shows "0 \<le> r_icmp_loss (icmpStats sent rtts r) \<and> r_icmp_loss (icmpStats sent rtts r) \<le> 100
    \<and> r_icmp_loss (icmpStats sent rtts r) = of_int (sent - int (length rtts)) / of_int sent * 100"
proof -
  define x where "x = (of_int (sent - int (length rtts)) / of_int sent :: rat)"
  have "r_icmp_loss (icmpStats sent rtts r) = x * 100"
    unfolding x_def using assms(2)
    by (cases rtts) (simp_all add: icmpStats_def Let_def case_prod_beta del: rttLoop.simps)
  moreover have "0 \<le> x" "x \<le> 1" using assms by (simp_all add: x_def divide_le_eq)
  ultimately show ?thesis unfolding x_def [symmetric] by linarith
qed

lemma icmpStats_sel [simp]:
  "r_icmp_sent (icmpStats sent rtts r) = sent" "r_icmp_recv (icmpStats sent rtts r) = int (length rtts)"
  "r_success (icmpStats sent rtts r) = (r_success r \<or> rtts \<noteq> [])"
  "r_name (icmpStats sent rtts r) = r_name r" "r_type (icmpStats sent rtts r) = r_type r"
  "r_timestamp (icmpStats sent rtts r) = r_timestamp r" "r_retries (icmpStats sent rtts r) = r_retries r"
  "r_degraded (icmpStats sent rtts r) = r_degraded r" "r_infra_error (icmpStats sent rtts r) = r_infra_error r"
  "r_error (icmpStats sent rtts r) = r_error r"
  by (cases rtts; simp add: icmpStats_def Let_def case_prod_beta del: rttLoop.simps)+

lemma icmpStats_rtts:
  assumes "rtts \<noteq> []" and "\<forall>d \<in> set rtts. 0 \<le> d" and "sum_list rtts < 2 ^ 63"
  shows "r_icmp_min_rtt (icmpStats sent rtts r) = Min (set rtts) \<and> r_icmp_max_rtt (icmpStats sent rtts r) = Max (set rtts)
    \<and> Min (set rtts) \<le> r_icmp_avg_rtt (icmpStats sent rtts r) \<and> r_icmp_avg_rtt (icmpStats sent rtts r) \<le> Max (set rtts)"
proof -
  obtain d ds where r: "rtts = d # ds" using assms(1) by (cases rtts) auto
  have loop: "rttLoop rtts (0, d, d) = (sum_list rtts, Min (set rtts), Max (set rtts))"
    using rttLoop_spec [OF assms(2), of 0 d d] assms(3) r by (simp add: fold_min_max insert_absorb del: rttLoop.simps)
  have "Min (set rtts) \<le> sum_list rtts sdiv int (length rtts) \<and> sum_list rtts sdiv int (length rtts) \<le> Max (set rtts)"
    using sum_list_between [of rtts "Min (set rtts)" "Max (set rtts)"] assms r
    by (intro sdiv_between) auto
  with loop r show ?thesis by (simp add: icmpStats_def Let_def del: rttLoop.simps)
qed


definition sample_ping :: "int \<Rightarrow> ping_env" where
  "sample_ping s = \<lparr> pi_marshal = None, pi_now = 0, pi_ctx_deadline = None, pi_set_deadline = None, pi_write = None,
     pi_ctx_err = (\<lambda>_. None),
     pi_reads = (\<lambda>_. if s = 1 then [(OtherType, 3)] else [(MalformedPacket, 2), (EchoReply 7 s ''x'', 10 + s)]) \<rparr>"

definition sample_icmp_env :: icmp_env where
  "sample_icmp_env = \<lparr> ie_resolve = (\<lambda>_ _. Inr False), ie_listen = (\<lambda>_ _. None), ie_echo_id = 7,
     ie_cancelled = (\<lambda>_. False), ie_ping = (\<lambda>n. sample_ping (int n)), ie_elapsed = 30 \<rparr>"

definition sample_icmp :: CheckConfig where
  "sample_icmp = (emptyCheck zeroYAML) \<lparr> c_name := ''ping'', c_type := CheckTypeICMP,
     c_icmp := Some \<lparr> i_host = ''host'', i_count = 3, i_ip_version = '''' \<rparr> \<rparr>"

lemma sample_pinged:
  "pinged sample_icmp_env sample_icmp \<lparr> i_host = ''host'', i_count = 3, i_ip_version = '''' \<rparr> = (3, [10, 12])"
  by (simp add: pinged_def sample_icmp_env_def sample_ping_def sendPing_def pingDeadline_def icmpCount_def
      numeral_3_eq_3 Let_def)


text \<open>
  The reply that answers a request: a ping returns a round trip exactly when the
  request was sent and, before the deadline, a failed read or the end of the context, an echo reply
  arrives with its sequence number and either its identifier or the payload of the program; it is
  the round trip of the first such reply. Malformed packets, other messages and replies to other
  requests are skipped.
\<close>

theorem sendPing_first_reply:
  "sendPing env ident seq timeout = Inr rtt \<longleftrightarrow>
     pi_marshal env = None \<and> pi_set_deadline env = None \<and> pi_write env = None
     \<and> (\<exists>pre q post. pi_reads env (pingDeadline (pi_now env) timeout (pi_ctx_deadline env)) = pre @ (q, rtt) # post
         \<and> accepts ident seq q \<and> ctx_alive (pi_ctx_err env) 0 (length pre)
         \<and> list_all (\<lambda>(p, _). \<not> accepts ident seq p \<and> \<not> is_failure p) pre)"
  by (auto simp: sendPing_def Let_def replyLoop_first split: option.splits)

text \<open>
  The payload alone identifies a reply, whatever its identifier and sender: an answer to a
  concurrent check of another host with the same sequence number is taken for an answer of this one.
\<close>

lemma foreign_reply_accepted:
  assumes "ident' \<noteq> ident"
  shows "replyLoop (\<lambda>_. None) ident seq 0 [(EchoReply ident' seq echo_payload, rtt)] = Inr rtt"
  using assms by (simp add: payloadMatches_def HasPrefix_def)

text \<open>A check whose requests all stay unanswered fails without a message.\<close>

lemma lost_replies_no_error:
  assumes "c_icmp cfg = Some i" and "ie_resolve env (ipNetwork (i_ip_version i)) (i_host i) = Inr six"
    and "listenICMP (ie_listen env) six = None" and "pinged env cfg i = (sent, [])"
  shows "\<not> r_success (ICMP_Run env now cfg og) \<and> r_error (ICMP_Run env now cfg og) = ''''"
  using assms by (simp add: ICMP_Run_def pinged_def Let_def)

lemma ICMP_Run_contract:
  "r_name (ICMP_Run e now cfg og) = c_name cfg \<and> r_type (ICMP_Run e now cfg og) = CheckTypeICMP
   \<and> r_timestamp (ICMP_Run e now cfg og) = now \<and> r_retries (ICMP_Run e now cfg og) = 0
   \<and> \<not> r_degraded (ICMP_Run e now cfg og) \<and> \<not> r_infra_error (ICMP_Run e now cfg og)"
  by (auto simp: ICMP_Run_def Let_def split: option.split sum.split prod.split)

interpretation icmp: sound_checker CheckTypeICMP ICMP_Run
  using ICMP_Run_contract by unfold_locales blast+

end
