(* ===== verification/Check_NTP.thy ===== *)
theory Check_NTP
  imports Check_Contract "HOL-Library.Word"
begin

unbundle bit_operations_syntax

text \<open>
  The NTP checker, \<open>internal/check/ntp.go\<close>: the request, the decoding of the 48-byte answer with
  its fields at their widths, the conversion of NTP timestamps, and the clock offset and round trip
  computed from the four times, in 64-bit arithmetic. The socket is the argument \<open>ntp_env\<close>.
\<close>

section \<open>Packets\<close>

record ntpPacket =
  np_li_vn_mode :: "8 word"
  np_stratum :: "8 word"
  np_poll :: "8 word"
  np_precision :: "8 word"
  np_root_delay :: "32 word"
  np_root_dispersion :: "32 word"
  np_reference_id :: "32 word"
  np_rx_sec :: "32 word"
  np_rx_frac :: "32 word"
  np_tx_sec :: "32 word"
  np_tx_frac :: "32 word"

text \<open>\<open>binary.BigEndian.Uint32\<close> of the four bytes from \<open>i\<close> on.\<close>

definition Uint32 :: "8 word list \<Rightarrow> nat \<Rightarrow> 32 word" where
  "Uint32 b i = ucast (b ! (i + 3)) OR push_bit 8 (ucast (b ! (i + 2)))
     OR push_bit 16 (ucast (b ! (i + 1))) OR push_bit 24 (ucast (b ! i))"

definition parsePacket :: "8 word list \<Rightarrow> ntpPacket" where
  "parsePacket resp = \<lparr> np_li_vn_mode = resp ! 0, np_stratum = resp ! 1, np_poll = resp ! 2, np_precision = resp ! 3,
     np_root_delay = Uint32 resp 4, np_root_dispersion = Uint32 resp 8, np_reference_id = Uint32 resp 12,
     np_rx_sec = Uint32 resp 32, np_rx_frac = Uint32 resp 36, np_tx_sec = Uint32 resp 40, np_tx_frac = Uint32 resp 44 \<rparr>"

definition requestPacket :: "8 word list" where
  "requestPacket = (replicate 48 0)[0 := 0x23]"

definition ntpEpochOffset :: int where
  "ntpEpochOffset = 2208988800"

text \<open>\<open>time.Unix\<close>: the zero time is the first of January of year 1.\<close>

definition unixEpoch :: gotime where
  "unixEpoch = 719162 * 24 * Hour"

definition Unix :: "int \<Rightarrow> int \<Rightarrow> gotime" where
  "Unix sec nsec = unixEpoch + sec * Second + nsec"

definition ntpTimeToTime :: "32 word \<Rightarrow> 32 word \<Rightarrow> gotime" where
  "ntpTimeToTime sec frc = Unix (uint sec - ntpEpochOffset) (drop_bit 32 (uint frc * 1000000000))"

section \<open>A run\<close>

datatype ntp_read = NtpReadFailed string | NtpRead "8 word list"

record ntp_env =
  ne_dial :: "string \<Rightarrow> string option"
  ne_write :: "8 word list \<Rightarrow> string option"
  ne_read :: ntp_read
  ne_sent :: gotime
  ne_received :: gotime
  ne_elapsed :: duration

definition ntpOffset :: "gotime \<Rightarrow> gotime \<Rightarrow> gotime \<Rightarrow> gotime \<Rightarrow> duration" where
  "ntpOffset ta tb tc td = wrap64 (time_sub tb ta + time_sub tc td) sdiv 2"

definition ntpDelay :: "gotime \<Rightarrow> gotime \<Rightarrow> gotime \<Rightarrow> gotime \<Rightarrow> duration" where
  "ntpDelay ta tb tc td = wrap64 (time_sub td ta - time_sub tc tb)"

definition judgeNTP :: "gotime \<Rightarrow> gotime \<Rightarrow> ntpPacket \<Rightarrow> Result \<Rightarrow> Result" where
  "judgeNTP ta td pkt result =
     (let r = result \<lparr> r_duration := time_sub td ta \<rparr>
      in if drop_bit 6 (np_li_vn_mode pkt) = 3 then r \<lparr> r_error := ''NTP server is unsynchronized (LI=3)'' \<rparr>
         else if np_stratum pkt = 0 then r \<lparr> r_error := ''NTP kiss-of-death received (stratum 0)'' \<rparr>
         else
           (let tb = ntpTimeToTime (np_rx_sec pkt) (np_rx_frac pkt);
                tc = ntpTimeToTime (np_tx_sec pkt) (np_tx_frac pkt)
            in r \<lparr> r_ntp_offset_ms := of_int (ntpOffset ta tb tc td) / 1000000,
                   r_ntp_stratum := uint (np_stratum pkt), r_ntp_rtt := ntpDelay ta tb tc td, r_success := True \<rparr>))"

definition NTP_Run :: "ntp_env \<Rightarrow> gotime \<Rightarrow> CheckConfig \<Rightarrow> Origin option \<Rightarrow> Result" where
  "NTP_Run env now cfg origin =
     (let result = NewResult now (c_name cfg) CheckTypeNTP origin
      in case c_ntp cfg of
           None \<Rightarrow> result \<lparr> r_error := ''missing NTP check configuration'' \<rparr>
         | Some n \<Rightarrow>
             (case ne_dial env (n_server n @ '':'' @ itoa (n_port n)) of
                Some err \<Rightarrow> result \<lparr> r_error := ''NTP dial failed: '' @ err \<rparr>
              | None \<Rightarrow>
                  (case ne_write env requestPacket of
                     Some err \<Rightarrow> result \<lparr> r_duration := ne_elapsed env, r_error := ''NTP write failed: '' @ err \<rparr>
                   | None \<Rightarrow>
                       (case ne_read env of
                          NtpReadFailed err \<Rightarrow> result \<lparr> r_duration := ne_elapsed env, r_error := ''NTP read failed: '' @ err \<rparr>
                        | NtpRead resp \<Rightarrow>
                            if length resp < 48
                            then result \<lparr> r_duration := ne_elapsed env,
                                          r_error := ''NTP response too short: '' @ itoa (int (length resp)) @ '' bytes'' \<rparr>
                            else judgeNTP (ne_sent env) (ne_received env) (parsePacket resp) result))))"

section \<open>Decoding\<close>

text \<open>The encoding of a 32-bit field, most significant byte first.\<close>

definition PutUint32 :: "32 word \<Rightarrow> 8 word list" where
  "PutUint32 x = [ucast (drop_bit 24 x), ucast (drop_bit 16 x), ucast (drop_bit 8 x), ucast x]"

lemma length_PutUint32 [simp]: "length (PutUint32 x) = 4"
  by (simp add: PutUint32_def)

lemma Uint32_PutUint32: "length pre = i \<Longrightarrow> Uint32 (pre @ PutUint32 x @ post) i = x"
proof (rule bit_word_eqI)
  fix n assume i: "length pre = i" and n: "n < LENGTH(32)"
  then consider "n < 8" | "8 \<le> n" "n < 16" | "16 \<le> n" "n < 24" | "24 \<le> n" "n < 32" by fastforce
  then show "bit (Uint32 (pre @ PutUint32 x @ post) i) n = bit x n"
    by cases (use i in \<open>auto simp: Uint32_def PutUint32_def nth_append bit_simps\<close>)
qed

lemma ntpTimeToTime_exact:
  "ntpTimeToTime sec frc = unixEpoch + (uint sec - ntpEpochOffset) * Second + uint frc * Second div 2 ^ 32"
  by (simp add: ntpTimeToTime_def Unix_def drop_bit_eq_div)



section \<open>Offset and delay\<close>

lemma sdiv_two: "\<bar>2 * (x sdiv 2) - x\<bar> \<le> (1 :: int)"
proof (cases "0 \<le> x")
  case True
  then have "x sdiv 2 = x div 2" by (cases "x = 0") (simp_all add: signed_divide_int_def)
  then show ?thesis by linarith
next
  case False
  then have "x sdiv 2 = - (- x div 2)" by (simp add: signed_divide_int_def)
  then show ?thesis by linarith
qed

text \<open>
  What the check measures: when the request takes \<open>go\<close> to the server, the server
  answers after \<open>p\<close> with its clock ahead by \<open>ahead\<close>, and the answer takes \<open>ret\<close>, then the
  check succeeds with the round trip \<open>go + ret\<close> and an offset that differs from \<open>ahead\<close> by at most
  half the difference of the two delays (and half a nanosecond of rounding).
\<close>

theorem NTP_Run_offset:
  assumes "c_ntp cfg = Some n" and "ne_dial env (n_server n @ '':'' @ itoa (n_port n)) = None"
    and "ne_write env requestPacket = None" and "ne_read env = NtpRead resp" and "48 \<le> length resp"
    and "pkt = parsePacket resp" and "drop_bit 6 (np_li_vn_mode pkt) \<noteq> 3" and "np_stratum pkt \<noteq> 0"
    and "ntpTimeToTime (np_rx_sec pkt) (np_rx_frac pkt) = ne_sent env + go + ahead"
    and "ntpTimeToTime (np_tx_sec pkt) (np_tx_frac pkt) = ne_sent env + go + ahead + p"
    and "ne_received env = ne_sent env + go + p + ret"
    and "\<bar>go\<bar> < 2 ^ 60" and "\<bar>ret\<bar> < 2 ^ 60" and "\<bar>p\<bar> < 2 ^ 60" and "\<bar>ahead\<bar> < 2 ^ 60"
    and "r = NTP_Run env now cfg og"
  shows "r_success r \<and> r_ntp_stratum r = uint (np_stratum pkt) \<and> r_ntp_rtt r = go + ret
    \<and> 2 * \<bar>r_ntp_offset_ms r * 1000000 - of_int ahead\<bar> \<le> of_int (\<bar>go - ret\<bar> + 1)"
proof -
  define off where "off = ntpOffset (ne_sent env) (ne_sent env + go + ahead) (ne_sent env + go + ahead + p) (ne_received env)"
  have r: "r = (let r0 = (NewResult now (c_name cfg) CheckTypeNTP og) \<lparr> r_duration := time_sub (ne_received env) (ne_sent env) \<rparr>
    in r0 \<lparr> r_ntp_offset_ms := of_int off / 1000000, r_ntp_stratum := uint (np_stratum pkt),
            r_ntp_rtt := ntpDelay (ne_sent env) (ne_sent env + go + ahead) (ne_sent env + go + ahead + p) (ne_received env),
            r_success := True \<rparr>)"
    using assms(1-10,16) by (simp add: NTP_Run_def judgeNTP_def off_def Let_def)
  have "ntpDelay (ne_sent env) (ne_sent env + go + ahead) (ne_sent env + go + ahead + p) (ne_received env) = go + ret"
    using assms(11-15) by (simp add: ntpDelay_def time_sub_exact wrap64_id)
  moreover have "\<bar>2 * off - (2 * ahead + go - ret)\<bar> \<le> 1"
  proof -
    have "off = (2 * ahead + go - ret) sdiv 2"
      using assms(11-15) unfolding off_def ntpOffset_def
      by (simp add: time_sub_exact wrap64_id algebra_simps)
    then show ?thesis using sdiv_two [of "2 * ahead + go - ret"] by simp
  qed
  then have "2 * \<bar>off - ahead\<bar> \<le> \<bar>go - ret\<bar> + 1" by arith
  then have "2 * \<bar>of_int off - of_int ahead\<bar> \<le> (of_int (\<bar>go - ret\<bar> + 1) :: rat)"
    using of_int_le_iff [of "2 * \<bar>off - ahead\<bar>" "\<bar>go - ret\<bar> + 1", where 'a = rat] by simp
  ultimately show ?thesis by (simp add: r Let_def)
qed

text \<open>
  The seconds field is read as the first era: a server's time from 2036 on, whose field has wrapped
  around, is taken for one \<open>2 ^ 32\<close> seconds earlier.
\<close>

lemma ntp_era_wraps:
  assumes "2 ^ 32 \<le> s" and "s < 2 ^ 33"
  shows "ntpTimeToTime (word_of_int s) 0 = Unix (s - ntpEpochOffset - 2 ^ 32) 0"
proof -
  have "uint (word_of_int s :: 32 word) = s - 2 ^ 32"
    using assms mod_pos_pos_trivial [of "s - 2 ^ 32" "2 ^ 32"] by (simp add: uint_word_of_int)
  then show ?thesis by (simp add: ntpTimeToTime_exact Unix_def algebra_simps)
qed

definition sample_ntp :: CheckConfig where
  "sample_ntp = (emptyCheck zeroYAML) \<lparr> c_name := ''time'', c_type := CheckTypeNTP,
     c_ntp := Some \<lparr> n_server = ''pool.ntp.org'', n_port = 123 \<rparr> \<rparr>"

definition sample_ntp_resp :: "8 word list" where
  "sample_ntp_resp = [0x24, 2] @ replicate 30 0 @ PutUint32 0x83AA7E80 @ PutUint32 0 @ PutUint32 0x83AA7E81 @ PutUint32 0"

definition sample_ntp_env :: ntp_env where
  "sample_ntp_env = \<lparr> ne_dial = (\<lambda>_. None), ne_write = (\<lambda>_. None), ne_read = NtpRead sample_ntp_resp,
     ne_sent = unixEpoch - 3 * Second, ne_received = unixEpoch, ne_elapsed = 0 \<rparr>"

lemma sample_ntp_packet:
  "np_li_vn_mode (parsePacket sample_ntp_resp) = 0x24" "np_stratum (parsePacket sample_ntp_resp) = 2"
  "np_rx_sec (parsePacket sample_ntp_resp) = 0x83AA7E80" "np_rx_frac (parsePacket sample_ntp_resp) = 0"
  "np_tx_sec (parsePacket sample_ntp_resp) = 0x83AA7E81" "np_tx_frac (parsePacket sample_ntp_resp) = 0"
  using Uint32_PutUint32 [of "[0x24, 2] @ replicate 30 0" 32 "0x83AA7E80"]
    Uint32_PutUint32 [of "[0x24, 2] @ replicate 30 0 @ PutUint32 0x83AA7E80" 36 0]
    Uint32_PutUint32 [of "[0x24, 2] @ replicate 30 0 @ PutUint32 0x83AA7E80 @ PutUint32 0" 40 "0x83AA7E81"]
    Uint32_PutUint32 [of "[0x24, 2] @ replicate 30 0 @ PutUint32 0x83AA7E80 @ PutUint32 0 @ PutUint32 0x83AA7E81" 44 0 "[]"]
  by (simp_all add: parsePacket_def sample_ntp_resp_def)

theorem NTP_Run_offset_witness:
  "r_success (NTP_Run sample_ntp_env 1 sample_ntp None) \<and> r_ntp_rtt (NTP_Run sample_ntp_env 1 sample_ntp None) = 2 * Second"
proof -
  have "c_ntp sample_ntp = Some \<lparr> n_server = ''pool.ntp.org'', n_port = 123 \<rparr>" by (simp add: sample_ntp_def)
  moreover have "drop_bit 6 (0x24 :: 8 word) \<noteq> 3" "length sample_ntp_resp = 48"
    by (simp_all add: sample_ntp_resp_def PutUint32_def)
  ultimately show ?thesis
    using NTP_Run_offset [where cfg = sample_ntp and env = sample_ntp_env and resp = sample_ntp_resp
        and pkt = "parsePacket sample_ntp_resp" and go = Second and ahead = "2 * Second" and p = Second and ret = Second
        and now = 1 and og = None and r = "NTP_Run sample_ntp_env 1 sample_ntp None"]
    by (simp add: sample_ntp_env_def sample_ntp_packet ntpTimeToTime_exact ntpEpochOffset_def)
qed

lemma judgeNTP_frame [simp]:
  "r_name (judgeNTP ta td pkt r) = r_name r" "r_type (judgeNTP ta td pkt r) = r_type r"
  "r_timestamp (judgeNTP ta td pkt r) = r_timestamp r" "r_retries (judgeNTP ta td pkt r) = r_retries r"
  "r_degraded (judgeNTP ta td pkt r) = r_degraded r" "r_infra_error (judgeNTP ta td pkt r) = r_infra_error r"
  "\<not> r_success (judgeNTP ta td pkt r) \<Longrightarrow> r_error (judgeNTP ta td pkt r) \<noteq> ''''"
  by (auto simp: judgeNTP_def Let_def split: if_splits)

lemma NTP_Run_contract:
  "r_name (NTP_Run e now cfg og) = c_name cfg \<and> r_type (NTP_Run e now cfg og) = CheckTypeNTP
   \<and> r_timestamp (NTP_Run e now cfg og) = now \<and> r_retries (NTP_Run e now cfg og) = 0
   \<and> \<not> r_degraded (NTP_Run e now cfg og) \<and> \<not> r_infra_error (NTP_Run e now cfg og)
   \<and> (r_success (NTP_Run e now cfg og) \<or> r_error (NTP_Run e now cfg og) \<noteq> '''')"
  using judgeNTP_frame(7) by (auto simp: NTP_Run_def Let_def split: option.split ntp_read.split)

interpretation ntp: explained_checker CheckTypeNTP NTP_Run
  using NTP_Run_contract by unfold_locales blast+

end
