(* ===== verification/Check_DNS.thy ===== *)
theory Check_DNS
  imports Check_Contract
begin

text \<open>
  The DNS checker, \<open>internal/check/dns.go\<close>: the cache of resolvers, the query of each record type,
  the SOA query with its default server, and the comparison with the expected values. A resolver is
  the server it dials; what \<open>net.Resolver\<close>, \<open>net.ParseIP\<close> and the DNS client library answer are
  arguments.
\<close>

section \<open>Queries\<close>

type_synonym resolver = string
type_synonym resolvers = "string \<Rightarrow> resolver option"

datatype dns_rr =
    SOA string string int int int int int
  | OtherRR

datatype soa_reply =
    ExchangeFailed string
  | SoaReply int "dns_rr list" "dns_rr list"

record dns_env =
  dn_host :: "resolver \<Rightarrow> string \<Rightarrow> string + string list"
  dn_mx :: "resolver \<Rightarrow> string \<Rightarrow> string + (int \<times> string) list"
  dn_txt :: "resolver \<Rightarrow> string \<Rightarrow> string + string list"
  dn_cname :: "resolver \<Rightarrow> string \<Rightarrow> string + string"
  dn_ns :: "resolver \<Rightarrow> string \<Rightarrow> string + string list"
  dn_srv :: "resolver \<Rightarrow> string \<Rightarrow> string + (int \<times> int \<times> int \<times> string) list"
  dn_exchange :: "string \<Rightarrow> string \<Rightarrow> soa_reply"
  dn_rcode :: "int \<Rightarrow> string"
  dn_parse_ip :: "string \<Rightarrow> bool"
  dn_elapsed :: duration

definition getResolver :: "string \<Rightarrow> resolvers \<Rightarrow> resolver \<times> resolvers" where
  "getResolver server resolvers =
     (case resolvers server of
        Some r \<Rightarrow> (r, resolvers)
      | None \<Rightarrow> (server, resolvers(server \<mapsto> server)))"

fun soaLoop :: "dns_rr list \<Rightarrow> string list" where
  "soaLoop [] = []"
| "soaLoop (SOA ns mbox serial refresh retry expire minttl # rrs) =
     (ns @ '' '' @ mbox @ '' '' @ itoa serial @ '' '' @ itoa refresh @ '' '' @ itoa retry @ '' '' @ itoa expire
      @ '' '' @ itoa minttl) # soaLoop rrs"
| "soaLoop (OtherRR # rrs) = soaLoop rrs"

definition soaServer :: "string \<Rightarrow> string" where
  "soaServer server =
     (let server1 = (if server = '''' then ''8.8.8.8:53'' else server)
      in if SplitHostPort server1 = None then JoinHostPort server1 ''53'' else server1)"

definition querySOA :: "dns_env \<Rightarrow> string \<Rightarrow> string \<Rightarrow> string + string list" where
  "querySOA env server domain =
     (case dn_exchange env (soaServer server) domain of
        ExchangeFailed err \<Rightarrow> Inl err
      | SoaReply rcode answer ns \<Rightarrow>
          if rcode \<noteq> 0 then Inl (''SOA query returned '' @ dn_rcode env rcode)
          else (let answers = soaLoop (answer @ ns)
                in if length answers = 0 then Inl (''no SOA record found for '' @ domain) else Inr answers))"

text \<open>The \<open>switch\<close> over the record type; \<open>None\<close> is its default.\<close>

definition lookup :: "dns_env \<Rightarrow> resolver \<Rightarrow> string \<Rightarrow> string \<Rightarrow> string \<Rightarrow> (string + string list) option" where
  "lookup env resolver server recordType domain =
     (if recordType = ''A'' then
        Some (map_sum id (filter (\<lambda>a. dn_parse_ip env a \<and> Contains a ''.'')) (dn_host env resolver domain))
      else if recordType = ''AAAA'' then
        Some (map_sum id (filter (\<lambda>a. dn_parse_ip env a \<and> Contains a '':'')) (dn_host env resolver domain))
      else if recordType = ''MX'' then
        Some (map_sum id (map (\<lambda>(pref, host). itoa pref @ '' '' @ host)) (dn_mx env resolver domain))
      else if recordType = ''TXT'' then Some (dn_txt env resolver domain)
      else if recordType = ''CNAME'' then Some (map_sum id (\<lambda>cname. [cname]) (dn_cname env resolver domain))
      else if recordType = ''NS'' then Some (dn_ns env resolver domain)
      else if recordType = ''SRV'' then
        Some (map_sum id (map (\<lambda>(prio, weight, port, target). itoa prio @ '' '' @ itoa weight @ '' '' @ itoa port @ '' '' @ target))
          (dn_srv env resolver domain))
      else if recordType = ''SOA'' then Some (querySOA env server domain)
      else None)"

section \<open>A run\<close>

fun missingLoop :: "string list \<Rightarrow> string list \<Rightarrow> string list" where
  "missingLoop answers [] = []"
| "missingLoop answers (e # es) = (if e \<notin> set answers then e # missingLoop answers es else missingLoop answers es)"

definition judgeAnswers :: "DNSCheckConfig \<Rightarrow> string list \<Rightarrow> Result \<Rightarrow> Result" where
  "judgeAnswers d answers r0 =
     (let r = r0 \<lparr> r_dns_answers := answers \<rparr>;
          missing = (if length (d_expected d) > 0 then missingLoop answers (d_expected d) else [])
      in if length missing > 0
         then r \<lparr> r_error := ''expected values not found in answers: '' @ Join missing '', '' \<rparr>
         else r \<lparr> r_success := True \<rparr>)"

definition DNS_Run ::
  "dns_env \<Rightarrow> gotime \<Rightarrow> CheckConfig \<Rightarrow> Origin option \<Rightarrow> resolvers \<Rightarrow> Result \<times> resolvers"
where
  "DNS_Run env now cfg origin resolvers =
     (let result = NewResult now (c_name cfg) CheckTypeDNS origin
      in case c_dns cfg of
           None \<Rightarrow> (result \<lparr> r_error := ''missing DNS check configuration'' \<rparr>, resolvers)
         | Some d \<Rightarrow>
             (case getResolver (d_server d) resolvers of
                (resolver, resolvers') \<Rightarrow>
                  (let recordType = ToUpper (d_record_type d); r1 = result \<lparr> r_duration := dn_elapsed env \<rparr>
                   in (case lookup env resolver (d_server d) recordType (d_domain d) of
                         None \<Rightarrow> r1 \<lparr> r_error := ''unsupported record type: '' @ recordType \<rparr>
                       | Some reply \<Rightarrow>
                           (let r2 = r1 \<lparr> r_dns_query_time := dn_elapsed env \<rparr>
                            in case reply of
                                 Inl err \<Rightarrow> r2 \<lparr> r_error := ''DNS query failed for '' @ recordType @ '' '' @ d_domain d @ '': '' @ err \<rparr>
                               | Inr answers \<Rightarrow> judgeAnswers d answers r2), resolvers'))))"

section \<open>The verdict\<close>

lemma missingLoop_filter: "missingLoop answers es = filter (\<lambda>e. e \<notin> set answers) es"
  by (induction es) auto

lemma judgeAnswers_sel:
  "r_success (judgeAnswers d answers r) \<longleftrightarrow> set (d_expected d) \<subseteq> set answers \<or> r_success r"
  "\<not> set (d_expected d) \<subseteq> set answers \<Longrightarrow> r_error (judgeAnswers d answers r) =
     ''expected values not found in answers: '' @ Join (filter (\<lambda>e. e \<notin> set answers) (d_expected d)) '', ''"
  "r_dns_answers (judgeAnswers d answers r) = answers"
  "r_name (judgeAnswers d answers r) = r_name r" "r_type (judgeAnswers d answers r) = r_type r"
  "r_timestamp (judgeAnswers d answers r) = r_timestamp r" "r_retries (judgeAnswers d answers r) = r_retries r"
  "r_degraded (judgeAnswers d answers r) = r_degraded r" "r_infra_error (judgeAnswers d answers r) = r_infra_error r"
  by (auto simp: judgeAnswers_def Let_def missingLoop_filter filter_empty_conv)

definition resolvers_ok :: "resolvers \<Rightarrow> bool" where
  "resolvers_ok rs \<longleftrightarrow> (\<forall>s r. rs s = Some r \<longrightarrow> r = s)"

lemma getResolver_direct:
  "resolvers_ok rs \<Longrightarrow> getResolver s rs = (r, rs') \<Longrightarrow> r = s \<and> resolvers_ok rs'"
  by (auto simp: getResolver_def resolvers_ok_def split: option.splits if_splits)


definition sample_dns :: CheckConfig where
  "sample_dns = (emptyCheck zeroYAML) \<lparr> c_name := ''dns'', c_type := CheckTypeDNS,
     c_dns := Some \<lparr> d_domain = ''example.org'', d_server = ''9.9.9.9:53'', d_record_type = ''a'', d_expected = [''192.0.2.1''] \<rparr> \<rparr>"

definition sample_dns_env :: dns_env where
  "sample_dns_env = \<lparr> dn_host = (\<lambda>_ _. Inr [''192.0.2.1'', ''2001:db8::1'']), dn_mx = (\<lambda>_ _. Inl ''none''),
     dn_txt = (\<lambda>_ _. Inl ''none''), dn_cname = (\<lambda>_ _. Inl ''none''), dn_ns = (\<lambda>_ _. Inl ''none''),
     dn_srv = (\<lambda>_ _. Inl ''none''), dn_exchange = (\<lambda>_ _. ExchangeFailed ''none''), dn_rcode = (\<lambda>_. ''''),
     dn_parse_ip = (\<lambda>_. True), dn_elapsed = 5 \<rparr>"


text \<open>The SOA answers are the SOA records of both sections in order, of which there is at least one.\<close>

lemma querySOA_answers:
  "querySOA env server domain = Inr answers \<Longrightarrow> answers \<noteq> []
     \<and> (\<exists>answer ns. dn_exchange env (soaServer server) domain = SoaReply 0 answer ns
          \<and> length answers = length (filter (\<lambda>rr. rr \<noteq> OtherRR) (answer @ ns)))"
proof -
  have "length (soaLoop rrs) = length (filter (\<lambda>rr. rr \<noteq> OtherRR) rrs)" for rrs
    by (induction rrs rule: soaLoop.induct) auto
  then show "querySOA env server domain = Inr answers \<Longrightarrow> ?thesis"
    by (auto simp: querySOA_def Let_def split: soa_reply.splits if_splits)
qed

lemma soaServer_port:
  "SplitHostPort (soaServer server) \<noteq> None \<or> CHR '':'' \<in> set server \<or> CHR ''['' \<in> set server \<or> CHR '']'' \<in> set server"
proof (cases "server = ''''")
  case True
  have "SplitHostPort ''8.8.8.8:53'' \<noteq> None" using SplitHostPort_plain [of "''8.8.8.8''" "''53''"] by simp
  with True show ?thesis by (auto simp: soaServer_def Let_def)
next
  case False
  then show ?thesis
    using SplitHostPort_plain [of server "''53''"] by (auto simp: soaServer_def JoinHostPort_def Let_def)
qed

section \<open>The contract\<close>

definition dns_probe :: "dns_env \<times> resolvers \<Rightarrow> gotime \<Rightarrow> CheckConfig \<Rightarrow> Origin option \<Rightarrow> Result" where
  "dns_probe e now cfg og = fst (DNS_Run (fst e) now cfg og (snd e))"

lemma judgeAnswers_explained:
  "r_error r = '''' \<Longrightarrow> r_error (judgeAnswers d answers r) = '''' \<longleftrightarrow> set (d_expected d) \<subseteq> set answers"
  by (auto simp: judgeAnswers_def Let_def missingLoop_filter filter_empty_conv)

lemma dns_probe_contract:
  "r_name (dns_probe e now cfg og) = c_name cfg \<and> r_type (dns_probe e now cfg og) = CheckTypeDNS
   \<and> r_timestamp (dns_probe e now cfg og) = now \<and> r_retries (dns_probe e now cfg og) = 0
   \<and> \<not> r_degraded (dns_probe e now cfg og) \<and> \<not> r_infra_error (dns_probe e now cfg og)
   \<and> (r_success (dns_probe e now cfg og) \<or> r_error (dns_probe e now cfg og) \<noteq> '''')"
  by (auto simp: dns_probe_def DNS_Run_def Let_def judgeAnswers_sel judgeAnswers_explained split: option.split sum.split prod.split)

interpretation dns: explained_checker CheckTypeDNS dns_probe
  using dns_probe_contract by unfold_locales blast+

end
