(* ===== verification/Check_Sockets.thy ===== *)
theory Check_Sockets
  imports Check_Contract
begin

text \<open>
  The checkers that hold a dialogue over one connection: TCP, UDP, SMTP, gRPC and WebSocket
  (\<open>internal/check/tcp.go\<close>, \<open>udp.go\<close>, \<open>smtp.go\<close>, \<open>grpc.go\<close>, \<open>websocket.go\<close>). Each step of the
  dialogue is an argument that returns \<open>None\<close> or the text of its error, the reads of a connection
  are the list of what they return before the deadline. A run records one duration, at the point
  where it ends.
\<close>

section \<open>TCP\<close>

datatype read_error = EOF | ReadError string

record tcp_env =
  tc_dial :: "string \<Rightarrow> string \<Rightarrow> string option"
  tc_handshake :: "string \<Rightarrow> nat \<Rightarrow> nat \<Rightarrow> string option"
  tc_write :: "string \<Rightarrow> string option"
  tc_reads :: "(string \<times> read_error option) list"
  tc_deadline_error :: string
  tc_conn_time :: duration
  tc_tls_time :: duration
  tc_before_read :: duration
  tc_total :: duration

definition ipFamily :: "string \<Rightarrow> string \<Rightarrow> string" where
  "ipFamily base v = (if v = ''4'' then base @ ''4'' else if v = ''6'' then base @ ''6'' else base)"

definition maxRecvSize :: nat where
  "maxRecvSize = 1048576"

datatype received = Received string | TooLong | ReadingFailed string

text \<open>One iteration of the loop of lines 109 to 130, after the read; \<open>None\<close> is its next iteration.\<close>

definition afterRead :: "string \<Rightarrow> string \<Rightarrow> read_error option \<Rightarrow> received option" where
  "afterRead expect received err =
     (if Contains received expect then Some (Received received)
      else if length received > maxRecvSize then Some TooLong
      else (case err of
              None \<Rightarrow> None
            | Some EOF \<Rightarrow> Some (Received received)
            | Some (ReadError e) \<Rightarrow> Some (ReadingFailed e)))"

fun recvLoop :: "string \<Rightarrow> string \<Rightarrow> (string \<times> read_error option) list \<Rightarrow> string \<Rightarrow> received" where
  "recvLoop timeout_error expect [] received =
     (case afterRead expect received (Some (ReadError timeout_error)) of Some r \<Rightarrow> r | None \<Rightarrow> ReadingFailed timeout_error)"
| "recvLoop timeout_error expect ((data, err) # reads) received =
     (case afterRead expect (received @ data) err of
        Some r \<Rightarrow> r
      | None \<Rightarrow> recvLoop timeout_error expect reads (received @ data))"

definition default_timeout :: "duration \<Rightarrow> CheckConfig \<Rightarrow> duration" where
  "default_timeout d cfg = (if c_timeout cfg = 0 then d else c_timeout cfg)"

definition host_port :: "string \<Rightarrow> int \<Rightarrow> string" where
  "host_port host port = host @ '':'' @ itoa port"

definition tcpReceive :: "(string \<Rightarrow> string) \<Rightarrow> tcp_env \<Rightarrow> duration \<Rightarrow> TCPCheckConfig \<Rightarrow> Result \<Rightarrow> Result" where
  "tcpReceive uni env timeout t r =
     (let addr = host_port (t_host t) (t_port t); ok = r \<lparr> r_success := True \<rparr>
      in if t_expect_recv t = '''' then ok
         else if timeout - tc_before_read env \<le> 0
         then r \<lparr> r_error := ''timeout exceeded before reading from '' @ addr \<rparr>
         else (case recvLoop (tc_deadline_error env) (t_expect_recv t) (tc_reads env) '''' of
                 TooLong \<Rightarrow> r \<lparr> r_error := ''response from '' @ addr @ '' exceeded '' @ itoa (int maxRecvSize)
                                 @ '' bytes without matching expected string'' \<rparr>
               | ReadingFailed e \<Rightarrow> r \<lparr> r_error := ''reading from '' @ addr @ '': '' @ e \<rparr>
               | Received data \<Rightarrow>
                   if \<not> Contains data (t_expect_recv t)
                   then r \<lparr> r_error := ''expected '' @ Quote uni (t_expect_recv t) @ '' in response from '' @ addr
                              @ '', got '' @ Quote uni data \<rparr>
                   else ok))"

definition TCP_Run :: "(string \<Rightarrow> string) \<times> tcp_env \<Rightarrow> gotime \<Rightarrow> CheckConfig \<Rightarrow> Origin option \<Rightarrow> Result" where
  "TCP_Run ue now cfg origin =
     (let (uni, env) = ue; result = NewResult now (c_name cfg) CheckTypeTCP origin
      in case c_tcp cfg of
           None \<Rightarrow> result \<lparr> r_error := ''missing TCP check configuration'' \<rparr>
         | Some t \<Rightarrow>
             (let addr = host_port (t_host t) (t_port t); r = result \<lparr> r_duration := tc_total env \<rparr>
              in case tc_dial env (ipFamily ''tcp'' (t_ip_version t)) addr of
                   Some err \<Rightarrow> r \<lparr> r_error := ''connecting to '' @ addr @ '': '' @ err \<rparr>
                 | None \<Rightarrow>
                     (let r1 = r \<lparr> r_tcp_conn_duration := tc_conn_time env \<rparr>;
                          r2 = (if t_tls t then r1 \<lparr> r_tcp_tls_duration := tc_tls_time env \<rparr> else r1);
                          version = (\<lambda>v. case TLSVersion v of Some n \<Rightarrow> n | None \<Rightarrow> 0)
                      in case (if t_tls t then tc_handshake env (t_host t) (version (t_min_tls t)) (version (t_max_tls t)) else None) of
                           Some err \<Rightarrow> r2 \<lparr> r_error := ''TLS handshake with '' @ addr @ '': '' @ err \<rparr>
                         | None \<Rightarrow>
                             (case (if t_send t \<noteq> '''' then tc_write env (t_send t) else None) of
                                Some err \<Rightarrow> r2 \<lparr> r_error := ''sending data to '' @ addr @ '': '' @ err \<rparr>
                              | None \<Rightarrow> tcpReceive uni env (default_timeout (30 * Second) cfg) t r2))))"

section \<open>UDP\<close>

datatype udp_read = UdpTimeout | UdpFailed string | UdpRead string

record udp_env =
  ue_dial :: "string \<Rightarrow> string \<Rightarrow> string option"
  ue_write :: "string \<Rightarrow> string option"
  ue_read :: "nat \<Rightarrow> udp_read"
  ue_rtt :: duration
  ue_total :: duration

definition udpPayload :: "UDPCheckConfig \<Rightarrow> string + string" where
  "udpPayload u =
     (if ud_send_hex u \<noteq> '''' then
        (case DecodeString (ud_send_hex u) of
           Inl e \<Rightarrow> Inl (''invalid send_hex: '' @ hex_error_text e)
         | Inr payload \<Rightarrow> Inr payload)
      else if ud_send u \<noteq> '''' then Inr (ud_send u)
      else Inl ''either send or send_hex must be specified'')"

text \<open>
  From the read on, lines 109 to 158. A negative buffer size makes the allocation panic, which is
  \<open>None\<close>; a datagram longer than the buffer is cut.
\<close>

definition udpReceive :: "(string \<Rightarrow> string) \<Rightarrow> udp_env \<Rightarrow> UDPCheckConfig \<Rightarrow> bool \<Rightarrow> Result \<Rightarrow> Result option" where
  "udpReceive uni env u expectResponse r =
     (let addr = host_port (ud_host u) (ud_port u);
          maxBytes = (if ud_max_response_bytes u = 0 then 4096 else ud_max_response_bytes u)
      in if maxBytes < 0 then None
         else Some (case ue_read env (nat maxBytes) of
                      UdpTimeout \<Rightarrow>
                        if expectResponse then r \<lparr> r_error := ''timeout waiting for response from '' @ addr \<rparr>
                        else r \<lparr> r_success := True \<rparr>
                    | UdpFailed e \<Rightarrow> r \<lparr> r_error := ''reading from '' @ addr @ '': '' @ e \<rparr>
                    | UdpRead datagram \<Rightarrow>
                        (let data = take (nat maxBytes) datagram;
                             r1 = r \<lparr> r_udp_rtt := ue_rtt env, r_udp_response_bytes := int (length data) \<rparr>
                         in if ud_expect_recv u \<noteq> '''' \<and> \<not> Contains data (ud_expect_recv u)
                            then r1 \<lparr> r_error := ''expected '' @ Quote uni (ud_expect_recv u) @ '' in response from '' @ addr
                                       @ '', got '' @ Quote uni data \<rparr>
                            else r1 \<lparr> r_success := True \<rparr>)))"

definition UDP_Run :: "(string \<Rightarrow> string) \<times> udp_env \<Rightarrow> gotime \<Rightarrow> CheckConfig \<Rightarrow> Origin option \<Rightarrow> Result option" where
  "UDP_Run ue now cfg origin =
     (let (uni, env) = ue; result = NewResult now (c_name cfg) CheckTypeUDP origin
      in case c_udp cfg of
           None \<Rightarrow> Some (result \<lparr> r_error := ''missing UDP check configuration'' \<rparr>)
         | Some u \<Rightarrow>
             (case udpPayload u of
                Inl err \<Rightarrow> Some (result \<lparr> r_error := err \<rparr>)
              | Inr payload \<Rightarrow>
                  (let addr = host_port (ud_host u) (ud_port u); r = result \<lparr> r_duration := ue_total env \<rparr>
                   in case ue_dial env (ipFamily ''udp'' (ud_ip_version u)) addr of
                        Some err \<Rightarrow> Some (r \<lparr> r_error := ''UDP dial to '' @ addr @ '': '' @ err \<rparr>)
                      | None \<Rightarrow>
                          (case ue_write env payload of
                             Some err \<Rightarrow> Some (r \<lparr> r_error := ''sending to '' @ addr @ '': '' @ err \<rparr>)
                           | None \<Rightarrow>
                               (let expectResponse = (case ud_expect_response u of Some b \<Rightarrow> b | None \<Rightarrow> True)
                                in if \<not> expectResponse \<and> ud_expect_recv u = '''' then Some (r \<lparr> r_success := True \<rparr>)
                                   else udpReceive uni env u expectResponse r)))))"

section \<open>SMTP\<close>

record smtp_env =
  sm_dial :: "string \<Rightarrow> string option"
  sm_client :: "string option"
  sm_hello :: "string \<Rightarrow> string option"
  sm_starttls_advertised :: bool
  sm_starttls :: "string \<Rightarrow> bool \<Rightarrow> string option"
  sm_auth :: "string \<Rightarrow> string \<Rightarrow> string option"
  sm_total :: duration

definition SMTP_Run :: "smtp_env \<Rightarrow> gotime \<Rightarrow> CheckConfig \<Rightarrow> Origin option \<Rightarrow> Result" where
  "SMTP_Run env now cfg origin =
     (let result = NewResult now (c_name cfg) CheckTypeSMTP origin
      in case c_smtp cfg of
           None \<Rightarrow> result \<lparr> r_error := ''missing SMTP check configuration'' \<rparr>
         | Some s \<Rightarrow>
             (let addr = host_port (s_host s) (s_port s); r = result \<lparr> r_duration := sm_total env \<rparr>;
                  fail = (\<lambda>msg. r \<lparr> r_error := msg \<rparr>)
              in case sm_dial env addr of
                   Some err \<Rightarrow> fail (''connecting to '' @ addr @ '': '' @ err)
                 | None \<Rightarrow>
                     (case sm_client env of
                        Some err \<Rightarrow> fail (''creating SMTP client: '' @ err)
                      | None \<Rightarrow>
                          (case sm_hello env ''technician.local'' of
                             Some err \<Rightarrow> fail (''EHLO failed: '' @ err)
                           | None \<Rightarrow>
                               if s_start_tls s \<and> \<not> sm_starttls_advertised env
                               then fail (''server '' @ addr @ '' does not advertise STARTTLS'')
                               else
                                 (case (if s_start_tls s then sm_starttls env (s_host s) (s_skip_tls s) else None) of
                                    Some err \<Rightarrow> fail (''STARTTLS negotiation with '' @ addr @ '' failed: '' @ err)
                                  | None \<Rightarrow>
                                      (case (if s_username s \<noteq> '''' then sm_auth env (s_username s) (s_password s) else None) of
                                         Some err \<Rightarrow> fail (''SMTP authentication to '' @ addr @ '' failed: '' @ err)
                                       | None \<Rightarrow> r \<lparr> r_success := True \<rparr>))))))"

section \<open>gRPC\<close>

record grpcConnKey =
  gk_host :: string
  gk_tls :: bool
  gk_skip_tls :: bool

datatype grpc_creds = Insecure | SkipVerify | Verified

type_synonym grpc_conn = "string \<times> grpc_creds"
type_synonym grpc_conns = "grpcConnKey \<Rightarrow> grpc_conn option"

text \<open>\<open>gr_status_text\<close> is the name of a serving status, of which 1 is \<open>SERVING\<close>.\<close>

record grpc_env =
  gr_new_client :: "grpc_conn \<Rightarrow> string option"
  gr_check :: "grpc_conn \<Rightarrow> string \<Rightarrow> string + int"
  gr_status_text :: "int \<Rightarrow> string"
  gr_total :: duration

definition grpcCreds :: "bool \<Rightarrow> bool \<Rightarrow> grpc_creds" where
  "grpcCreds useTLS skipTLS = (if \<not> useTLS then Insecure else if skipTLS then SkipVerify else Verified)"

definition getConn :: "grpc_env \<Rightarrow> string \<Rightarrow> bool \<Rightarrow> bool \<Rightarrow> grpc_conns \<Rightarrow> (string + grpc_conn) \<times> grpc_conns" where
  "getConn env host useTLS skipTLS conns =
     (let key = \<lparr> gk_host = host, gk_tls = useTLS, gk_skip_tls = skipTLS \<rparr>
      in case conns key of
           Some c \<Rightarrow> (Inr c, conns)
         | None \<Rightarrow>
             (let conn = (host, grpcCreds useTLS skipTLS)
              in case gr_new_client env conn of
                   Some err \<Rightarrow> (Inl err, conns)
                 | None \<Rightarrow> (Inr conn, conns(key \<mapsto> conn))))"

definition GRPC_Run :: "grpc_env \<Rightarrow> gotime \<Rightarrow> CheckConfig \<Rightarrow> Origin option \<Rightarrow> grpc_conns \<Rightarrow> Result \<times> grpc_conns" where
  "GRPC_Run env now cfg origin conns =
     (let result = NewResult now (c_name cfg) CheckTypeGRPC origin
      in case c_grpc cfg of
           None \<Rightarrow> (result \<lparr> r_error := ''missing gRPC check configuration'' \<rparr>, conns)
         | Some g \<Rightarrow>
             (case getConn env (g_host g) (g_tls g) (g_skip_tls g) conns of
                (reply, conns') \<Rightarrow>
                  (let r = result \<lparr> r_duration := gr_total env \<rparr>
                   in (case reply of
                         Inl err \<Rightarrow> r \<lparr> r_error := ''creating gRPC client for '' @ g_host g @ '': '' @ err \<rparr>
                       | Inr conn \<Rightarrow>
                           (case gr_check env conn (g_service g) of
                              Inl err \<Rightarrow> r \<lparr> r_error := ''gRPC health check on '' @ g_host g @ '': '' @ err \<rparr>
                            | Inr st \<Rightarrow> r \<lparr> r_grpc_status := gr_status_text env st, r_success := (st = 1) \<rparr>), conns'))))"

section \<open>WebSocket\<close>

datatype ws_dial = WsCancelled string | WsFailed string | WsConnected

record ws_env =
  we_url_error :: string
  we_config :: "string \<Rightarrow> string \<Rightarrow> string option"
  we_dial :: "(string, string) gomap \<Rightarrow> bool \<Rightarrow> ws_dial"
  we_send :: "string \<Rightarrow> string option"
  we_receive :: "string + string"
  we_connect_time :: duration
  we_message_time :: duration
  we_total :: duration

definition wsOrigin :: "url \<Rightarrow> string" where
  "wsOrigin u = (if u_scheme u = ''wss'' then ''https'' else ''http'') @ ''://'' @ u_host u"

definition wsDialogue :: "(string \<Rightarrow> string) \<Rightarrow> ws_env \<Rightarrow> WebSocketCheckConfig \<Rightarrow> Result \<Rightarrow> Result" where
  "wsDialogue uni env w r =
     (if ws_send w = '''' then r \<lparr> r_success := True \<rparr>
      else (case we_send env (ws_send w) of
              Some err \<Rightarrow> r \<lparr> r_error := ''sending to '' @ ws_url w @ '': '' @ err \<rparr>
            | None \<Rightarrow>
                (let r1 = r \<lparr> r_ws_message_duration := we_message_time env \<rparr>
                 in if ws_expect_recv w = '''' then r1 \<lparr> r_success := True \<rparr>
                    else (case we_receive env of
                            Inl err \<Rightarrow> r1 \<lparr> r_error := ''reading from '' @ ws_url w @ '': '' @ err \<rparr>
                          | Inr reply \<Rightarrow>
                              if \<not> Contains reply (ws_expect_recv w)
                              then r1 \<lparr> r_error := ''expected '' @ Quote uni (ws_expect_recv w) @ '' in response from '' @ ws_url w
                                          @ '', got '' @ Quote uni reply \<rparr>
                              else r1 \<lparr> r_success := True \<rparr>))))"

definition WebSocket_Run ::
  "golib \<times> (string \<Rightarrow> string) \<times> ws_env \<Rightarrow> gotime \<Rightarrow> CheckConfig \<Rightarrow> Origin option \<Rightarrow> Result"
where
  "WebSocket_Run e now cfg origin =
     (let (lib, uni, env) = e; result = NewResult now (c_name cfg) CheckTypeWebSocket origin
      in case c_websocket cfg of
           None \<Rightarrow> result \<lparr> r_error := ''missing WebSocket check configuration'' \<rparr>
         | Some w \<Rightarrow>
             (case url_parse lib (ws_url w) of
                None \<Rightarrow> result \<lparr> r_error := ''invalid WebSocket URL '' @ Quote uni (ws_url w) @ '': '' @ we_url_error env \<rparr>
              | Some u \<Rightarrow>
                  (case we_config env (ws_url w) (wsOrigin u) of
                     Some err \<Rightarrow> result \<lparr> r_error := ''building WebSocket config: '' @ err \<rparr>
                   | None \<Rightarrow>
                       (let r = result \<lparr> r_duration := we_total env \<rparr>
                        in case we_dial env (ws_headers w) (ws_skip_tls w) of
                             WsCancelled err \<Rightarrow> r \<lparr> r_error := ''connecting to '' @ ws_url w @ '': '' @ err \<rparr>
                           | WsFailed err \<Rightarrow> r \<lparr> r_ws_connect_duration := we_connect_time env,
                                                r_error := ''connecting to '' @ ws_url w @ '': '' @ err \<rparr>
                           | WsConnected \<Rightarrow> wsDialogue uni env w (r \<lparr> r_ws_connect_duration := we_connect_time env \<rparr>)))))"

section \<open>What was received\<close>

text \<open>
  The expected text arrives: it occurs in what some read completes, all reads before that returned
  without an error, and at no point before had more than a megabyte been received.
\<close>

definition arrives :: "string \<Rightarrow> string \<Rightarrow> (string \<times> read_error option) list \<Rightarrow> bool" where
  "arrives expect acc reads \<longleftrightarrow>
     (\<exists>pre d err post. reads = pre @ (d, err) # post \<and> sublist expect (acc @ concat (map fst pre) @ d)
       \<and> (\<forall>i<length pre. snd (pre ! i) = None \<and> length (acc @ concat (map fst (take (Suc i) pre))) \<le> maxRecvSize))"

lemma arrives_Cons:
  "arrives expect acc ((d, err) # reads) \<longleftrightarrow>
     sublist expect (acc @ d) \<or> err = None \<and> length (acc @ d) \<le> maxRecvSize \<and> arrives expect (acc @ d) reads"
proof
  assume "arrives expect acc ((d, err) # reads)"
  then obtain pre d' err' post where *: "(d, err) # reads = pre @ (d', err') # post"
    "sublist expect (acc @ concat (map fst pre) @ d')"
    "\<forall>i<length pre. snd (pre ! i) = None \<and> length (acc @ concat (map fst (take (Suc i) pre))) \<le> maxRecvSize"
    unfolding arrives_def by blast
  show "sublist expect (acc @ d) \<or> err = None \<and> length (acc @ d) \<le> maxRecvSize \<and> arrives expect (acc @ d) reads"
  proof (cases pre)
    case Nil
    with * show ?thesis by simp
  next
    case (Cons p pre')
    with * have p: "p = (d, err)" "reads = pre' @ (d', err') # post" by simp_all
    from *(3) have all: "(\<forall>i<Suc (length pre'). snd ((p # pre') ! i) = None \<and> length (acc @ concat (map fst (take (Suc i) (p # pre')))) \<le> maxRecvSize)"
      unfolding Cons by simp
    then have "err = None" "length (acc @ d) \<le> maxRecvSize" using p by (auto dest: spec [of _ 0])
    moreover have "arrives expect (acc @ d) reads"
      unfolding arrives_def
      using p *(2) Cons all by (intro exI [of _ pre'] exI [of _ d'] exI [of _ err'] exI [of _ post]) (auto dest: spec [of _ "Suc _"])
    ultimately show ?thesis by simp
  qed
next
  assume "sublist expect (acc @ d) \<or> err = None \<and> length (acc @ d) \<le> maxRecvSize \<and> arrives expect (acc @ d) reads"
  then consider "sublist expect (acc @ d)" | "err = None" "length (acc @ d) \<le> maxRecvSize" "arrives expect (acc @ d) reads" by blast
  then show "arrives expect acc ((d, err) # reads)"
  proof cases
    case 1
    then show ?thesis unfolding arrives_def
      by (intro exI [of _ "[]"] exI [of _ d] exI [of _ err] exI [of _ reads]) simp
  next
    case 2
    from 2(3) obtain pre d' err' post where "reads = pre @ (d', err') # post"
      "sublist expect ((acc @ d) @ concat (map fst pre) @ d')"
      "\<forall>i<length pre. snd (pre ! i) = None \<and> length ((acc @ d) @ concat (map fst (take (Suc i) pre))) \<le> maxRecvSize"
      unfolding arrives_def by blast
    with 2(1,2) show ?thesis
      unfolding arrives_def
      by (intro exI [of _ "(d, err) # pre"] exI [of _ d'] exI [of _ err'] exI [of _ post])
         (auto simp: nth_Cons split: nat.split)
  qed
qed

lemma recvLoop_arrives:
  assumes "\<not> sublist expect acc"
  shows "(\<exists>data. recvLoop te expect reads acc = Received data \<and> sublist expect data) \<longleftrightarrow> arrives expect acc reads"
  using assms
proof (induction reads arbitrary: acc)
  case Nil
  then show ?case by (auto simp: arrives_def afterRead_def Contains_iff)
next
  case (Cons p reads)
  obtain d err where p: "p = (d, err)" by (cases p)
  show ?case
  proof (cases "sublist expect (acc @ d)")
    case True
    then show ?thesis by (simp add: p arrives_Cons afterRead_def Contains_iff)
  next
    case False
    from Cons.IH [OF False] show ?thesis
      using False by (auto simp: p arrives_Cons afterRead_def Contains_iff split: option.split read_error.split)
  qed
qed

section \<open>Verdicts\<close>

text \<open>
  Property C35. The verdict of a TCP check: it succeeds exactly when the connection is made, the TLS
  handshake, if configured, with the configured versions, succeeds, the text to send, if any, is
  sent, and the expected text, if any, arrives within the time left and the first megabyte,
  however the answer is split into reads.
\<close>

theorem TCP_Run_verdict:
  assumes "c_tcp cfg = Some t" and "version = (\<lambda>v. case TLSVersion v of Some n \<Rightarrow> n | None \<Rightarrow> 0)"
    and "r = TCP_Run (uni, env) now cfg og"
  shows "\<not> r_infra_error r \<and> (r_success r \<or> r_error r \<noteq> '''')
    \<and> (r_success r \<longleftrightarrow>
        tc_dial env (ipFamily ''tcp'' (t_ip_version t)) (host_port (t_host t) (t_port t)) = None
        \<and> (t_tls t \<longrightarrow> tc_handshake env (t_host t) (version (t_min_tls t)) (version (t_max_tls t)) = None)
        \<and> (t_send t \<noteq> '''' \<longrightarrow> tc_write env (t_send t) = None)
        \<and> (t_expect_recv t \<noteq> '''' \<longrightarrow> tc_before_read env < default_timeout (30 * Second) cfg
              \<and> arrives (t_expect_recv t) '''' (tc_reads env)))"
proof -
  have rec: "r_success (tcpReceive uni env d t r0) \<longleftrightarrow> (t_expect_recv t \<noteq> '''' \<longrightarrow> tc_before_read env < d
      \<and> arrives (t_expect_recv t) '''' (tc_reads env))"
    and err: "r_success (tcpReceive uni env d t r0) \<or> r_error (tcpReceive uni env d t r0) \<noteq> ''''"
    and inf: "r_infra_error (tcpReceive uni env d t r0) = r_infra_error r0"
    if "\<not> r_success r0" for d r0
    using recvLoop_arrives [of "t_expect_recv t" "''''" "tc_deadline_error env" "tc_reads env"] that
    by (auto simp: tcpReceive_def Let_def Contains_iff split: received.split)
  show ?thesis
    using rec err inf unfolding assms(3)
    by (auto simp: TCP_Run_def Let_def assms(1,2) split: option.splits)
qed

definition sample_tcp :: CheckConfig where
  "sample_tcp = (emptyCheck zeroYAML) \<lparr> c_name := ''ssh'', c_type := CheckTypeTCP, c_timeout := 5 * Second,
     c_tcp := Some \<lparr> t_host = ''host'', t_port = 22, t_ip_version = '''', t_tls = False, t_min_tls = '''', t_max_tls = '''',
       t_send = '''', t_expect_recv = ''SSH'' \<rparr> \<rparr>"

definition sample_tcp_env :: tcp_env where
  "sample_tcp_env = \<lparr> tc_dial = (\<lambda>_ _. None), tc_handshake = (\<lambda>_ _ _. None), tc_write = (\<lambda>_. None),
     tc_reads = [(''S'', None), (''SH-2'', None)], tc_deadline_error = ''i/o timeout'', tc_conn_time = 1, tc_tls_time = 0,
     tc_before_read = 2, tc_total = 3 \<rparr>"

theorem TCP_Run_verdict_witness:
  "r_success (TCP_Run (id, sample_tcp_env) 1 sample_tcp None)"
proof -
  obtain t where t: "c_tcp sample_tcp = Some t" "\<not> t_tls t" "t_send t = ''''" "t_expect_recv t = ''SSH''"
    by (simp add: sample_tcp_def)
  have "arrives ''SSH'' '''' [(''S'', None), (''SH-2'', None)]"
    by (simp add: arrives_Cons maxRecvSize_def flip: Contains_iff) (simp add: HasPrefix_def)
  with TCP_Run_verdict [OF t(1) refl refl, of id sample_tcp_env 1 None] t(2-4)
  show ?thesis by (simp add: sample_tcp_env_def default_timeout_def sample_tcp_def)
qed

text \<open>
  The verdict of a UDP check that does not panic: it succeeds exactly when the payload
  is given, as text or as valid hexadecimal digits, and sent, and either no response is expected and
  none is needed or none comes, or a response comes that contains the expected text. The payload of
  hexadecimal digits is the bytes they encode.
\<close>

theorem UDP_Run_verdict:
  assumes "c_udp cfg = Some u" and "UDP_Run (uni, env) now cfg og = Some r"
    and "expects = (ud_expect_response u \<noteq> Some False)"
    and "bufsz = nat (if ud_max_response_bytes u = 0 then 4096 else ud_max_response_bytes u)"
  shows "\<not> r_infra_error r \<and> (r_success r \<or> r_error r \<noteq> '''')
    \<and> (r_success r \<longleftrightarrow> (\<exists>payload. udpPayload u = Inr payload \<and> ue_write env payload = None)
        \<and> ue_dial env (ipFamily ''udp'' (ud_ip_version u)) (host_port (ud_host u) (ud_port u)) = None
        \<and> (\<not> expects \<and> (ud_expect_recv u = '''' \<or> ue_read env bufsz = UdpTimeout)
            \<or> (\<exists>datagram. ue_read env bufsz = UdpRead datagram \<and> sublist (ud_expect_recv u) (take bufsz datagram))))
    \<and> (ud_send_hex u \<noteq> '''' \<longrightarrow> (\<forall>payload. udpPayload u = Inr payload \<longleftrightarrow> ToLower (ud_send_hex u) = hex_encode payload))"
proof -
  have hex: "ud_send_hex u \<noteq> '''' \<longrightarrow> (\<forall>payload. udpPayload u = Inr payload \<longleftrightarrow> ToLower (ud_send_hex u) = hex_encode payload)"
    unfolding DecodeString_iff [symmetric] by (auto simp: udpPayload_def split: sum.splits)
  have err: "udpPayload u = Inl e \<Longrightarrow> e \<noteq> ''''" for e
    by (auto simp: udpPayload_def hex_error_text_def split: if_splits sum.splits)
  have ex: "(case ud_expect_response u of Some b \<Rightarrow> b | None \<Rightarrow> True) = expects"
    using assms(3) by (auto split: option.splits)
  have recv: "udpReceive uni env u e r0 = Some r \<Longrightarrow> \<not> r_success r0 \<Longrightarrow> r_infra_error r = r_infra_error r0
      \<and> (r_success r \<or> r_error r \<noteq> '''')
      \<and> (r_success r \<longleftrightarrow> \<not> e \<and> ue_read env bufsz = UdpTimeout
          \<or> (\<exists>datagram. ue_read env bufsz = UdpRead datagram \<and> sublist (ud_expect_recv u) (take bufsz datagram)))" for e r0
    using assms(4) by (cases "ue_read env bufsz") (auto simp: udpReceive_def Let_def Contains_iff split: if_splits)
  show ?thesis
  proof (cases "udpPayload u")
    case (Inl e)
    then show ?thesis using assms(1,2) hex err by (auto simp: UDP_Run_def Let_def)
  next
    case (Inr payload)
    let ?addr = "host_port (ud_host u) (ud_port u)"
    let ?r = "(NewResult now (c_name cfg) CheckTypeUDP og) \<lparr> r_duration := ue_total env \<rparr>"
    have run: "UDP_Run (uni, env) now cfg og = (case ue_dial env (ipFamily ''udp'' (ud_ip_version u)) ?addr of
        Some err \<Rightarrow> Some (?r \<lparr> r_error := ''UDP dial to '' @ ?addr @ '': '' @ err \<rparr>)
      | None \<Rightarrow> (case ue_write env payload of
          Some err \<Rightarrow> Some (?r \<lparr> r_error := ''sending to '' @ ?addr @ '': '' @ err \<rparr>)
        | None \<Rightarrow> if \<not> expects \<and> ud_expect_recv u = '''' then Some (?r \<lparr> r_success := True \<rparr>)
                  else udpReceive uni env u expects ?r))"
      unfolding UDP_Run_def Let_def prod.case assms(1) option.case Inr sum.case ex by (rule refl)
    consider (dial) err where "ue_dial env (ipFamily ''udp'' (ud_ip_version u)) ?addr = Some err"
      | (wr) err where "ue_dial env (ipFamily ''udp'' (ud_ip_version u)) ?addr = None" "ue_write env payload = Some err"
      | (fire) "ue_dial env (ipFamily ''udp'' (ud_ip_version u)) ?addr = None" "ue_write env payload = None"
          "\<not> expects \<and> ud_expect_recv u = ''''"
      | (rec) "ue_dial env (ipFamily ''udp'' (ud_ip_version u)) ?addr = None" "ue_write env payload = None"
          "\<not> (\<not> expects \<and> ud_expect_recv u = '''')"
      by blast
    then show ?thesis
    proof cases
      case rec
      with run assms(2) have "udpReceive uni env u expects ?r = Some r" by (simp only: option.case if_False)
      from recv [OF this] rec(1-3) Inr hex show ?thesis by auto
    qed (use run assms(2) Inr hex in auto)
  qed
qed

definition sample_udp :: CheckConfig where
  "sample_udp = (emptyCheck zeroYAML) \<lparr> c_name := ''syslog'', c_type := CheckTypeUDP,
     c_udp := Some \<lparr> ud_host = ''host'', ud_port = 514, ud_ip_version = '''', ud_send = '''', ud_send_hex = ''4F6B'',
       ud_expect_response = None, ud_expect_recv = ''Ok'', ud_max_response_bytes = 4096 \<rparr> \<rparr>"

definition sample_udp_env :: udp_env where
  "sample_udp_env = \<lparr> ue_dial = (\<lambda>_ _. None), ue_write = (\<lambda>p. if p = ''Ok'' then None else Some ''bad''),
     ue_read = (\<lambda>_. UdpRead ''Ok''), ue_rtt = 1, ue_total = 2 \<rparr>"

theorem UDP_Run_verdict_witness:
  "map_option r_success (UDP_Run (id, sample_udp_env) 1 sample_udp None) = Some True"
proof -
  obtain u where u: "c_udp sample_udp = Some u" "ud_send_hex u = ''4F6B''" "ud_expect_response u = None"
      "ud_expect_recv u = ''Ok''" "ud_max_response_bytes u = 4096"
    by (simp add: sample_udp_def)
  have hex: "DecodeString ''4F6B'' = Inr ''Ok''" by code_simp
  have "UDP_Run (id, sample_udp_env) 1 sample_udp None \<noteq> None"
    using u by (simp add: UDP_Run_def udpReceive_def udpPayload_def hex sample_udp_env_def Let_def del: DecodeString.simps)
  then obtain r where r: "UDP_Run (id, sample_udp_env) 1 sample_udp None = Some r" by blast
  from UDP_Run_verdict [OF u(1) r refl refl] u r show ?thesis
    by (simp add: sample_udp_env_def udpPayload_def hex del: DecodeString.simps)
qed

text \<open>A negative response size passes the loader and makes the run, and with it the worker, panic.\<close>

lemma negative_buffer_panics:
  assumes "c_udp cfg = Some u" and "udpPayload u = Inr payload" and "ud_max_response_bytes u < 0"
    and "ue_dial env (ipFamily ''udp'' (ud_ip_version u)) (host_port (ud_host u) (ud_port u)) = None"
    and "ue_write env payload = None" and "ud_expect_response u \<noteq> Some False"
  shows "UDP_Run (uni, env) now cfg og = None"
  using assms by (auto simp: UDP_Run_def udpReceive_def Let_def split: option.split)

lemma negative_buffer_accepted:
  "convertCheck lib (zeroYAML \<lparr> y_name := ''u'', y_type := CheckTypeUDP, y_max_response_bytes := -1 \<rparr>) p = Inr c
     \<Longrightarrow> map_option ud_max_response_bytes (c_udp c) = Some (-1)"
  by (auto simp: convertCheck_def convertUDP_def Let_def)

text \<open>
  An SMTP check succeeds exactly when every configured step does; authentication is tried only after
  STARTTLS for a check that the loader accepted.
\<close>

lemma SMTP_Run_verdict:
  assumes "c_smtp cfg = Some s" and "r = SMTP_Run env now cfg og"
  shows "\<not> r_infra_error r \<and> (r_success r \<or> r_error r \<noteq> '''')
    \<and> (r_success r \<longleftrightarrow> sm_dial env (host_port (s_host s) (s_port s)) = None \<and> sm_client env = None
        \<and> sm_hello env ''technician.local'' = None
        \<and> (s_start_tls s \<longrightarrow> sm_starttls_advertised env \<and> sm_starttls env (s_host s) (s_skip_tls s) = None)
        \<and> (s_username s \<noteq> '''' \<longrightarrow> sm_auth env (s_username s) (s_password s) = None))"
  using assms by (auto simp: SMTP_Run_def Let_def split: option.splits)

text \<open>The connections of the gRPC checker are those that would be opened for the key.\<close>

definition conns_ok :: "grpc_conns \<Rightarrow> bool" where
  "conns_ok conns \<longleftrightarrow> (\<forall>k c. conns k = Some c \<longrightarrow> c = (gk_host k, grpcCreds (gk_tls k) (gk_skip_tls k)))"

lemma getConn_direct:
  assumes "conns_ok conns" and "getConn env host t s conns = (reply, conns')"
  shows "conns_ok conns'" and "reply = Inr c \<Longrightarrow> c = (host, grpcCreds t s)"
proof -
  let ?key = "\<lparr> gk_host = host, gk_tls = t, gk_skip_tls = s \<rparr>"
  have "conns ?key = Some c \<Longrightarrow> c = (host, grpcCreds t s)" for c
    using assms(1) [unfolded conns_ok_def, rule_format, of ?key c] by simp
  then show "conns_ok conns'" "reply = Inr c \<Longrightarrow> c = (host, grpcCreds t s)"
    using assms by (cases "conns ?key"; auto simp: getConn_def conns_ok_def Let_def split: option.splits if_splits)+
qed

lemma GRPC_Run_verdict:
  assumes "conns_ok conns" and "c_grpc cfg = Some g" and "GRPC_Run env now cfg og conns = (r, conns')"
  shows "conns_ok conns' \<and> \<not> r_infra_error r
    \<and> (r_success r \<longrightarrow> gr_check env (g_host g, grpcCreds (g_tls g) (g_skip_tls g)) (g_service g) = Inr 1)"
proof -
  obtain reply conns1 where c: "getConn env (g_host g) (g_tls g) (g_skip_tls g) conns = (reply, conns1)" by fastforce
  note d = getConn_direct [OF assms(1) c]
  show ?thesis
    using assms(2,3) d by (cases reply) (auto simp: GRPC_Run_def Let_def c split: sum.splits)
qed

lemma wsDialogue_verdict:
  assumes "\<not> r_success r"
  shows "r_success (wsDialogue uni env w r) \<longleftrightarrow>
    (ws_send w \<noteq> '''' \<longrightarrow> we_send env (ws_send w) = None
       \<and> (ws_expect_recv w \<noteq> '''' \<longrightarrow> (\<exists>reply. we_receive env = Inr reply \<and> sublist (ws_expect_recv w) reply)))"
  using assms by (auto simp: wsDialogue_def Let_def Contains_iff split: option.splits sum.splits)

section \<open>The contracts\<close>

lemma tcpReceive_frame [simp]:
  "r_name (tcpReceive uni env d t r) = r_name r" "r_type (tcpReceive uni env d t r) = r_type r"
  "r_timestamp (tcpReceive uni env d t r) = r_timestamp r" "r_retries (tcpReceive uni env d t r) = r_retries r"
  "r_degraded (tcpReceive uni env d t r) = r_degraded r" "r_infra_error (tcpReceive uni env d t r) = r_infra_error r"
  "r_success (tcpReceive uni env d t r) \<or> r_error (tcpReceive uni env d t r) \<noteq> ''''"
  by (auto simp: tcpReceive_def Let_def split: received.split)

lemma TCP_Run_contract:
  "r_name (TCP_Run e now cfg og) = c_name cfg \<and> r_type (TCP_Run e now cfg og) = CheckTypeTCP
   \<and> r_timestamp (TCP_Run e now cfg og) = now \<and> r_retries (TCP_Run e now cfg og) = 0
   \<and> \<not> r_degraded (TCP_Run e now cfg og) \<and> \<not> r_infra_error (TCP_Run e now cfg og)
   \<and> (r_success (TCP_Run e now cfg og) \<or> r_error (TCP_Run e now cfg og) \<noteq> '''')"
  by (auto simp: TCP_Run_def Let_def split: option.split prod.split)

interpretation tcp: explained_checker CheckTypeTCP TCP_Run
  using TCP_Run_contract by unfold_locales blast+

text \<open>A run that panics has no result; the contract is about the others, so it is given a blank one.\<close>

definition udp_probe :: "(string \<Rightarrow> string) \<times> udp_env \<Rightarrow> gotime \<Rightarrow> CheckConfig \<Rightarrow> Origin option \<Rightarrow> Result" where
  "udp_probe e now cfg og = (case UDP_Run e now cfg og of Some r \<Rightarrow> r | None \<Rightarrow> NewResult now (c_name cfg) CheckTypeUDP og)"

lemma udpReceive_frame:
  "udpReceive uni env u e r = Some r' \<Longrightarrow> r_name r' = r_name r \<and> r_type r' = r_type r \<and> r_timestamp r' = r_timestamp r
     \<and> r_retries r' = r_retries r \<and> r_degraded r' = r_degraded r \<and> r_infra_error r' = r_infra_error r"
  by (auto simp: udpReceive_def Let_def split: if_splits udp_read.splits)

lemma udp_probe_contract:
  "r_name (udp_probe e now cfg og) = c_name cfg \<and> r_type (udp_probe e now cfg og) = CheckTypeUDP
   \<and> r_timestamp (udp_probe e now cfg og) = now \<and> r_retries (udp_probe e now cfg og) = 0
   \<and> \<not> r_degraded (udp_probe e now cfg og) \<and> \<not> r_infra_error (udp_probe e now cfg og)"
  by (auto simp: udp_probe_def UDP_Run_def Let_def split: option.split sum.split prod.split dest!: udpReceive_frame)

interpretation udp: sound_checker CheckTypeUDP udp_probe
  using udp_probe_contract by unfold_locales blast+

lemma SMTP_Run_contract:
  "r_name (SMTP_Run e now cfg og) = c_name cfg \<and> r_type (SMTP_Run e now cfg og) = CheckTypeSMTP
   \<and> r_timestamp (SMTP_Run e now cfg og) = now \<and> r_retries (SMTP_Run e now cfg og) = 0
   \<and> \<not> r_degraded (SMTP_Run e now cfg og) \<and> \<not> r_infra_error (SMTP_Run e now cfg og)
   \<and> (r_success (SMTP_Run e now cfg og) \<or> r_error (SMTP_Run e now cfg og) \<noteq> '''')"
  by (auto simp: SMTP_Run_def Let_def split: option.split)

interpretation smtp: explained_checker CheckTypeSMTP SMTP_Run
  using SMTP_Run_contract by unfold_locales blast+

definition grpc_probe :: "grpc_env \<times> grpc_conns \<Rightarrow> gotime \<Rightarrow> CheckConfig \<Rightarrow> Origin option \<Rightarrow> Result" where
  "grpc_probe e now cfg og = fst (GRPC_Run (fst e) now cfg og (snd e))"

lemma grpc_probe_contract:
  "r_name (grpc_probe e now cfg og) = c_name cfg \<and> r_type (grpc_probe e now cfg og) = CheckTypeGRPC
   \<and> r_timestamp (grpc_probe e now cfg og) = now \<and> r_retries (grpc_probe e now cfg og) = 0
   \<and> \<not> r_degraded (grpc_probe e now cfg og) \<and> \<not> r_infra_error (grpc_probe e now cfg og)"
  by (auto simp: grpc_probe_def GRPC_Run_def Let_def split: option.split sum.split prod.split)

interpretation grpc: sound_checker CheckTypeGRPC grpc_probe
  using grpc_probe_contract by unfold_locales blast+

lemma wsDialogue_frame [simp]:
  "r_name (wsDialogue uni env w r) = r_name r" "r_type (wsDialogue uni env w r) = r_type r"
  "r_timestamp (wsDialogue uni env w r) = r_timestamp r" "r_retries (wsDialogue uni env w r) = r_retries r"
  "r_degraded (wsDialogue uni env w r) = r_degraded r" "r_infra_error (wsDialogue uni env w r) = r_infra_error r"
  "r_success (wsDialogue uni env w r) \<or> r_error (wsDialogue uni env w r) \<noteq> ''''"
  by (auto simp: wsDialogue_def Let_def split: option.split sum.split)

lemma WebSocket_Run_contract:
  "r_name (WebSocket_Run e now cfg og) = c_name cfg \<and> r_type (WebSocket_Run e now cfg og) = CheckTypeWebSocket
   \<and> r_timestamp (WebSocket_Run e now cfg og) = now \<and> r_retries (WebSocket_Run e now cfg og) = 0
   \<and> \<not> r_degraded (WebSocket_Run e now cfg og) \<and> \<not> r_infra_error (WebSocket_Run e now cfg og)
   \<and> (r_success (WebSocket_Run e now cfg og) \<or> r_error (WebSocket_Run e now cfg og) \<noteq> '''')"
  by (auto simp: WebSocket_Run_def Let_def split: option.split prod.split ws_dial.split)

interpretation websocket: explained_checker CheckTypeWebSocket WebSocket_Run
  using WebSocket_Run_contract by unfold_locales blast+

end
