(* ===== verification/Check_Tools.thy ===== *)
theory Check_Tools
  imports Check_Contract
begin

text \<open>
  The checkers that run a program: \<open>mtr\<close> for the traceroute check
  (\<open>internal/check/traceroute.go\<close>) and \<open>node\<close> with the runner script for the browser check
  (\<open>internal/check/playwright.go\<close>). The programs are arguments: functions of the command line the
  checker gives them. What \<open>json.Unmarshal\<close> makes of their output is an argument too, the decoded
  struct or the text of its error. \<open>json.Marshal\<close> of the runner configuration, a map of strings
  and booleans, has no error to return; the configuration is passed on as that map.
\<close>

section \<open>Traceroute\<close>

record mtrHub =
  mh_count :: int
  mh_host :: string
  mh_asn :: int
  mh_loss :: float64
  mh_avg :: float64

fun hopsFrom :: "int \<Rightarrow> mtrHub list \<Rightarrow> TracerouteHop list" where
  "hopsFrom i [] = []"
| "hopsFrom i (hub # hubs) =
     \<lparr> th_hop = i + 1, th_host = mh_host hub, th_ip = '''', th_asn = mh_asn hub, th_avg_ms = mh_avg hub,
       th_loss_percent = mh_loss hub \<rparr> # hopsFrom (i + 1) hubs"

definition parseMTROutput ::
  "(string \<Rightarrow> string) \<Rightarrow> (string \<Rightarrow> string + mtrHub list) \<Rightarrow> string \<Rightarrow> string + TracerouteHop list"
where
  "parseMTROutput uni unmarshal data =
     (if CHR ''{'' \<notin> set data
      then (let snippet = TrimSpace data;
                snippet' = if length snippet > 80 then take 80 snippet @ '' ...'' else snippet
            in Inl (''unmarshal mtr JSON: no JSON object found in output (mtr may need root or use a different format); first bytes: ''
                    @ Quote uni snippet'))
      else case unmarshal (dropWhile (\<lambda>c. c \<noteq> CHR ''{'') data) of
             Inl err \<Rightarrow> Inl (''unmarshal mtr JSON: '' @ err)
           | Inr hubs \<Rightarrow> Inr (hopsFrom 0 hubs))"

datatype mtr_reply = MtrFailed string string | MtrOutput string

record mtr_env =
  me_mtr :: "string list \<Rightarrow> mtr_reply"
  me_unmarshal :: "string \<Rightarrow> string + mtrHub list"
  me_uni :: "string \<Rightarrow> string"
  me_elapsed :: duration

definition mtrArgs :: "TracerouteCheckConfig \<Rightarrow> string list" where
  "mtrArgs t = [''--json'', ''--max-ttl='' @ itoa (tr_max_hops t), ''--report-cycles='' @ itoa (tr_count t), tr_host t]"

definition Traceroute_Run :: "mtr_env \<Rightarrow> gotime \<Rightarrow> CheckConfig \<Rightarrow> Origin option \<Rightarrow> Result" where
  "Traceroute_Run env now cfg origin =
     (let result = NewResult now (c_name cfg) CheckTypeTraceroute origin
      in case c_traceroute cfg of
           None \<Rightarrow> result \<lparr> r_error := ''missing traceroute check configuration'' \<rparr>
         | Some t \<Rightarrow>
             (let r = result \<lparr> r_duration := me_elapsed env \<rparr>
              in case me_mtr env (mtrArgs t) of
                   MtrFailed err stderr \<Rightarrow>
                     (let msg = TrimSpace stderr
                      in if msg \<noteq> '''' then r \<lparr> r_error := ''mtr: '' @ msg \<rparr>
                         else r \<lparr> r_error := ''running mtr: '' @ err \<rparr>)
                 | MtrOutput output \<Rightarrow>
                     (case parseMTROutput (me_uni env) (me_unmarshal env) output of
                        Inl err \<Rightarrow> r \<lparr> r_error := ''parsing mtr output: '' @ err \<rparr>
                      | Inr hops \<Rightarrow> r \<lparr> r_hops := hops, r_success := True \<rparr>)))"

lemma hopsFrom_nth:
  "length (hopsFrom i hubs) = length hubs"
  "k < length hubs \<Longrightarrow> hopsFrom i hubs ! k =
     \<lparr> th_hop = i + 1 + int k, th_host = mh_host (hubs ! k), th_ip = '''', th_asn = mh_asn (hubs ! k),
       th_avg_ms = mh_avg (hubs ! k), th_loss_percent = mh_loss (hubs ! k) \<rparr>"
proof (induction hubs arbitrary: i k)
  case (Cons hub hubs)
  { case 1 with Cons show ?case by simp }
  { case 2 with Cons show ?case by (cases k) auto }
qed simp_all

lemma hopsFrom_numbered: "map th_hop (hopsFrom i hubs) = map (\<lambda>k. i + 1 + int k) [0 ..< length hubs]"
  by (rule nth_equalityI) (simp_all add: hopsFrom_nth)

text \<open>Text in front of the JSON object is skipped: only the bytes from the first brace on are decoded.\<close>

lemma parseMTROutput_skips:
  assumes "CHR ''{'' \<notin> set noise"
  shows "parseMTROutput uni unmarshal (noise @ CHR ''{'' # json) = parseMTROutput uni unmarshal (CHR ''{'' # json)"
proof -
  from assms have "dropWhile (\<lambda>c. c \<noteq> CHR ''{'') noise = []" by auto
  then show ?thesis by (simp add: parseMTROutput_def dropWhile_append)
qed

lemma Traceroute_Run_success:
  "r_success (Traceroute_Run env now cfg og) \<longleftrightarrow>
     (\<exists>t out hubs. c_traceroute cfg = Some t \<and> me_mtr env (mtrArgs t) = MtrOutput out \<and> CHR ''{'' \<in> set out
        \<and> me_unmarshal env (dropWhile (\<lambda>c. c \<noteq> CHR ''{'') out) = Inr hubs
        \<and> r_hops (Traceroute_Run env now cfg og) = hopsFrom 0 hubs)"
  by (auto simp: Traceroute_Run_def parseMTROutput_def Let_def split: option.split mtr_reply.split sum.split if_splits)

lemma Traceroute_Run_contract:
  "r_name (Traceroute_Run e now cfg og) = c_name cfg \<and> r_type (Traceroute_Run e now cfg og) = CheckTypeTraceroute
   \<and> r_timestamp (Traceroute_Run e now cfg og) = now \<and> r_retries (Traceroute_Run e now cfg og) = 0
   \<and> \<not> r_degraded (Traceroute_Run e now cfg og) \<and> \<not> r_infra_error (Traceroute_Run e now cfg og)
   \<and> (r_success (Traceroute_Run e now cfg og) \<or> r_error (Traceroute_Run e now cfg og) \<noteq> '''')"
  by (simp add: Traceroute_Run_def Let_def split: option.split mtr_reply.split sum.split)

interpretation traceroute: explained_checker CheckTypeTraceroute Traceroute_Run
  using Traceroute_Run_contract by unfold_locales blast+

section \<open>Browser slots\<close>

text \<open>
  \<open>browserSem\<close> is a channel of capacity \<open>maxBrowsers\<close>. A run sends a token into it before it starts
  a browser, which blocks while the channel is full, or gives up when its context ends; the deferred
  function takes a token out when the run returns.
\<close>

record PlaywrightChecker =
  pc_runner_path :: string
  pc_server_url :: string
  pc_max_browsers :: int

definition NewPlaywrightChecker :: "string \<Rightarrow> int \<Rightarrow> string \<Rightarrow> PlaywrightChecker" where
  "NewPlaywrightChecker runnerPath maxBrowsers serverURL =
     \<lparr> pc_runner_path = runnerPath, pc_server_url = serverURL,
       pc_max_browsers = (if maxBrowsers \<le> 0 then 2 else maxBrowsers) \<rparr>"

datatype slot_phase = Queued | Browsing | Returned

record slots =
  sl_tokens :: nat
  sl_runs :: "slot_phase list"

definition slots_new :: slots where
  "slots_new = \<lparr> sl_tokens = 0, sl_runs = [] \<rparr>"

inductive slot_step :: "nat \<Rightarrow> slots \<Rightarrow> slots \<Rightarrow> bool" for cap :: nat where
  slot_enter: "slot_step cap s (s \<lparr> sl_runs := sl_runs s @ [Queued] \<rparr>)"
| slot_acquire: "i < length (sl_runs s) \<Longrightarrow> sl_runs s ! i = Queued \<Longrightarrow> sl_tokens s < cap \<Longrightarrow>
    slot_step cap s \<lparr> sl_tokens = Suc (sl_tokens s), sl_runs = (sl_runs s)[i := Browsing] \<rparr>"
| slot_giveUp: "i < length (sl_runs s) \<Longrightarrow> sl_runs s ! i = Queued \<Longrightarrow>
    slot_step cap s (s \<lparr> sl_runs := (sl_runs s)[i := Returned] \<rparr>)"
| slot_release: "i < length (sl_runs s) \<Longrightarrow> sl_runs s ! i = Browsing \<Longrightarrow>
    slot_step cap s \<lparr> sl_tokens = sl_tokens s - 1, sl_runs = (sl_runs s)[i := Returned] \<rparr>"

inductive slot_reach :: "nat \<Rightarrow> slots \<Rightarrow> bool" for cap :: nat where
  slot_init: "slot_reach cap slots_new"
| slot_more: "slot_reach cap s \<Longrightarrow> slot_step cap s s' \<Longrightarrow> slot_reach cap s'"

inductive_cases slot_stepE: "slot_step cap s s'"

definition browsers :: "slots \<Rightarrow> nat" where
  "browsers s = length (filter (\<lambda>p. p = Browsing) (sl_runs s))"

interpretation slots: semaphore "slot_step cap" sl_runs "\<lambda>p. p = Browsing" "\<lambda>s. int (sl_tokens s)" "int cap"
proof
  fix s s' :: slots
  assume st: "slot_step cap s s'" and ex: "exact (\<lambda>p. p = Browsing) (sl_runs s) (int (sl_tokens s))"
  have tok: "0 < sl_tokens s" if "i < length (sl_runs s)" "sl_runs s ! i = Browsing" for i
    using exact_holder [OF ex that(1)] that(2) by simp
  from st show "follows (\<lambda>p. p = Browsing) (sl_runs s) (int (sl_tokens s)) (sl_runs s') (int (sl_tokens s'))"
  proof (elim slot_stepE, goal_cases)
    case 1
    then show ?case by (intro follows_go [of _ _ Queued]) simp_all
  next
    case (2 i)
    then show ?case by (intro follows_move [of i _ _ Browsing]) simp_all
  next
    case (3 i)
    then show ?case by (intro follows_move [of i _ _ Returned]) simp_all
  next
    case (4 i)
    with tok [of i] show ?case by (intro follows_move [of i _ _ Returned]) (simp_all add: of_nat_diff Suc_le_eq)
  qed
  show "int (sl_tokens s') \<le> int cap" if "int (sl_tokens s) \<le> int cap"
    using st that by (cases rule: slot_stepE) auto
qed

lemma slot_reach_tokens:
  assumes "slot_reach cap s"
  shows "browsers s = sl_tokens s \<and> sl_tokens s \<le> cap"
proof -
  have "exact (\<lambda>p. p = Browsing) (sl_runs s) (int (sl_tokens s)) \<and> int (sl_tokens s) \<le> int cap"
    using assms
  proof (induction rule: slot_reach.induct)
    case slot_init
    then show ?case by (simp add: slots_new_def exact_def)
  next
    case (slot_more s s')
    then show ?case using slots.bounded_step by blast
  qed
  then show ?thesis by (simp add: exact_def browsers_def)
qed

text \<open>
  Property C36. The browser slots are a mutual exclusion with a bound: whatever runs start, give up and
  end in whatever order, no more browsers run than \<open>max_browsers\<close> (2 when the setting is not
  positive), and a queued run can take a slot as soon as fewer run, so in particular when none runs.
\<close>

theorem browser_limit:
  assumes "slot_reach (nat (pc_max_browsers (NewPlaywrightChecker path m url))) s"
  shows "browsers s \<le> nat (if m \<le> 0 then 2 else m) \<and> 0 < nat (if m \<le> 0 then 2 else m) \<and>
    (\<forall>i < length (sl_runs s). sl_runs s ! i = Queued \<and> browsers s < nat (if m \<le> 0 then 2 else m) \<longrightarrow>
      (\<exists>s'. slot_step (nat (pc_max_browsers (NewPlaywrightChecker path m url))) s s' \<and> sl_runs s' ! i = Browsing))"
proof (intro conjI allI impI)
  from slot_reach_tokens [OF assms] have t: "browsers s = sl_tokens s"
    and le: "sl_tokens s \<le> nat (if m \<le> 0 then 2 else m)"
    by (auto simp: NewPlaywrightChecker_def)
  from t le show "browsers s \<le> nat (if m \<le> 0 then 2 else m)" by simp
  show "\<exists>s'. slot_step (nat (pc_max_browsers (NewPlaywrightChecker path m url))) s s' \<and> sl_runs s' ! i = Browsing"
    if "i < length (sl_runs s)" "sl_runs s ! i = Queued \<and> browsers s < nat (if m \<le> 0 then 2 else m)" for i
    using that t slot_acquire [of i s "nat (if m \<le> 0 then 2 else m)"]
    by (intro exI [of _ "\<lparr> sl_tokens = Suc (sl_tokens s), sl_runs = (sl_runs s)[i := Browsing] \<rparr>"])
       (simp add: NewPlaywrightChecker_def)
  show "0 < nat (if m \<le> 0 then 2 else m)" by simp
qed

definition slots_example :: slots where
  "slots_example = \<lparr> sl_tokens = 1, sl_runs = [Browsing, Queued] \<rparr>"

lemma slots_example_reach: "slot_reach 1 slots_example"
proof -
  have "slot_reach 1 \<lparr> sl_tokens = 0, sl_runs = [Queued] \<rparr>"
    using slot_more [OF slot_init slot_enter, of 1] by (simp add: slots_new_def)
  from slot_more [OF this slot_enter] have "slot_reach 1 \<lparr> sl_tokens = 0, sl_runs = [Queued, Queued] \<rparr>" by simp
  from slot_more [OF this slot_acquire [of 0]] show ?thesis by (simp add: slots_example_def)
qed

theorem browser_limit_witness:
  "browsers slots_example \<le> 1 \<and> browsers slots_example = 1 \<and> (0::nat) < nat (if (1::int) \<le> 0 then 2 else 1)"
proof -
  have "slot_reach (nat (pc_max_browsers (NewPlaywrightChecker ''run.js'' 1 ''''))) slots_example"
    using slots_example_reach by (simp add: NewPlaywrightChecker_def)
  from browser_limit [OF this] show ?thesis
    by (simp add: browsers_def slots_example_def)
qed

section \<open>The browser check\<close>

record playwrightOutput =
  po_success :: bool
  po_infra :: bool
  po_duration :: float64
  po_error :: string
  po_vitals :: "WebVitals option"
  po_har :: "HARData option"
  po_video_path :: string
  po_resource_count :: int
  po_logs :: "string list"

datatype config_value = StrVal string | BoolVal bool

type_synonym runner_config = "(string, config_value) gomap"

datatype node_reply =
    NodeExit string string
  | NodeNotRun string
  | NodeUnparsed string
  | NodeOutput playwrightOutput

text \<open>
  \<open>pe_slot\<close> is \<open>None\<close> when the run got a browser slot, or the number of slots in use when its context
  ended first; \<open>pe_workdir\<close> is the scratch directory or the error of \<open>MkdirTemp\<close>; \<open>pe_cwd_modules\<close>
  is the absolute path of the local \<open>node_modules\<close>, if the working directory is known.
\<close>

record pw_env =
  pe_slot :: "nat option"
  pe_workdir :: "string + string"
  pe_environ :: "string list"
  pe_cwd_modules :: "string option"
  pe_is_dir :: "string \<Rightarrow> bool"
  pe_node :: "string \<Rightarrow> runner_config \<Rightarrow> string list \<Rightarrow> node_reply"
  pe_elapsed :: duration

definition playwrightEnv :: "pw_env \<Rightarrow> string list" where
  "playwrightEnv env =
     (if \<exists>e \<in> set (pe_environ env). length e > 10 \<and> take 10 e = ''NODE_PATH='' then pe_environ env
      else case pe_cwd_modules env of
             None \<Rightarrow> pe_environ env
           | Some dir \<Rightarrow> if pe_is_dir env dir then pe_environ env @ [''NODE_PATH='' @ dir] else pe_environ env)"

definition put_unless_empty :: "string \<Rightarrow> string \<Rightarrow> runner_config \<Rightarrow> runner_config" where
  "put_unless_empty k v m = (if v \<noteq> '''' then AList.update k (StrVal v) m else m)"

definition runnerConfig :: "PlaywrightChecker \<Rightarrow> PlaywrightCheckConfig \<Rightarrow> string \<Rightarrow> runner_config" where
  "runnerConfig pc p workDir =
     (let m = [(''script'', StrVal (p_script p)), (''work_dir'', StrVal workDir)];
          m = put_unless_empty ''base_url'' (p_base_url p) m;
          m = (if p_video p then AList.update ''video'' (BoolVal True) m else m);
          m = put_unless_empty ''authenticator'' (p_authenticator p) m;
          m = put_unless_empty ''network'' (p_network p) m;
          m = put_unless_empty ''device'' (p_device p) m
      in put_unless_empty ''server_url'' (pc_server_url pc) m)"

definition pwInfra :: "string \<Rightarrow> Result \<Rightarrow> Result" where
  "pwInfra msg r = r \<lparr> r_infra_error := True, r_error := msg \<rparr>"

definition label_unless_empty :: "string \<Rightarrow> string \<Rightarrow> (string, string) gomap \<Rightarrow> (string, string) gomap" where
  "label_unless_empty k v m = (if v \<noteq> '''' then AList.update k v m else m)"

definition pwAccept :: "PlaywrightCheckConfig \<Rightarrow> playwrightOutput \<Rightarrow> Result \<Rightarrow> Result" where
  "pwAccept p out result =
     (let r = result \<lparr> r_success := po_success out \<rparr>;
          r = (if po_infra out then r \<lparr> r_infra_error := True \<rparr> else r);
          r = r \<lparr> r_web_vitals := po_vitals out, r_har_data := po_har out, r_resource_count := po_resource_count out,
                r_labels := label_unless_empty ''device'' (p_device p)
                              (label_unless_empty ''network'' (p_network p) (r_labels r)) \<rparr>
      in if po_error out \<noteq> '''' then r \<lparr> r_error := po_error out \<rparr> else r)"

definition Playwright_Run ::
  "PlaywrightChecker \<Rightarrow> pw_env \<Rightarrow> gotime \<Rightarrow> CheckConfig \<Rightarrow> Origin option \<Rightarrow> Result"
where
  "Playwright_Run pc env now cfg origin =
     (let result = NewResult now (c_name cfg) CheckTypePlaywright origin
      in case c_playwright cfg of
           None \<Rightarrow> pwInfra ''missing Playwright check configuration'' result
         | Some p \<Rightarrow>
             (case pe_slot env of
                Some inUse \<Rightarrow>
                  pwInfra (''timed out waiting for browser slot ('' @ itoa (int inUse) @ ''/'' @ itoa (pc_max_browsers pc)
                           @ '' in use)'') result
              | None \<Rightarrow>
                  (case pe_workdir env of
                     Inl err \<Rightarrow> pwInfra (''creating playwright work dir: '' @ err) result
                   | Inr workDir \<Rightarrow>
                       (let r = result \<lparr> r_duration := pe_elapsed env \<rparr>
                        in case pe_node env (pc_runner_path pc) (runnerConfig pc p workDir) (playwrightEnv env) of
                             NodeExit err stderr \<Rightarrow>
                               pwInfra (''playwright runner failed: '' @ err @ '' (stderr: '' @ stderr @ '')'') r
                           | NodeNotRun err \<Rightarrow> pwInfra (''running playwright: '' @ err) r
                           | NodeUnparsed err \<Rightarrow> pwInfra (''parsing playwright output: '' @ err) r
                           | NodeOutput out \<Rightarrow> pwAccept p out r))))"

lemma put_unless_empty_get:
  "map_of (put_unless_empty k v m) k' = (if k' = k \<and> v \<noteq> '''' then Some (StrVal v) else map_of m k')"
  by (auto simp: put_unless_empty_def update_conv')

lemma runnerConfig_get:
  "map_of (runnerConfig pc p dir) k =
     (if k = ''server_url'' \<and> pc_server_url pc \<noteq> '''' then Some (StrVal (pc_server_url pc))
      else if k = ''device'' \<and> p_device p \<noteq> '''' then Some (StrVal (p_device p))
      else if k = ''network'' \<and> p_network p \<noteq> '''' then Some (StrVal (p_network p))
      else if k = ''authenticator'' \<and> p_authenticator p \<noteq> '''' then Some (StrVal (p_authenticator p))
      else if k = ''video'' \<and> p_video p then Some (BoolVal True)
      else if k = ''base_url'' \<and> p_base_url p \<noteq> '''' then Some (StrVal (p_base_url p))
      else map_of [(''script'', StrVal (p_script p)), (''work_dir'', StrVal dir)] k)"
proof -
  have "map_of (if p_video p then AList.update ''video'' (BoolVal True) m else m) k =
      (if k = ''video'' \<and> p_video p then Some (BoolVal True) else map_of m k)" for m
    by (simp add: update_conv')
  then show ?thesis
    by (simp only: runnerConfig_def Let_def put_unless_empty_get)
qed

text \<open>
  The browser run answers when it gets a slot, a work directory and an output of the runner that
  decodes; \<open>runner_output\<close> is that answer.
\<close>

definition runner_output :: "PlaywrightChecker \<Rightarrow> pw_env \<Rightarrow> PlaywrightCheckConfig \<Rightarrow> playwrightOutput option" where
  "runner_output pc env p =
     (case (pe_slot env, pe_workdir env) of
        (None, Inr dir) \<Rightarrow>
          (case pe_node env (pc_runner_path pc) (runnerConfig pc p dir) (playwrightEnv env) of
             NodeOutput out \<Rightarrow> Some out
           | _ \<Rightarrow> None)
      | _ \<Rightarrow> None)"

lemma pwAccept_sel [simp]:
  "r_name (pwAccept p out r) = r_name r" "r_type (pwAccept p out r) = r_type r"
  "r_timestamp (pwAccept p out r) = r_timestamp r" "r_retries (pwAccept p out r) = r_retries r"
  "r_degraded (pwAccept p out r) = r_degraded r" "r_success (pwAccept p out r) = po_success out"
  "r_infra_error (pwAccept p out r) = (r_infra_error r \<or> po_infra out)" "r_video_path (pwAccept p out r) = r_video_path r"
  "r_error (pwAccept p out r) = (if po_error out = '''' then r_error r else po_error out)"
  by (simp_all add: pwAccept_def Let_def)

lemma pwInfra_sel [simp]:
  "r_name (pwInfra msg r) = r_name r" "r_type (pwInfra msg r) = r_type r"
  "r_timestamp (pwInfra msg r) = r_timestamp r" "r_retries (pwInfra msg r) = r_retries r"
  "r_degraded (pwInfra msg r) = r_degraded r" "r_success (pwInfra msg r) = r_success r"
  "r_infra_error (pwInfra msg r)" "r_error (pwInfra msg r) = msg" "r_video_path (pwInfra msg r) = r_video_path r"
  by (simp_all add: pwInfra_def)

lemma NewResult_video [simp]: "r_video_path (NewResult now n t og) = ''''"
  by (simp add: NewResult_def zeroResult_def Let_def split: option.split)

lemma Playwright_Run_answer:
  assumes "c_playwright cfg = Some p" "runner_output pc env p = Some out"
  shows "Playwright_Run pc env now cfg og =
    pwAccept p out ((NewResult now (c_name cfg) CheckTypePlaywright og) \<lparr> r_duration := pe_elapsed env \<rparr>)"
  using assms by (simp add: Playwright_Run_def runner_output_def split: option.splits sum.splits node_reply.splits)

lemma Playwright_Run_no_answer:
  assumes "c_playwright cfg = Some p" "runner_output pc env p = None"
  shows "\<not> r_success (Playwright_Run pc env now cfg og)" "r_infra_error (Playwright_Run pc env now cfg og)"
    "r_error (Playwright_Run pc env now cfg og) \<noteq> ''''" "r_video_path (Playwright_Run pc env now cfg og) = ''''"
  using assms
  by (simp_all add: Playwright_Run_def runner_output_def Let_def split: option.splits sum.splits node_reply.splits)

text \<open>
  A browser check separates what is wrong with the page from what is wrong with the
  machine that looks at it: it succeeds exactly when the runner answered and reported success, it is
  an infrastructure error exactly when the runner gave no answer (no slot, no work directory, \<open>node\<close>
  failed, its output is no JSON) or reported a failure of its own set-up, and without an answer
  there is always an error text. No run leaves a reference to the removed video file.
\<close>

theorem Playwright_Run_verdict:
  assumes "c_playwright cfg = Some p"
  shows "r_success (Playwright_Run pc env now cfg og) \<longleftrightarrow> (\<exists>out. runner_output pc env p = Some out \<and> po_success out)"
    and "r_infra_error (Playwright_Run pc env now cfg og) \<longleftrightarrow>
      (case runner_output pc env p of None \<Rightarrow> True | Some out \<Rightarrow> po_infra out)"
    and "runner_output pc env p = None \<Longrightarrow> r_error (Playwright_Run pc env now cfg og) \<noteq> ''''"
    and "r_video_path (Playwright_Run pc env now cfg og) = ''''"
  using Playwright_Run_answer [OF assms, of pc env _ now og] Playwright_Run_no_answer [OF assms, of pc env now og]
  by (cases "runner_output pc env p"; simp)+

definition sample_script :: PlaywrightCheckConfig where
  "sample_script = \<lparr> p_script = ''login.js'', p_authenticator = '''', p_base_url = '''', p_video = True,
     p_network = ''3g'', p_device = '''' \<rparr>"

definition sample_pw_env :: pw_env where
  "sample_pw_env = \<lparr> pe_slot = None, pe_workdir = Inr ''/tmp/pw'', pe_environ = [], pe_cwd_modules = None,
     pe_is_dir = (\<lambda>_. False),
     pe_node = (\<lambda>path conf envv. if map_of conf ''network'' = Some (StrVal ''3g'') then NodeNotRun ''exec: node not found''
                 else NodeUnparsed ''''),
     pe_elapsed = 5 \<rparr>"

theorem Playwright_Run_verdict_witness:
  "\<not> r_success (Playwright_Run (NewPlaywrightChecker ''run.js'' 0 '''') sample_pw_env 7
       (sample_check \<lparr> c_playwright := Some sample_script \<rparr>) None)
   \<and> r_infra_error (Playwright_Run (NewPlaywrightChecker ''run.js'' 0 '''') sample_pw_env 7
       (sample_check \<lparr> c_playwright := Some sample_script \<rparr>) None)
   \<and> r_error (Playwright_Run (NewPlaywrightChecker ''run.js'' 0 '''') sample_pw_env 7
       (sample_check \<lparr> c_playwright := Some sample_script \<rparr>) None) \<noteq> ''''"
proof -
  let ?pc = "NewPlaywrightChecker ''run.js'' 0 ''''"
  have c: "c_playwright (sample_check \<lparr> c_playwright := Some sample_script \<rparr>) = Some sample_script" by simp
  have o: "runner_output ?pc sample_pw_env sample_script = None"
    by (simp add: runner_output_def sample_pw_env_def runnerConfig_get)
  from Playwright_Run_verdict(1,2) [OF c, of ?pc sample_pw_env 7 None]
    Playwright_Run_verdict(3) [OF c o, of 7 None] o
  show ?thesis by simp
qed

lemma Playwright_Run_contract:
  "r_name (Playwright_Run pc e now cfg og) = c_name cfg \<and> r_type (Playwright_Run pc e now cfg og) = CheckTypePlaywright
   \<and> r_timestamp (Playwright_Run pc e now cfg og) = now \<and> r_retries (Playwright_Run pc e now cfg og) = 0
   \<and> \<not> r_degraded (Playwright_Run pc e now cfg og)"
  by (simp add: Playwright_Run_def Let_def split: option.split sum.split node_reply.split)

interpretation playwright: checker CheckTypePlaywright "Playwright_Run pc" for pc
  by unfold_locales (simp_all add: Playwright_Run_contract)

text \<open>
  The stronger contracts fail: the runner may report a success and a failed set-up at once, and a
  failure without a text; the checker passes both on.
\<close>

lemma playwright_not_sound:
  assumes "c_playwright cfg = Some p" and "runner_output pc env p = Some out" "po_success out" "po_infra out"
  shows "r_success (Playwright_Run pc env now cfg og) \<and> r_infra_error (Playwright_Run pc env now cfg og)"
  using Playwright_Run_answer [OF assms(1,2)] assms(3,4) by simp

section \<open>The runner package\<close>

text \<open>
  \<open>internal/playwright/runner.go\<close>. The file operations are arguments that return \<open>None\<close> or the text
  of their error; \<open>join\<close> is \<open>filepath.Join\<close>. The state of \<open>Runner.Run\<close> is the list of scratch
  directories that exist; \<open>mkdirTemp\<close> names one that does not exist yet, or fails.
\<close>

record Runner =
  ru_scripts_dir :: string

record runner_fs =
  rf_temp_dir :: string
  rf_mkdir_all :: "string \<Rightarrow> string option"
  rf_embedded :: "string \<Rightarrow> string + string"
  rf_write_file :: "string \<Rightarrow> string \<Rightarrow> string option"

definition NewRunner :: "(string \<Rightarrow> string \<Rightarrow> string) \<Rightarrow> runner_fs \<Rightarrow> string + Runner" where
  "NewRunner join fs =
     (let tmpDir = join (rf_temp_dir fs) ''technician-playwright''
      in case rf_mkdir_all fs tmpDir of
           Some err \<Rightarrow> Inl (''creating scripts dir: '' @ err)
         | None \<Rightarrow>
             (let runJS = join tmpDir ''run.js''
              in case rf_embedded fs ''scripts/run.js'' of
                   Inl err \<Rightarrow> Inl (''reading embedded run.js: '' @ err)
                 | Inr data \<Rightarrow>
                     (case rf_write_file fs runJS data of
                        Some err \<Rightarrow> Inl (''writing run.js: '' @ err)
                      | None \<Rightarrow> Inr \<lparr> ru_scripts_dir = tmpDir \<rparr>)))"

definition RunnerPath :: "(string \<Rightarrow> string \<Rightarrow> string) \<Rightarrow> Runner \<Rightarrow> string" where
  "RunnerPath join r = join (ru_scripts_dir r) ''run.js''"

record RunConfig =
  rc_script :: string
  rc_base_url :: string
  rc_video :: bool
  rc_authenticator :: string
  rc_network :: string
  rc_device :: string
  rc_timeout :: int
  rc_work_dir :: string

record RunResult =
  rr_success :: bool
  rr_duration_ms :: float64
  rr_error :: string
  rr_vitals :: "WebVitals option"
  rr_har :: "HARData option"
  rr_video_path :: string
  rr_resource_count :: int
  rr_logs :: "string list"

datatype runner_reply = RunnerFailed string | RunnerUnparsed string | RunnerOutput RunResult

record runner_env =
  re_mkdir_temp :: "string list \<Rightarrow> string + string"
  re_remove_ok :: bool
  re_node :: "string \<Rightarrow> RunConfig \<Rightarrow> duration \<Rightarrow> runner_reply"

definition runTimeout :: "RunConfig \<Rightarrow> duration" where
  "runTimeout cfg = (let t = wrap64 (rc_timeout cfg * Millisecond) in if t = 0 then 60 * Second else t)"

definition Runner_Run ::
  "(string \<Rightarrow> string \<Rightarrow> string) \<Rightarrow> runner_env \<Rightarrow> Runner \<Rightarrow> RunConfig \<Rightarrow> string list \<Rightarrow> (string + RunResult) \<times> string list"
where
  "Runner_Run join env r cfg dirs =
     (case re_mkdir_temp env dirs of
        Inl err \<Rightarrow> (Inl (''creating playwright work dir: '' @ err), dirs)
      | Inr workDir \<Rightarrow>
          (let cfg' = cfg \<lparr> rc_work_dir := workDir \<rparr>;
               removed = (if re_remove_ok env then removeAll workDir (workDir # dirs) else workDir # dirs)
           in (case re_node env (RunnerPath join r) cfg' (runTimeout cfg') of
                 RunnerFailed err \<Rightarrow> Inl (''running playwright: '' @ err)
               | RunnerUnparsed err \<Rightarrow> Inl (''parsing result: '' @ err)
               | RunnerOutput result \<Rightarrow> Inr (result \<lparr> rr_video_path := '''' \<rparr>), removed)))"

text \<open>
  Whatever the outcome, a run that gets a fresh scratch directory leaves the directories as it found
  them, and no result refers to a file of the removed one.
\<close>

lemma Runner_Run_cleans:
  assumes "\<And>ds d. re_mkdir_temp env ds = Inr d \<Longrightarrow> d \<notin> set ds" and "re_remove_ok env"
  shows "snd (Runner_Run join env r cfg dirs) = dirs"
    and "fst (Runner_Run join env r cfg dirs) = Inr res \<Longrightarrow> rr_video_path res = ''''"
  using assms by (auto simp: Runner_Run_def Let_def split: sum.splits runner_reply.splits)

lemma NewRunner_rewrites:
  assumes "NewRunner join fs = Inr r"
  shows "\<exists>data. rf_embedded fs ''scripts/run.js'' = Inr data \<and> rf_write_file fs (RunnerPath join r) data = None"
  using assms by (auto simp: NewRunner_def RunnerPath_def Let_def split: option.splits sum.splits)

end
