(* ===== verification/Checkers.thy ===== *)
theory Checkers
  imports Status_Store Check_BGP Check_HTTP Check_Expiry Check_ICMP Check_NTP Check_DNS Check_Sockets Check_Tools
begin

text \<open>
  The registry of checkers, \<open>newCheckers\<close> of \<open>cmd/checkers.go\<close>, over the models of all fourteen
  checkers, and what the scheduler makes of it: the results it records.
\<close>

section \<open>The BGP checker under the contract\<close>

definition bgp_probe ::
  "duration \<times> routing_reply \<times> rpki_reply \<times> known \<Rightarrow> gotime \<Rightarrow> CheckConfig \<Rightarrow> Origin option \<Rightarrow> Result"
where
  "bgp_probe e now cfg og = (case e of (elapsed, reply, rpki, kn) \<Rightarrow> fst (BGP_Run now elapsed reply rpki cfg og kn))"

lemma judgeRouting_frame:
  "r_name (judgeRouting b fresh rpki origins mss r) = r_name r"
  "r_type (judgeRouting b fresh rpki origins mss r) = r_type r"
  "r_timestamp (judgeRouting b fresh rpki origins mss r) = r_timestamp r"
  "r_retries (judgeRouting b fresh rpki origins mss r) = r_retries r"
  "r_degraded (judgeRouting b fresh rpki origins mss r) = r_degraded r"
  by (simp_all add: judgeRouting_def Let_def split: list.split)

lemma judgeRouting_explained:
  "r_success (judgeRouting b fresh rpki origins mss r) \<or> r_error (judgeRouting b fresh rpki origins mss r) \<noteq> ''''"
  by (auto simp: judgeRouting_def Let_def split: list.split)

lemma bgp_probe_contract:
  "r_name (bgp_probe e now cfg og) = c_name cfg \<and> r_type (bgp_probe e now cfg og) = CheckTypeBGP
   \<and> r_timestamp (bgp_probe e now cfg og) = now \<and> r_retries (bgp_probe e now cfg og) = 0
   \<and> \<not> r_degraded (bgp_probe e now cfg og)
   \<and> (r_infra_error (bgp_probe e now cfg og) \<longrightarrow> \<not> r_success (bgp_probe e now cfg og))
   \<and> (r_success (bgp_probe e now cfg og) \<or> r_error (bgp_probe e now cfg og) \<noteq> '''')"
  using judgeRouting_explained
  by (simp add: bgp_probe_def BGP_Run_def bgpInfra_def Let_def judgeRouting_frame
      split: prod.split option.split routing_reply.split)

interpretation bgp: explained_checker CheckTypeBGP bgp_probe
  using bgp_probe_contract by unfold_locales blast+

section \<open>The registry\<close>

text \<open>What each checker observes at its invocations, and the clock.\<close>

record world =
  wo_now :: "nat \<Rightarrow> gotime"
  wo_http :: "nat \<Rightarrow> golib \<times> (string \<Rightarrow> string) \<times> compiler \<times> http_env \<times> http_state"
  wo_smtp :: "nat \<Rightarrow> smtp_env"
  wo_traceroute :: "nat \<Rightarrow> mtr_env"
  wo_tcp :: "nat \<Rightarrow> (string \<Rightarrow> string) \<times> tcp_env"
  wo_dns :: "nat \<Rightarrow> dns_env \<times> resolvers"
  wo_icmp :: "nat \<Rightarrow> icmp_env"
  wo_grpc :: "nat \<Rightarrow> grpc_env \<times> grpc_conns"
  wo_ntp :: "nat \<Rightarrow> ntp_env"
  wo_tls :: "nat \<Rightarrow> tls_env"
  wo_udp :: "nat \<Rightarrow> (string \<Rightarrow> string) \<times> udp_env"
  wo_bgp :: "nat \<Rightarrow> duration \<times> routing_reply \<times> rpki_reply \<times> known"
  wo_domain :: "nat \<Rightarrow> rdap_env"
  wo_websocket :: "nat \<Rightarrow> golib \<times> (string \<Rightarrow> string) \<times> ws_env"
  wo_playwright :: "nat \<Rightarrow> pw_env"

definition newCheckers ::
  "(string \<Rightarrow> string \<Rightarrow> string) \<Rightarrow> runner_fs \<Rightarrow> world \<Rightarrow> Config \<Rightarrow> (check_type, Checker) gomap"
where
  "newCheckers join fs w cfg =
     (let checkers =
        [(CheckTypeHTTP, as_checker CheckTypeHTTP http_probe (wo_http w) (wo_now w)),
         (CheckTypeSMTP, as_checker CheckTypeSMTP SMTP_Run (wo_smtp w) (wo_now w)),
         (CheckTypeTraceroute, as_checker CheckTypeTraceroute Traceroute_Run (wo_traceroute w) (wo_now w)),
         (CheckTypeTCP, as_checker CheckTypeTCP TCP_Run (wo_tcp w) (wo_now w)),
         (CheckTypeDNS, as_checker CheckTypeDNS dns_probe (wo_dns w) (wo_now w)),
         (CheckTypeICMP, as_checker CheckTypeICMP ICMP_Run (wo_icmp w) (wo_now w)),
         (CheckTypeGRPC, as_checker CheckTypeGRPC grpc_probe (wo_grpc w) (wo_now w)),
         (CheckTypeNTP, as_checker CheckTypeNTP NTP_Run (wo_ntp w) (wo_now w)),
         (CheckTypeTLS, as_checker CheckTypeTLS TLS_Run (wo_tls w) (wo_now w)),
         (CheckTypeUDP, as_checker CheckTypeUDP udp_probe (wo_udp w) (wo_now w)),
         (CheckTypeBGP, as_checker CheckTypeBGP bgp_probe (wo_bgp w) (wo_now w)),
         (CheckTypeDomainExpiry, as_checker CheckTypeDomainExpiry Domain_Run (wo_domain w) (wo_now w)),
         (CheckTypeWebSocket, as_checker CheckTypeWebSocket WebSocket_Run (wo_websocket w) (wo_now w))]
      in case NewRunner join fs of
           Inl err \<Rightarrow> checkers
         | Inr runner \<Rightarrow>
             (let serverURL = (if pw_mode (cfg_playwright cfg) = ''managed'' then pw_server_url (cfg_playwright cfg) else '''');
                  pc = NewPlaywrightChecker (RunnerPath join runner) (pw_max_browsers (cfg_playwright cfg)) serverURL
              in AList.update CheckTypePlaywright
                   (as_checker CheckTypePlaywright (Playwright_Run pc) (wo_playwright w) (wo_now w)) checkers))"

definition registry :: "(string \<Rightarrow> string \<Rightarrow> string) \<Rightarrow> runner_fs \<Rightarrow> world \<Rightarrow> Config \<Rightarrow> ProberRegistry" where
  "registry join fs w cfg = RegisterMap NewCheckerRegistry (newCheckers join fs w cfg)"

lemmas honest_runs = http.honest_run smtp.honest_run traceroute.honest_run tcp.honest_run dns.honest_run
  icmp.honest_run grpc.honest_run ntp.honest_run tls.honest_run udp.honest_run bgp.honest_run
  domain.honest_run websocket.honest_run playwright.honest_run

lemma newCheckers_honest: "\<forall>(t, ck) \<in> set (newCheckers join fs w cfg). honest t ck"
  by (auto simp: newCheckers_def Let_def honest_runs split: sum.split)

lemma newCheckers_keys:
  "map fst (newCheckers join fs w cfg) =
     [CheckTypeHTTP, CheckTypeSMTP, CheckTypeTraceroute, CheckTypeTCP,
       CheckTypeDNS, CheckTypeICMP, CheckTypeGRPC, CheckTypeNTP, CheckTypeTLS, CheckTypeUDP, CheckTypeBGP,
       CheckTypeDomainExpiry, CheckTypeWebSocket]
     @ (if isl (NewRunner join fs) then [] else [CheckTypePlaywright])"
  by (simp add: newCheckers_def Let_def split: sum.split)

lemma registry_map_of:
  "Get (registry join fs w cfg) t = map_of (newCheckers join fs w cfg) t"
proof -
  have "distinct (map fst (newCheckers join fs w cfg))" by (simp add: newCheckers_keys)
  then have "map_of (rev (newCheckers join fs w cfg)) = map_of (newCheckers join fs w cfg)"
    by (simp add: map_of_inject_set rev_map [symmetric])
  then show ?thesis by (simp add: registry_def RegisterMap_lookup NewCheckerRegistry_def split: option.split)
qed

text \<open>
  Property C24. The registry is well typed and complete: what is registered under a type is a checker
  of that type, all of whose results carry the name of the check and this type, and come without
  retries and unmarked; and every one of the fourteen check types has a checker, the browser type
  exactly when the runner script could be installed. So a check that loads is skipped by the
  scheduler only when it is a browser check without a runner.
\<close>

theorem registry_well_typed:
  "(\<forall>ck. Get (registry join fs w cfg) t = Some ck \<longrightarrow> honest t ck) \<and>
    (Get (registry join fs w cfg) t \<noteq> None \<longleftrightarrow>
      t \<in> set checkTypes \<and> (t = CheckTypePlaywright \<longrightarrow> (\<exists>r. NewRunner join fs = Inr r)))"
proof (intro conjI allI impI)
  show "honest t ck" if "Get (registry join fs w cfg) t = Some ck" for ck
    using that newCheckers_honest [of join fs w cfg] by (auto simp: registry_map_of dest!: map_of_SomeD)
next
  have "Get (registry join fs w cfg) t \<noteq> None \<longleftrightarrow> t \<in> set (map fst (newCheckers join fs w cfg))"
    by (simp add: registry_map_of map_of_eq_None_iff)
  also have "\<dots> \<longleftrightarrow> t \<in> set checkTypes \<and> (t = CheckTypePlaywright \<longrightarrow> (\<exists>r. NewRunner join fs = Inr r))"
    by (cases "NewRunner join fs") (auto simp: newCheckers_keys checkTypes_def)
  finally show "Get (registry join fs w cfg) t \<noteq> None \<longleftrightarrow>
      t \<in> set checkTypes \<and> (t = CheckTypePlaywright \<longrightarrow> (\<exists>r. NewRunner join fs = Inr r))" .
qed

section \<open>What the scheduler records\<close>

text \<open>Every goroutine runs a configured check with the checker registered for its type.\<close>

definition routine_ok :: "Scheduler \<Rightarrow> routine \<Rightarrow> bool" where
  "routine_ok sc g \<longleftrightarrow> g_check g \<in> set (sc_checks sc) \<and> Get (sc_registry sc) (c_type (g_check g)) = Some (g_checker g)"

lemma runInitial_ok:
  "g \<in> set (runInitial sc cs) \<Longrightarrow> g_check g \<in> set cs \<and> Get (sc_registry sc) (c_type (g_check g)) = Some (g_checker g)"
  by (induction cs) (auto simp: Let_def split: option.splits if_splits)

lemma set_phase_ok:
  assumes "\<forall>g \<in> set (ss_routines s). routine_ok sc g" "i < length (ss_routines s)"
  shows "\<forall>g \<in> set (ss_routines (set_phase i p s)). routine_ok sc g"
    "\<forall>g \<in> set (ss_routines (finish i s)). routine_ok sc g"
proof -
  have "routine_ok sc ((ss_routines s ! i) \<lparr> g_phase := p' \<rparr>)" for p'
    using assms by (simp add: routine_ok_def)
  then show "\<forall>g \<in> set (ss_routines (set_phase i p s)). routine_ok sc g"
    "\<forall>g \<in> set (ss_routines (finish i s)). routine_ok sc g"
    using assms(1) by (auto simp: set_phase_def finish_def dest!: set_update_subset_insert [THEN subsetD])
qed

lemma honest_from_call: "honest t ck \<Longrightarrow> honest t (from_call n ck)"
  by (simp add: honest_def from_call_def)

text \<open>A result of a configured check, as the metrics and the status store take it.\<close>

definition result_of :: "golib \<Rightarrow> CheckConfig list \<Rightarrow> Result \<Rightarrow> bool" where
  "result_of lib checks r \<longleftrightarrow>
     (\<exists>c \<in> set checks. r_name r = c_name c \<and> r_type r = c_type c \<and> r_group r = c_group c \<and> r_target r = Target lib c
        \<and> r_retries r \<in> {0 .. int (max_retries c)} \<and> (r_degraded r \<longrightarrow> r_success r \<and> 0 < c_degraded_after c))"

lemma published_result_of:
  assumes "c \<in> set checks" "honest (c_type c) ck"
  shows "result_of lib checks (published lib cancelled ck c og)"
  unfolding result_of_def
  using assms honest_published [OF assms(2), of lib cancelled c og]
  by (intro bexI [of _ c]) (auto simp: published_def)

lemma execute_recorded:
  "ss_recorded (execute lib c ck cfg og s) = ss_recorded s @ [published lib c ck cfg og]"
  by (simp add: execute_def publish_def published_def Let_def)

lemma phase_recorded [simp]:
  "ss_recorded (set_phase i p s) = ss_recorded s" "ss_recorded (finish i s) = ss_recorded s"
  by (simp_all add: set_phase_def finish_def)

lemma step_records:
  assumes "\<forall>t ck. Get (sc_registry sc) t = Some ck \<longrightarrow> honest t ck"
    and "\<forall>g \<in> set (ss_routines s). routine_ok sc g" "\<forall>r \<in> set (ss_recorded s). result_of lib (sc_checks sc) r"
    and "sched_step lib og e s = Some s'"
  shows "(\<forall>g \<in> set (ss_routines s'). routine_ok sc g) \<and> (\<forall>r \<in> set (ss_recorded s'). result_of lib (sc_checks sc) r)"
proof (cases e)
  case (Run i n c)
  let ?g = "ss_routines s ! i"
  let ?s1 = "execute lib c (from_call n (g_checker ?g)) (g_check ?g) og s"
  from Run assms(4) have i: "i < length (ss_routines s)"
    and s': "s' = (if g_recurring ?g then set_phase i Waiting ?s1 else finish i ?s1)"
    by (auto simp: in_phase_def Let_def split: if_splits)
  from i assms(2) have ok: "routine_ok sc ?g" by simp
  with assms(1) have "honest (c_type (g_check ?g)) (from_call n (g_checker ?g))"
    by (simp add: routine_ok_def honest_from_call)
  with ok have "result_of lib (sc_checks sc) (published lib c (from_call n (g_checker ?g)) (g_check ?g) og)"
    by (simp add: routine_ok_def published_result_of)
  with assms(3) have "\<forall>r \<in> set (ss_recorded s'). result_of lib (sc_checks sc) r"
    by (simp add: s' execute_recorded)
  moreover have "\<forall>g \<in> set (ss_routines s'). routine_ok sc g"
    using set_phase_ok(1) [of ?s1 sc i Waiting] set_phase_ok(2) [of ?s1 sc i] assms(2) i by (simp add: s')
  ultimately show ?thesis by blast
next
  case (TickFails i)
  with assms(4) have "i < length (ss_routines s)" "s' = finish i s" by (auto simp: in_phase_def split: if_splits)
  then show ?thesis using set_phase_ok(2) [OF assms(2)] assms(3) by simp
next
  case (SeesDone i)
  with assms(4) have "i < length (ss_routines s)" "s' = finish i s" by (auto simp: in_phase_def split: if_splits)
  then show ?thesis using set_phase_ok(2) [OF assms(2)] assms(3) by simp
next
  case (TimerFired i)
  with assms(4) obtain p where "i < length (ss_routines s)" "s' = set_phase i p s"
    by (auto simp: in_phase_def split: if_splits)
  then show ?thesis using set_phase_ok(1) [OF assms(2)] assms(3) by simp
next
  case (StaggerElapsed i)
  with assms(4) have "i < length (ss_routines s)" "s' = set_phase i Executing s"
    by (auto simp: in_phase_def split: if_splits)
  then show ?thesis using set_phase_ok(1) [OF assms(2)] assms(3) by simp
qed (use assms(2-4) in \<open>auto split: if_splits list.splits\<close>)

lemma reach_records:
  assumes "sched_reach cv lib sc s" and "\<forall>t ck. Get (sc_registry sc) t = Some ck \<longrightarrow> honest t ck"
  shows "(\<forall>g \<in> set (ss_routines s). routine_ok sc g) \<and> (\<forall>r \<in> set (ss_recorded s). result_of lib (sc_checks sc) r)"
  using assms(1)
proof (induction rule: sched_reach.induct)
  case start
  then show ?case
    using startLoops_ok [of _ cv sc "sc_checks sc"] runInitial_ok [of _ sc "sc_checks sc"]
    by (auto simp: Start_def Let_def routine_ok_def)
next
  case (step s e s')
  then show ?case using step_records [OF assms(2)] by blast
qed

lemma registry_results:
  assumes "sched_reach cv lib sc s" and "sc_registry sc = registry join fs w cfg"
    and "r \<in> set (ss_recorded s) \<union> set (ss_received s) \<union> set (ss_results s)"
  shows "result_of lib (sc_checks sc) r" and "configured (sc_checks sc) (checkKey (r_type r) (r_name r))"
proof -
  have "\<forall>t ck. Get (sc_registry sc) t = Some ck \<longrightarrow> honest t ck"
    using newCheckers_honest [of join fs w cfg] by (auto simp: assms(2) registry_map_of dest!: map_of_SomeD)
  note rec = reach_records [OF assms(1) this]
  have "set (ss_received s @ ss_results s) \<subseteq> set (ss_recorded s)"
    using sched_reach_inv [OF assms(1)] by (metis sched_inv_def subseq_order.order_trans subseq_singleton_left subsetI)
  with assms(3) have "r \<in> set (ss_recorded s)" by auto
  with rec show "result_of lib (sc_checks sc) r" by blast
  then show "configured (sc_checks sc) (checkKey (r_type r) (r_name r))"
    by (auto simp: result_of_def configured_def)
qed


section \<open>A concrete world\<close>

definition sample_fs :: runner_fs where
  "sample_fs = \<lparr> rf_temp_dir = ''/tmp'', rf_mkdir_all = (\<lambda>_. Some ''read-only file system''), rf_embedded = (\<lambda>_. Inr ''js''),
     rf_write_file = (\<lambda>_ _. None) \<rparr>"

definition sample_world :: world where
  "sample_world = \<lparr> wo_now = (\<lambda>j. int j * Second),
     wo_http = (\<lambda>_. (sample_lib, id, (\<lambda>_. Inl ''bad''), sample_http_env ''ok'', \<lparr> hs_clients = Map.empty, hs_regex = Map.empty \<rparr>)),
     wo_smtp = (\<lambda>_. \<lparr> sm_dial = (\<lambda>_. Some ''refused''), sm_client = None, sm_hello = (\<lambda>_. None), sm_starttls_advertised = False,
        sm_starttls = (\<lambda>_ _. None), sm_auth = (\<lambda>_ _. None), sm_total = 1 \<rparr>),
     wo_traceroute = (\<lambda>_. \<lparr> me_mtr = (\<lambda>_. MtrFailed ''exit status 1'' ''''), me_unmarshal = (\<lambda>_. Inr []), me_uni = id, me_elapsed = 1 \<rparr>),
     wo_tcp = (\<lambda>j. (id, if j = 0 then sample_tcp_env \<lparr> tc_dial := (\<lambda>_ _. Some ''refused'') \<rparr> else sample_tcp_env)),
     wo_dns = (\<lambda>_. (sample_dns_env, Map.empty)), wo_icmp = (\<lambda>_. sample_icmp_env),
     wo_grpc = (\<lambda>_. (\<lparr> gr_new_client = (\<lambda>_. None), gr_check = (\<lambda>_ _. Inr 1), gr_status_text = itoa, gr_total = 1 \<rparr>, Map.empty)),
     wo_ntp = (\<lambda>_. sample_ntp_env), wo_tls = (\<lambda>_. sample_tls_env 0), wo_udp = (\<lambda>_. (id, sample_udp_env)),
     wo_bgp = (\<lambda>_. (1, BadStatus 500, RpkiNoAnswer, Map.empty)), wo_domain = (\<lambda>_. sample_rdap 0),
     wo_websocket = (\<lambda>_. (sample_lib, id, \<lparr> we_url_error = ''bad'', we_config = (\<lambda>_ _. Some ''bad''), we_dial = (\<lambda>_ _. WsFailed ''refused''),
        we_send = (\<lambda>_. None), we_receive = Inl ''eof'', we_connect_time = 1, we_message_time = 1, we_total = 1 \<rparr>)),
     wo_playwright = (\<lambda>_. sample_pw_env) \<rparr>"

definition world_sched :: Scheduler where
  "world_sched = \<lparr> sc_cfg = zeroConfig, sc_checks = [sample_tcp], sc_registry = registry (@) sample_fs sample_world zeroConfig,
     sc_origin = None \<rparr>"

lemma sample_no_runner: "NewRunner (@) sample_fs = Inl ''creating scripts dir: read-only file system''"
  by (simp add: NewRunner_def sample_fs_def)

theorem registry_well_typed_witness:
  "(\<exists>ck. Get (registry (@) sample_fs sample_world zeroConfig) CheckTypeTCP = Some ck \<and> honest CheckTypeTCP ck)
   \<and> Get (registry (@) sample_fs sample_world zeroConfig) CheckTypePlaywright = None"
proof -
  have "Get (registry (@) sample_fs sample_world zeroConfig) CheckTypeTCP \<noteq> None"
    using registry_well_typed [of "(@)" sample_fs sample_world zeroConfig CheckTypeTCP] by (simp add: checkTypes_def)
  then obtain ck where "Get (registry (@) sample_fs sample_world zeroConfig) CheckTypeTCP = Some ck" by blast
  with registry_well_typed [of "(@)" sample_fs sample_world zeroConfig CheckTypeTCP]
    registry_well_typed [of "(@)" sample_fs sample_world zeroConfig CheckTypePlaywright] sample_no_runner
  show ?thesis by auto
qed

lemma world_first_run:
  "\<exists>s r. sched_reach (\<lambda>_. True) sample_lib world_sched s \<and> ss_recorded s = [r] \<and> ss_results s = [r] \<and> ss_received s = []"
proof -
  let ?start = "Start (\<lambda>_. True) world_sched"
  let ?g = "ss_routines ?start ! 1"
  have "Get (registry (@) sample_fs sample_world zeroConfig) (c_type sample_tcp) \<noteq> None"
    using newCheckers_keys [of "(@)" sample_fs sample_world zeroConfig]
    by (simp add: registry_map_of map_of_eq_None_iff sample_tcp_def newCheckers_def Let_def sample_no_runner)
  then obtain ck where ck: "Get (sc_registry world_sched) (c_type sample_tcp) = Some ck"
    by (auto simp: world_sched_def)
  have rs: "length (ss_routines ?start) = 2" "g_phase ?g = Executing" "\<not> g_recurring ?g"
    using ck by (simp_all add: Start_def world_sched_def Let_def ComputeStagger_def)
  let ?run = "execute sample_lib (\<lambda>_. False) (from_call 0 (g_checker ?g)) (g_check ?g) (sc_origin world_sched) ?start"
  have "sched_step sample_lib (sc_origin world_sched) (Run 1 0 (\<lambda>_. False)) ?start = Some (finish 1 ?run)"
    using rs by (simp add: in_phase_def Let_def)
  from sched_reach.step [OF sched_reach.start this]
  have reach: "sched_reach (\<lambda>_. True) sample_lib world_sched (finish 1 ?run)" .
  moreover have "\<exists>r. ss_recorded (finish 1 ?run) = [r] \<and> ss_results (finish 1 ?run) = [r] \<and> ss_received (finish 1 ?run) = []"
    by (simp add: finish_def set_phase_def execute_def publish_def Let_def Start_def results_capacity_def)
  ultimately show ?thesis by blast
qed


end
