(* ===== verification/Commands.thy ===== *)
theory Commands
  imports Checkers Check_Filter Notify_Senders
begin

text \<open>
  The one-shot commands: \<open>check run\<close> (\<open>cmd/check.go\<close>) and \<open>test-webhook\<close>
  (\<open>cmd/test_webhook.go\<close>), and the choice of the logger (\<open>cmd/root.go\<close>). Loading the
  configuration and the checks are arguments, the outcomes of \<open>Load\<close> and \<open>LoadChecks\<close>; the text of
  a duration, \<open>Duration.String\<close>, is the argument \<open>show\<close>.
\<close>

section \<open>Logging\<close>

datatype level = LevelDebug | LevelInfo | LevelWarn | LevelError

datatype log_handler = JSONHandler level | TextHandler level

definition parseLevel :: "string \<Rightarrow> level" where
  "parseLevel lv =
     (let l = ToLower lv
      in if l = ''debug'' then LevelDebug else if l = ''warn'' then LevelWarn
         else if l = ''error'' then LevelError else LevelInfo)"

definition newLogHandler :: "string \<Rightarrow> string \<Rightarrow> log_handler" where
  "newLogHandler format lv = (if EqualFold format ''json'' then JSONHandler (parseLevel lv) else TextHandler (parseLevel lv))"

definition applyLogConfig :: "string \<Rightarrow> LoggingConfig \<Rightarrow> log_handler" where
  "applyLogConfig flag lc = newLogHandler (lg_format lc) (if flag = '''' then lg_level lc else flag)"

section \<open>Running checks\<close>

datatype run_error = CheckNotFound string | RunCmd cmd_error

definition selectChecks ::
  "filter_flags \<Rightarrow> CheckFilter \<Rightarrow> string \<Rightarrow> config_error + CheckConfig list \<Rightarrow> run_error + CheckConfig list"
where
  "selectChecks fl cfgFilter checkName loaded =
     (if checkName \<noteq> ''''
      then (case loaded of
              Inl e \<Rightarrow> Inl (RunCmd (LoadingChecks e))
            | Inr checks \<Rightarrow>
                (case FindCheckByName checks checkName of
                   None \<Rightarrow> Inl (CheckNotFound checkName)
                 | Some p \<Rightarrow> Inr [p]))
      else (case loadFilteredChecks fl cfgFilter loaded of
              Inl e \<Rightarrow> Inl (RunCmd e)
            | Inr checks \<Rightarrow> Inr checks))"

text \<open>The loop; \<open>n\<close> counts the invocations of checkers.\<close>

fun runLoop :: "(check_type, Checker) gomap \<Rightarrow> Origin option \<Rightarrow> nat \<Rightarrow> Result list \<Rightarrow> CheckConfig list \<Rightarrow> Result list" where
  "runLoop checkers origin n results [] = results"
| "runLoop checkers origin n results (pc # pcs) =
     (case map_of checkers (c_type pc) of
        None \<Rightarrow> runLoop checkers origin n results pcs
      | Some ck \<Rightarrow> runLoop checkers origin (Suc n) (results @ [ck_run ck n pc origin]) pcs)"

record checkResultOutput =
  co_name :: string
  co_type :: check_type
  co_success :: bool
  co_duration :: float64
  co_error :: string
  co_status :: int
  co_dns :: float64
  co_tls :: float64
  co_connect :: float64
  co_ttfb :: float64
  co_transfer :: float64
  co_body_bytes :: int

definition jsonOutput :: "Result \<Rightarrow> checkResultOutput" where
  "jsonOutput r = \<lparr> co_name = r_name r, co_type = r_type r, co_success = r_success r, co_duration = seconds (r_duration r),
     co_error = r_error r, co_status = r_status_code r, co_dns = seconds (r_dns_duration r), co_tls = seconds (r_tls_duration r),
     co_connect = seconds (r_conn_duration r), co_ttfb = seconds (r_ttfb_duration r), co_transfer = seconds (r_transfer_duration r),
     co_body_bytes = r_response_bytes r \<rparr>"

text \<open>\<open>Duration.Round(time.Millisecond)\<close>: halves away from zero, saturating.\<close>

definition round_ms :: "duration \<Rightarrow> duration" where
  "round_ms d =
     (if d < 0
      then (let r = (- d) mod Millisecond in if r + r < Millisecond then d + r else max (- (2 ^ 63)) (d - (Millisecond - r)))
      else (let r = d mod Millisecond in if r + r < Millisecond then d - r else min (2 ^ 63 - 1) (d + (Millisecond - r))))"

definition textLine :: "(duration \<Rightarrow> string) \<Rightarrow> Result \<Rightarrow> string" where
  "textLine show r =
     ''['' @ (if \<not> r_success r then ''DOWN'' else ''UP'') @ ''] '' @ r_name r @ '' ('' @ r_type r @ '') '' @ em_dash @ '' ''
     @ show (round_ms (r_duration r)) @ '' ('' @ fmt_fixed 3 (seconds (r_duration r)) @ ''s)''
     @ (if r_error r \<noteq> '''' then '' error='' @ r_error r else '''')
     @ (if r_status_code r > 0 then '' status='' @ itoa (r_status_code r) else '''')"

datatype cmd_output = JSONOutput "checkResultOutput list" | TextOutput "string list"

definition outputResults :: "(duration \<Rightarrow> string) \<Rightarrow> Result list \<Rightarrow> string \<Rightarrow> cmd_output" where
  "outputResults show results format =
     (if ToLower format = ''json'' then JSONOutput (map jsonOutput results)
      else TextOutput (map (textLine show) results))"

definition runCheck ::
  "(duration \<Rightarrow> string) \<Rightarrow> (check_type, Checker) gomap \<Rightarrow> Config \<Rightarrow> string \<Rightarrow> filter_flags \<Rightarrow> string \<Rightarrow> string
     \<Rightarrow> config_error + CheckConfig list \<Rightarrow> run_error + cmd_output"
where
  "runCheck show checkers cfg originID fl checkName checkOutput loaded =
     (case selectChecks fl (cfg_check_filter cfg) checkName loaded of
        Inl e \<Rightarrow> Inl e
      | Inr toRun \<Rightarrow> Inr (outputResults show (runLoop checkers (ResolveOrigin cfg originID) 0 [] toRun) checkOutput))"

section \<open>Testing the webhooks\<close>

definition testEvent :: "gotime \<Rightarrow> Event" where
  "testEvent now = \<lparr> ev_type = EventCheckDown, ev_severity = '''', ev_check = ''test-alert'', ev_check_type = ''http'',
     ev_message = ''Test alert - webhook pipeline validation'',
     ev_details = [(''error'', ''This is a test. No action required.'')], ev_timestamp = now \<rparr>"

definition testSender :: "WebhookConfig \<Rightarrow> Sender" where
  "testSender wc =
     (if wc_type wc = ''discord'' then DiscordSender (wc_url wc)
      else if wc_type wc = ''slack'' then SlackSender (wc_url wc)
      else GenericSender (wc_url wc))"

fun webhookLoop :: "poster \<Rightarrow> Event \<Rightarrow> nat \<Rightarrow> WebhookConfig list \<Rightarrow> nat" where
  "webhookLoop post ev nfail [] = nfail"
| "webhookLoop post ev nfail (wc # wcs) =
     webhookLoop post ev
       (case Send post (testSender wc) ev of Some err \<Rightarrow> nfail + 1 | None \<Rightarrow> nfail) wcs"

definition runTestWebhook :: "poster \<Rightarrow> gotime \<Rightarrow> string \<Rightarrow> Config \<Rightarrow> string option" where
  "runTestWebhook post now cfgFile cfg =
     (if length (cfg_webhooks cfg) = 0 then Some (''no webhooks configured in '' @ cfgFile)
      else
        (let nfail = webhookLoop post (testEvent now) 0 (cfg_webhooks cfg)
         in if nfail > 0
            then Some (itoa (int nfail) @ '' of '' @ itoa (int (length (cfg_webhooks cfg))) @ '' webhooks failed'')
            else None))"

section \<open>What the commands report\<close>

lemma runLoop_heads:
  assumes "\<forall>(t, ck) \<in> set checkers. honest t ck"
  shows "map (\<lambda>r. (r_name r, r_type r)) (runLoop checkers og n [] pcs) =
    map (\<lambda>pc. (c_name pc, c_type pc)) (filter (\<lambda>pc. map_of checkers (c_type pc) \<noteq> None) pcs)"
proof -
  have h: "honest (c_type pc) ck" if "map_of checkers (c_type pc) = Some ck" for pc ck
    using assms that by (auto dest: map_of_SomeD)
  have "map (\<lambda>r. (r_name r, r_type r)) (runLoop checkers og n results pcs) = map (\<lambda>r. (r_name r, r_type r)) results @
    map (\<lambda>pc. (c_name pc, c_type pc)) (filter (\<lambda>pc. map_of checkers (c_type pc) \<noteq> None) pcs)" for results
  proof (induction pcs arbitrary: n results)
    case (Cons pc pcs)
    then show ?case using h [of pc] by (auto simp: honest_def split: option.split)
  qed simp
  then show ?thesis by simp
qed

text \<open>
  \<open>check run\<close> reports one result for each selected check that has a checker, in the
  order of the configuration and under its name and type, whatever the network answers, and it reports
  them whether they are up or down; the selection is the check of the given name even when the
  configured filter excludes it, or the checks the filter lets through.
\<close>

theorem runCheck_reports:
  assumes "runCheck show (newCheckers join fs w cfg) cfg originID fl checkName format (Inr checks) = Inr out"
  shows "\<exists>toRun results. selectChecks fl (cfg_check_filter cfg) checkName (Inr checks) = Inr toRun
      \<and> out = outputResults show results format
      \<and> map (\<lambda>r. (r_name r, r_type r)) results =
          map (\<lambda>pc. (c_name pc, c_type pc)) (filter (\<lambda>pc. Get (registry join fs w cfg) (c_type pc) \<noteq> None) toRun)
      \<and> (if checkName = '''' then set toRun \<subseteq> set checks
         else (\<exists>c. toRun = [c] \<and> c \<in> set checks \<and> c_name c = checkName))"
proof -
  from assms obtain toRun where sel: "selectChecks fl (cfg_check_filter cfg) checkName (Inr checks) = Inr toRun"
    and out: "out = outputResults show (runLoop (newCheckers join fs w cfg) (ResolveOrigin cfg originID) 0 [] toRun) format"
    by (auto simp: runCheck_def split: sum.splits)
  have found: "FindCheckByName cs n = Some c \<Longrightarrow> c \<in> set cs \<and> c_name c = n" for cs n c
    by (induction cs n rule: FindCheckByName.induct) (auto split: if_splits)
  have "if checkName = '''' then set toRun \<subseteq> set checks else (\<exists>c. toRun = [c] \<and> c \<in> set checks \<and> c_name c = checkName)"
    using sel found [of checks checkName]
    by (auto simp: selectChecks_def loadFilteredChecks_spec split: if_splits sum.splits option.splits)
  with sel out runLoop_heads [OF newCheckers_honest, of join fs w cfg "ResolveOrigin cfg originID" 0 toRun]
  show ?thesis
    by (intro exI [of _ toRun] exI [of _ "runLoop (newCheckers join fs w cfg) (ResolveOrigin cfg originID) 0 [] toRun"])
       (simp add: registry_map_of)
qed

definition no_flags :: filter_flags where
  "no_flags = \<lparr> filterTypes = '''', filterGroups = '''', filterTags = '''' \<rparr>"

theorem runCheck_reports_witness:
  "\<exists>r. runCheck itoa (newCheckers (@) sample_fs sample_world zeroConfig) zeroConfig '''' no_flags ''ssh'' ''text'' (Inr [sample_tcp])
      = Inr (outputResults itoa [r] ''text'') \<and> r_name r = ''ssh'' \<and> r_type r = CheckTypeTCP"
proof -
  have n: "c_name sample_tcp = ''ssh''" "c_type sample_tcp = CheckTypeTCP" by (simp_all add: sample_tcp_def)
  have sel: "selectChecks no_flags (cfg_check_filter zeroConfig) ''ssh'' (Inr [sample_tcp]) = Inr [sample_tcp]"
    by (simp add: selectChecks_def n)
  then obtain out where run: "runCheck itoa (newCheckers (@) sample_fs sample_world zeroConfig) zeroConfig '''' no_flags
      ''ssh'' ''text'' (Inr [sample_tcp]) = Inr out"
    by (simp add: runCheck_def)
  have "Get (registry (@) sample_fs sample_world zeroConfig) CheckTypeTCP \<noteq> None"
    by (simp add: registry_map_of map_of_eq_None_iff newCheckers_keys flip: set_map)
  with runCheck_reports [OF run] sel n run show ?thesis
    by (auto simp: map_eq_Cons_conv)
qed

text \<open>
  The webhook test uses the sender the notification manager would use, posts once to every webhook,
  and fails exactly when a post did not get a 2xx answer.
\<close>

lemma testSender_manager: "testSender wc = wh_sender (newWebhook wc)"
  by (simp add: testSender_def newWebhook_def)

lemma webhookLoop_count:
  "webhookLoop post ev nfail wcs = nfail + length (filter (\<lambda>wc. Send post (testSender wc) ev \<noteq> None) wcs)"
  by (induction wcs arbitrary: nfail) (auto split: option.split)

lemma runTestWebhook_ok:
  "runTestWebhook post now cfgFile cfg = None \<longleftrightarrow>
     cfg_webhooks cfg \<noteq> []
     \<and> (\<forall>wc \<in> set (cfg_webhooks cfg). \<exists>code. post (sender_url (testSender wc)) (payload_of (testSender wc) (testEvent now)) = Responded code
          \<and> 200 \<le> code \<and> code < 300)"
  by (auto simp: runTestWebhook_def webhookLoop_count Let_def filter_empty_conv Send_ok [symmetric])

lemma applyLogConfig_flag: "flag \<noteq> '''' \<Longrightarrow> applyLogConfig flag lc = newLogHandler (lg_format lc) flag"
  by (simp add: applyLogConfig_def)

end
