(* ===== verification/Blackbox.thy ===== *)
theory Blackbox
  imports Checkers
begin

text \<open>
  The endpoint \<open>/probe\<close>, \<open>internal/exporter/blackbox.go\<close>: one run of a checker on a target given in
  the query, answered with gauges. A missing query parameter is the empty string. The answer is the
  HTTP error or the gauges of the fresh Prometheus registry in the order of their registration; their
  rendering is that of the Prometheus client.
\<close>

datatype probe_response = HTTPError nat string | Gauges "(string \<times> float64) list"

definition NewBlackboxHandler :: "world \<Rightarrow> (string, Checker) gomap" where
  "NewBlackboxHandler w =
     [(''http_2xx'', as_checker CheckTypeHTTP http_probe (wo_http w) (wo_now w)),
      (''smtp'', as_checker CheckTypeSMTP SMTP_Run (wo_smtp w) (wo_now w)),
      (''tcp'', as_checker CheckTypeTCP TCP_Run (wo_tcp w) (wo_now w)),
      (''dns'', as_checker CheckTypeDNS dns_probe (wo_dns w) (wo_now w)),
      (''icmp'', as_checker CheckTypeICMP ICMP_Run (wo_icmp w) (wo_now w)),
      (''grpc'', as_checker CheckTypeGRPC grpc_probe (wo_grpc w) (wo_now w)),
      (''udp'', as_checker CheckTypeUDP udp_probe (wo_udp w) (wo_now w))]"

definition buildCheckConfig :: "string \<Rightarrow> string \<Rightarrow> CheckConfig" where
  "buildCheckConfig target modul =
     (let timeout = 30 * Second;
          cfg = (emptyCheck zeroYAML) \<lparr> c_name := target, c_timeout := timeout \<rparr>
      in if modul = ''smtp'' then
           cfg \<lparr> c_type := CheckTypeSMTP,
             c_smtp := Some \<lparr> s_host = target, s_port = 25, s_timeout = 0, s_start_tls = False, s_skip_tls = False,
                              s_username = '''', s_password = '''' \<rparr> \<rparr>
         else if modul = ''tcp'' then
           cfg \<lparr> c_type := CheckTypeTCP,
             c_tcp := Some \<lparr> t_host = target, t_port = 443, t_ip_version = '''', t_tls = False, t_min_tls = '''',
                             t_max_tls = '''', t_send = '''', t_expect_recv = '''' \<rparr> \<rparr>
         else if modul = ''dns'' then
           cfg \<lparr> c_type := CheckTypeDNS,
             c_dns := Some \<lparr> d_domain = target, d_server = ''8.8.8.8:53'', d_record_type = ''A'', d_expected = [] \<rparr> \<rparr>
         else if modul = ''icmp'' then
           cfg \<lparr> c_type := CheckTypeICMP, c_icmp := Some \<lparr> i_host = target, i_count = 3, i_ip_version = '''' \<rparr> \<rparr>
         else if modul = ''grpc'' then
           cfg \<lparr> c_type := CheckTypeGRPC,
             c_grpc := Some \<lparr> g_host = target, g_service = '''', g_tls = False, g_skip_tls = False \<rparr> \<rparr>
         else if modul = ''udp'' then
           cfg \<lparr> c_type := CheckTypeUDP,
             c_udp := Some \<lparr> ud_host = target, ud_port = 53, ud_ip_version = '''', ud_send = [CHR 0x00], ud_send_hex = '''',
                             ud_expect_response = None, ud_expect_recv = '''', ud_max_response_bytes = 0 \<rparr> \<rparr>
         else
           cfg \<lparr> c_type := CheckTypeHTTP,
             c_http := Some \<lparr> h_url = target, h_method = ''GET'', h_expected_status = 200, h_headers = [], h_body = '''',
                              h_skip_tls = False, h_follow_redirects = False, h_ip_version = '''', h_min_tls = '''',
                              h_max_tls = '''', h_basic_auth = None, h_bearer_token = '''', h_proxy = '''',
                              h_assertions = [] \<rparr> \<rparr>)"

definition probeGauges :: "duration \<Rightarrow> Result \<Rightarrow> (string \<times> float64) list" where
  "probeGauges d result =
     [(''probe_success'', if r_success result then 1 else 0), (''probe_duration_seconds'', seconds d)]
     @ (if r_status_code result > 0 then [(''probe_http_status_code'', of_int (r_status_code result))] else [])
     @ (if r_dns_duration result > 0 then [(''probe_dns_lookup_time_seconds'', seconds (r_dns_duration result))] else [])
     @ (if r_tls_duration result > 0 then [(''probe_tls_duration_seconds'', seconds (r_tls_duration result))] else [])"

text \<open>The handler, in the \<open>n\<close>-th invocation of the checkers, which takes the time \<open>d\<close>.\<close>

definition ServeHTTP :: "world \<Rightarrow> nat \<Rightarrow> duration \<Rightarrow> string \<Rightarrow> string \<Rightarrow> probe_response" where
  "ServeHTTP w n d target moduleParam =
     (if target = '''' then HTTPError 400 ''missing target parameter''
      else
        (let modul = (if moduleParam = '''' then ''http_2xx'' else moduleParam)
         in case map_of (NewBlackboxHandler w) modul of
              None \<Rightarrow> HTTPError 400 (''unknown module: '' @ modul)
            | Some ck \<Rightarrow> Gauges (probeGauges d (ck_run ck n (buildCheckConfig target modul) None))))"

definition DebugHandler :: "string \<Rightarrow> string \<Rightarrow> CheckConfig" where
  "DebugHandler target modul = buildCheckConfig target (if modul = '''' then ''http_2xx'' else modul)"

section \<open>What a probe answers\<close>

definition modules :: "string list" where
  "modules = [''http_2xx'', ''smtp'', ''tcp'', ''dns'', ''icmp'', ''grpc'', ''udp'']"

lemma modules_handler: "map_of (NewBlackboxHandler w) m \<noteq> None \<longleftrightarrow> m \<in> set modules"
  by (auto simp: NewBlackboxHandler_def modules_def)

text \<open>The configuration that is built has the section of the checker's type and no other one.\<close>

lemma emptyCheck_sections [simp]:
  "c_http (emptyCheck r) = None" "c_smtp (emptyCheck r) = None" "c_traceroute (emptyCheck r) = None"
  "c_playwright (emptyCheck r) = None" "c_tcp (emptyCheck r) = None" "c_dns (emptyCheck r) = None"
  "c_icmp (emptyCheck r) = None" "c_grpc (emptyCheck r) = None" "c_ntp (emptyCheck r) = None"
  "c_tls (emptyCheck r) = None" "c_udp (emptyCheck r) = None" "c_bgp (emptyCheck r) = None"
  "c_domain_expiry (emptyCheck r) = None" "c_websocket (emptyCheck r) = None"
  by (simp_all add: emptyCheck_def)

lemma buildCheckConfig_well_typed: "well_typed (buildCheckConfig target m)"
  by (simp add: buildCheckConfig_def Let_def well_typed_def sub_configs_def checkTypes_def)

lemma buildCheckConfig_head:
  "c_name (buildCheckConfig target m) = target" "c_timeout (buildCheckConfig target m) = 30 * Second"
  by (simp_all add: buildCheckConfig_def Let_def)

lemma buildCheckConfig_type:
  "c_type (buildCheckConfig target m) =
     (if m \<in> {''smtp'', ''tcp'', ''dns'', ''icmp'', ''grpc'', ''udp''} then m else CheckTypeHTTP)"
  by (simp add: buildCheckConfig_def Let_def)

lemma handler_honest:
  "map_of (NewBlackboxHandler w) m = Some ck \<Longrightarrow> honest (c_type (buildCheckConfig target m)) ck"
  by (auto simp: NewBlackboxHandler_def buildCheckConfig_type honest_runs split: if_splits)

lemma probeGauges_get:
  "map_of (probeGauges d r) ''probe_success'' = Some (if r_success r then 1 else 0)"
  "map_of (probeGauges d r) ''probe_duration_seconds'' = Some (seconds d)"
  "map_of (probeGauges d r) ''probe_http_status_code'' = (if r_status_code r > 0 then Some (of_int (r_status_code r)) else None)"
  "distinct (map fst (probeGauges d r))"
  by (simp_all add: probeGauges_def)

text \<open>
  The probe endpoint: it answers with an error, always status 400, exactly when the
  target is missing or the module unknown; otherwise it runs the checker of the module once on a
  configuration for the target that has the section of the checker's type and no other, and
  answers with gauges of distinct names, of which \<open>probe_success\<close> is 1 or 0 as the run succeeded.
\<close>

theorem ServeHTTP_answers:
  assumes "m' = (if m = '''' then ''http_2xx'' else m)" and "cfg = buildCheckConfig target m'"
  shows "case ServeHTTP w n d target m of
      HTTPError code msg \<Rightarrow> code = 400 \<and> (target = '''' \<or> m' \<notin> set modules)
    | Gauges gs \<Rightarrow> target \<noteq> '''' \<and> well_typed cfg \<and> c_name cfg = target \<and> distinct (map fst gs)
        \<and> (\<exists>ck. map_of (NewBlackboxHandler w) m' = Some ck \<and> honest (c_type cfg) ck
             \<and> map_of gs ''probe_success'' = Some (if r_success (ck_run ck n cfg None) then 1 else 0))"
proof (cases "target = '''' \<or> map_of (NewBlackboxHandler w) m' = None")
  case True
  then show ?thesis using modules_handler [of w m'] by (auto simp: ServeHTTP_def Let_def assms(1))
next
  case False
  then obtain ck where ck: "map_of (NewBlackboxHandler w) m' = Some ck" and "target \<noteq> ''''" by auto
  with handler_honest [OF ck, of target] show ?thesis
    using assms by (simp add: ServeHTTP_def Let_def probeGauges_get buildCheckConfig_well_typed buildCheckConfig_head)
qed

text \<open>
  For the default module the gauge is 1 exactly when the target answered with status 200: another
  2xx status is a failure, and so is a redirect, which is not followed.
\<close>

lemma probe_http_2xx:
  assumes "wo_http w n = (lib, uni, compile, env, st)" "http_ok lib compile st" "he_bad_request env = None"
    and "target \<noteq> ''''" "m \<in> {'''', ''http_2xx''}" "c_http (buildCheckConfig target ''http_2xx'') = Some h"
    and "ServeHTTP w n d target m = Gauges gs"
  shows "map_of gs ''probe_success'' = Some 1 \<longleftrightarrow> (\<exists>hd body. http_answer_of lib env h = Response 200 hd body)"
proof -
  let ?cfg = "buildCheckConfig target ''http_2xx''"
  obtain r st' where run: "HTTP_Run lib uni compile env (wo_now w n) ?cfg None st = (r, st')" by fastforce
  have h: "h_expected_status h = 200" "h_assertions h = []"
    using assms(6) by (auto simp: buildCheckConfig_def Let_def)
  obtain answer tr where t: "he_transport env (newClient lib (clientKey h)) (buildRequest h) = (answer, tr)" by fastforce
  note ans = HTTP_Run_answered [OF assms(2,6,3) t run]
  have "patterns_ok compile (hs_regex st)" using assms(2) by (simp add: http_ok_def)
  from judgeAnswer_spec [OF this refl ans(1)] h
  have "r_success r \<longleftrightarrow> (\<exists>hd body. http_answer_of lib env h = Response 200 hd body)"
    by (auto simp: http_answer_of_def t split: http_answer.splits)
  moreover have "gs = probeGauges d r"
    using assms(1,4,5,7) run
    by (auto simp: ServeHTTP_def NewBlackboxHandler_def Let_def as_checker_def http_probe_def)
  ultimately show ?thesis by (simp add: probeGauges_get)
qed

text \<open>A world in which every HTTP target answers 204.\<close>

definition env204 :: http_env where
  "env204 = (sample_http_env '''') \<lparr> he_transport := (\<lambda>c q. (Response 204 Map.empty '''', snd (he_transport (sample_http_env '''') c q))) \<rparr>"

definition world204 :: world where
  "world204 = sample_world \<lparr> wo_http := (\<lambda>_. (sample_lib, id, (\<lambda>_. Inl ''bad''), env204, newHTTPState)) \<rparr>"

lemma no_content_is_failure:
  assumes "ServeHTTP world204 n d target ''http_2xx'' = Gauges gs"
  shows "map_of gs ''probe_success'' \<noteq> Some 1"
proof -
  have t: "target \<noteq> ''''" using assms by (auto simp: ServeHTTP_def)
  obtain h where h: "c_http (buildCheckConfig target ''http_2xx'') = Some h"
    by (simp add: buildCheckConfig_def)
  have env: "he_bad_request env204 = None" by (simp add: env204_def sample_http_env_def)
  have w: "wo_http world204 n = (sample_lib, id, (\<lambda>_. Inl ''bad''), env204, newHTTPState)"
    by (simp add: world204_def)
  have "http_answer_of sample_lib env204 h = Response 204 Map.empty ''''"
    by (simp add: http_answer_of_def env204_def)
  with probe_http_2xx [OF w newHTTPState_ok env t _ h assms] show ?thesis by simp
qed

theorem ServeHTTP_answers_witness:
  "(case ServeHTTP world204 0 9 ''http://example.org'' '''' of
      HTTPError code msg \<Rightarrow> False
    | Gauges gs \<Rightarrow> map_of gs ''probe_success'' \<in> {Some 0, Some 1} \<and> distinct (map fst gs))
   \<and> (case ServeHTTP world204 0 9 ''http://example.org'' ''http_3xx'' of HTTPError code msg \<Rightarrow> code = 400 | Gauges gs \<Rightarrow> False)"
  using ServeHTTP_answers [OF refl refl, where w = world204 and n = 0 and d = 9 and target = "''http://example.org''" and m = "''''"]
    ServeHTTP_answers [OF refl refl, where w = world204 and n = 0 and d = 9 and target = "''http://example.org''" and m = "''http_3xx''"]
  by (simp add: modules_def NewBlackboxHandler_def split: probe_response.splits)

end
