(* ===== verification/Remote_Write.thy ===== *)
theory Remote_Write
  imports Go_Text "HOL-Library.Word" "HOL-Library.Multiset"
begin

text \<open>
  The remote-write client, \<open>internal/remotewrite/remotewrite.go\<close>: the protobuf encoding of the
  gathered metrics, one push, and the loop over the ticks.

  The append functions of the package \<open>protowire\<close> are the record \<open>protowire\<close>, an argument of the
  encoders, together with the consume functions a receiver uses; the locale \<open>protowire_laws\<close> states
  their documented behaviour: what is appended follows what was there, and is consumed again as it
  was. Strings and byte slices are both \<open>string\<close>. \<open>bits\<close> is \<open>math.Float64bits\<close>, \<open>compress\<close> is
  \<open>snappy.Encode\<close>; credentials, signature and transport are arguments of \<open>push\<close>.
\<close>

section \<open>The wire format\<close>

datatype wire_type = VarintType | Fixed64Type | BytesType

record protowire =
  AppendTag :: "string \<Rightarrow> nat \<Rightarrow> wire_type \<Rightarrow> string"
  AppendBytes :: "string \<Rightarrow> string \<Rightarrow> string"
  AppendString :: "string \<Rightarrow> string \<Rightarrow> string"
  AppendFixed64 :: "string \<Rightarrow> 64 word \<Rightarrow> string"
  AppendVarint :: "string \<Rightarrow> 64 word \<Rightarrow> string"
  ConsumeTag :: "string \<Rightarrow> ((nat \<times> wire_type) \<times> string) option"
  ConsumeBytes :: "string \<Rightarrow> (string \<times> string) option"
  ConsumeFixed64 :: "string \<Rightarrow> (64 word \<times> string) option"
  ConsumeVarint :: "string \<Rightarrow> (64 word \<times> string) option"

locale protowire_laws =
  fixes pw :: protowire
  assumes tag_append: "AppendTag pw b n t = b @ AppendTag pw '''' n t"
    and bytes_append: "AppendBytes pw b v = b @ AppendBytes pw '''' v"
    and string_bytes: "AppendString pw b v = AppendBytes pw b v"
    and fixed_append: "AppendFixed64 pw b x = b @ AppendFixed64 pw '''' x"
    and varint_append: "AppendVarint pw b x = b @ AppendVarint pw '''' x"
    and tag_consume: "1 \<le> n \<Longrightarrow> n < 2 ^ 29 \<Longrightarrow> ConsumeTag pw (AppendTag pw '''' n t @ rest) = Some ((n, t), rest)"
    and bytes_consume: "ConsumeBytes pw (AppendBytes pw '''' v @ rest) = Some (v, rest)"
    and fixed_consume: "ConsumeFixed64 pw (AppendFixed64 pw '''' x @ rest) = Some (x, rest)"
    and varint_consume: "ConsumeVarint pw (AppendVarint pw '''' x @ rest) = Some (x, rest)"
    and tag_nonempty: "AppendTag pw '''' n t \<noteq> ''''"

section \<open>Encoding\<close>

datatype metric_type = COUNTER | GAUGE | SUMMARY | UNTYPED | HISTOGRAM | GAUGE_HISTOGRAM

record dto_metric =
  dm_labels :: "(string \<times> string) list"
  dm_gauge :: "float64 option"
  dm_counter :: "float64 option"
  dm_untyped :: "float64 option"

record metric_family =
  mf_name :: string
  mf_type :: metric_type
  mf_metrics :: "dto_metric list"

definition metricPrefix :: string where
  "metricPrefix = ''technician_''"

text \<open>The getters of the generated structs return the zero value for a missing message.\<close>

definition get_value :: "float64 option \<Rightarrow> float64" where
  "get_value v = (case v of None \<Rightarrow> 0 | Some x \<Rightarrow> x)"

definition sampleValue :: "metric_type \<Rightarrow> dto_metric \<Rightarrow> float64 option" where
  "sampleValue t m =
     (case t of
        GAUGE \<Rightarrow> Some (get_value (dm_gauge m))
      | COUNTER \<Rightarrow> Some (get_value (dm_counter m))
      | UNTYPED \<Rightarrow> Some (get_value (dm_untyped m))
      | _ \<Rightarrow> None)"

definition encodeLabel :: "protowire \<Rightarrow> string \<Rightarrow> string \<Rightarrow> string" where
  "encodeLabel pw name val =
     (let b = '''';
          b = AppendTag pw b 1 BytesType;
          b = AppendString pw b name;
          b = AppendTag pw b 2 BytesType
      in AppendString pw b val)"

definition encodeSample :: "protowire \<Rightarrow> (float64 \<Rightarrow> 64 word) \<Rightarrow> float64 \<Rightarrow> int \<Rightarrow> string" where
  "encodeSample pw bits val tsMillis =
     (let b = '''';
          b = AppendTag pw b 1 Fixed64Type;
          b = AppendFixed64 pw b (bits val);
          b = AppendTag pw b 2 VarintType
      in AppendVarint pw b (word_of_int tsMillis))"

fun appendLabels :: "protowire \<Rightarrow> string \<Rightarrow> (string \<times> string) list \<Rightarrow> string" where
  "appendLabels pw ts [] = ts"
| "appendLabels pw ts ((k, v) # ps) =
     appendLabels pw (AppendBytes pw (AppendTag pw ts 1 BytesType) (encodeLabel pw k v)) ps"

text \<open>\<open>sort.Slice\<close> by the label name; at the up to twelve labels of a metric it is a stable insertion sort.\<close>

definition sortedLabels :: "string \<Rightarrow> (string \<times> string) list \<Rightarrow> (string \<times> string) list" where
  "sortedLabels name labels = sort_key fst ((''__name__'', name) # labels)"

definition encodeTimeSeries ::
  "protowire \<Rightarrow> (float64 \<Rightarrow> 64 word) \<Rightarrow> string \<Rightarrow> (string \<times> string) list \<Rightarrow> float64 \<Rightarrow> int \<Rightarrow> string"
where
  "encodeTimeSeries pw bits name labels val tsMillis =
     (let ts = appendLabels pw '''' (sortedLabels name labels);
          ts = AppendTag pw ts 2 BytesType
      in AppendBytes pw ts (encodeSample pw bits val tsMillis))"

fun encodeMetrics ::
  "protowire \<Rightarrow> (float64 \<Rightarrow> 64 word) \<Rightarrow> int \<Rightarrow> string \<Rightarrow> metric_type \<Rightarrow> string \<Rightarrow> dto_metric list \<Rightarrow> string"
where
  "encodeMetrics pw bits ts name t out [] = out"
| "encodeMetrics pw bits ts name t out (m # ms) =
     (case sampleValue t m of
        None \<Rightarrow> encodeMetrics pw bits ts name t out ms
      | Some val \<Rightarrow>
          encodeMetrics pw bits ts name t
            (AppendBytes pw (AppendTag pw out 1 BytesType) (encodeTimeSeries pw bits name (dm_labels m) val ts)) ms)"

fun encodeFamilies :: "protowire \<Rightarrow> (float64 \<Rightarrow> 64 word) \<Rightarrow> int \<Rightarrow> string \<Rightarrow> metric_family list \<Rightarrow> string" where
  "encodeFamilies pw bits ts out [] = out"
| "encodeFamilies pw bits ts out (mf # mfs) =
     (if \<not> HasPrefix (mf_name mf) metricPrefix then encodeFamilies pw bits ts out mfs
      else encodeFamilies pw bits ts (encodeMetrics pw bits ts (mf_name mf) (mf_type mf) out (mf_metrics mf)) mfs)"

definition encodeWriteRequest ::
  "protowire \<Rightarrow> (float64 \<Rightarrow> 64 word) \<Rightarrow> metric_family list \<Rightarrow> int \<Rightarrow> string option"
where
  "encodeWriteRequest pw bits mfs tsMillis =
     (let out = encodeFamilies pw bits tsMillis '''' mfs in if length out = 0 then None else Some out)"

section \<open>A push\<close>

record Options =
  op_url :: string
  op_interval :: duration
  op_sigv4 :: bool
  op_region :: string
  op_headers :: "(string, string) gomap"

record Writer =
  wr_url :: string
  wr_interval :: duration
  wr_headers :: "(string, string) gomap"
  wr_signer :: bool
  wr_region :: string

text \<open>\<open>aws\<close> is \<open>LoadDefaultConfig\<close> with the region to override, if any: its error or the region it settles on.\<close>

definition NewWriter :: "(string option \<Rightarrow> string + string) \<Rightarrow> Options \<Rightarrow> string + Writer" where
  "NewWriter aws opts =
     (if op_url opts = '''' then Inl ''remote-write URL is empty''
      else
        (let interval = (if op_interval opts \<le> 0 then 15 * Second else op_interval opts);
             w = \<lparr> wr_url = op_url opts, wr_interval = interval, wr_headers = op_headers opts, wr_signer = False,
                   wr_region = '''' \<rparr>
         in if op_sigv4 opts
            then (case aws (if op_region opts \<noteq> '''' then Some (op_region opts) else None) of
                    Inl err \<Rightarrow> Inl (''loading AWS config for SigV4: '' @ err)
                  | Inr region \<Rightarrow>
                      if region = ''''
                      then Inl ''remote_write_sigv4 needs a region (set remote_write_region or AWS_REGION)''
                      else Inr (w \<lparr> wr_signer := True, wr_region := region \<rparr>))
            else Inr w))"

record push_env =
  pu_gather :: "string + metric_family list"
  pu_now_ms :: int
  pu_compress :: "string \<Rightarrow> string"
  pu_bits :: "float64 \<Rightarrow> 64 word"
  pu_bad_url :: "string \<Rightarrow> string option"
  pu_creds :: "string option"
  pu_sign :: "string \<Rightarrow> header \<Rightarrow> string \<Rightarrow> string + header"
  pu_do :: "string \<Rightarrow> header \<Rightarrow> string \<Rightarrow> string + (int \<times> string)"

definition baseHeader :: header where
  "baseHeader = Header_Set ''User-Agent'' ''technician-remote-write''
     (Header_Set ''X-Prometheus-Remote-Write-Version'' ''0.1.0''
       (Header_Set ''Content-Type'' ''application/x-protobuf''
         (Header_Set ''Content-Encoding'' ''snappy'' Map.empty)))"

definition pushHeader :: "(string, string) gomap \<Rightarrow> header" where
  "pushHeader hs = fold (\<lambda>(k, v). Header_Set k v) hs baseHeader"

text \<open>The outcome of a push: \<open>None\<close> or the error, and whether a request went out.\<close>

definition sendRequest :: "push_env \<Rightarrow> Writer \<Rightarrow> header \<Rightarrow> string \<Rightarrow> string option \<times> (header \<times> string) option" where
  "sendRequest env w header body =
     (case pu_do env (wr_url w) header body of
        Inl err \<Rightarrow> (Some err, Some (header, body))
      | Inr (code, status) \<Rightarrow>
          (if code sdiv 100 \<noteq> 2 then Some (''remote-write endpoint returned '' @ status) else None, Some (header, body)))"

definition Writer_push :: "protowire \<Rightarrow> push_env \<Rightarrow> Writer \<Rightarrow> string option \<times> (header \<times> string) option" where
  "Writer_push pw env w =
     (case pu_gather env of
        Inl err \<Rightarrow> (Some (''gathering metrics: '' @ err), None)
      | Inr mfs \<Rightarrow>
          (case encodeWriteRequest pw (pu_bits env) mfs (pu_now_ms env) of
             None \<Rightarrow> (None, None)
           | Some payload \<Rightarrow>
               (let compressed = pu_compress env payload
                in case pu_bad_url env (wr_url w) of
                     Some err \<Rightarrow> (Some err, None)
                   | None \<Rightarrow>
                       (let header = pushHeader (wr_headers w)
                        in if wr_signer w
                           then (case pu_creds env of
                                   Some err \<Rightarrow> (Some (''retrieving AWS credentials: '' @ err), None)
                                 | None \<Rightarrow>
                                     (case pu_sign env (wr_region w) header compressed of
                                        Inl err \<Rightarrow> (Some (''signing request: '' @ err), None)
                                      | Inr header' \<Rightarrow> sendRequest env w header' compressed))
                           else sendRequest env w header compressed))))"

text \<open>The loop: one push per tick until the context ends; an error is logged and dropped.\<close>

datatype writer_event = Tick push_env | CtxDone

fun Writer_Run :: "protowire \<Rightarrow> Writer \<Rightarrow> writer_event list \<Rightarrow> (string option \<times> (header \<times> string) option) list" where
  "Writer_Run pw w [] = []"
| "Writer_Run pw w (CtxDone # es) = []"
| "Writer_Run pw w (Tick env # es) = Writer_push pw env w # Writer_Run pw w es"

section \<open>What a receiver decodes\<close>

text \<open>A message is a sequence of numbered fields; \<open>fields\<close> reads it with the consume functions.\<close>

datatype field = FBytes string | FFixed64 "64 word" | FVarint "64 word"

fun read_field :: "protowire \<Rightarrow> string \<Rightarrow> ((nat \<times> field) \<times> string) option" where
  "read_field pw s =
     (case ConsumeTag pw s of
        None \<Rightarrow> None
      | Some ((n, BytesType), s') \<Rightarrow> map_option (\<lambda>(v, r). ((n, FBytes v), r)) (ConsumeBytes pw s')
      | Some ((n, Fixed64Type), s') \<Rightarrow> map_option (\<lambda>(v, r). ((n, FFixed64 v), r)) (ConsumeFixed64 pw s')
      | Some ((n, VarintType), s') \<Rightarrow> map_option (\<lambda>(v, r). ((n, FVarint v), r)) (ConsumeVarint pw s'))"

fun fields_fuel :: "protowire \<Rightarrow> nat \<Rightarrow> string \<Rightarrow> (nat \<times> field) list option" where
  "fields_fuel pw k [] = Some []"
| "fields_fuel pw 0 s = None"
| "fields_fuel pw (Suc k) s =
     (case read_field pw s of
        None \<Rightarrow> None
      | Some (f, s') \<Rightarrow> map_option (Cons f) (fields_fuel pw k s'))"

definition fields :: "protowire \<Rightarrow> string \<Rightarrow> (nat \<times> field) list option" where
  "fields pw s = fields_fuel pw (length s) s"

definition decode_label :: "protowire \<Rightarrow> nat \<times> field \<Rightarrow> (string \<times> string) option" where
  "decode_label pw f =
     (case f of
        (n, FBytes s) \<Rightarrow>
          if n \<noteq> 1 then None
          else (case fields pw s of
                  Some [(a, FBytes k), (b, FBytes v)] \<Rightarrow> if a = 1 \<and> b = 2 then Some (k, v) else None
                | _ \<Rightarrow> None)
      | _ \<Rightarrow> None)"

definition decode_sample :: "protowire \<Rightarrow> nat \<times> field \<Rightarrow> (64 word \<times> 64 word) option" where
  "decode_sample pw f =
     (case f of
        (n, FBytes s) \<Rightarrow>
          if n \<noteq> 2 then None
          else (case fields pw s of
                  Some [(a, FFixed64 x), (b, FVarint t)] \<Rightarrow> if a = 1 \<and> b = 2 then Some (x, t) else None
                | _ \<Rightarrow> None)
      | _ \<Rightarrow> None)"

type_synonym remote_series = "(string \<times> string) list \<times> 64 word \<times> 64 word"

definition decode_series :: "protowire \<Rightarrow> nat \<times> field \<Rightarrow> remote_series option" where
  "decode_series pw f =
     (case f of
        (n, FBytes s) \<Rightarrow>
          if n \<noteq> 1 then None
          else (case fields pw s of
                  None \<Rightarrow> None
                | Some fs \<Rightarrow>
                    if fs = [] then None
                    else (case (those (map (decode_label pw) (butlast fs)), decode_sample pw (last fs)) of
                       (Some labels, Some (x, t)) \<Rightarrow> Some (labels, x, t)
                     | _ \<Rightarrow> None))
      | _ \<Rightarrow> None)"

definition decode_request :: "protowire \<Rightarrow> string \<Rightarrow> remote_series list option" where
  "decode_request pw s = (case fields pw s of None \<Rightarrow> None | Some fs \<Rightarrow> those (map (decode_series pw) fs))"

text \<open>The series that should arrive.\<close>

definition series_of :: "(float64 \<Rightarrow> 64 word) \<Rightarrow> int \<Rightarrow> string \<Rightarrow> dto_metric \<Rightarrow> float64 \<Rightarrow> remote_series" where
  "series_of bits ts name m val = (sortedLabels name (dm_labels m), bits val, word_of_int ts)"

definition family_series :: "(float64 \<Rightarrow> 64 word) \<Rightarrow> int \<Rightarrow> metric_family \<Rightarrow> remote_series list" where
  "family_series bits ts mf =
     List.map_filter (\<lambda>m. map_option (series_of bits ts (mf_name mf) m) (sampleValue (mf_type mf) m)) (mf_metrics mf)"

definition request_of :: "(float64 \<Rightarrow> 64 word) \<Rightarrow> metric_family list \<Rightarrow> int \<Rightarrow> remote_series list" where
  "request_of bits mfs ts =
     concat (map (family_series bits ts) (filter (\<lambda>mf. HasPrefix (mf_name mf) metricPrefix) mfs))"

fun put_field :: "protowire \<Rightarrow> nat \<times> field \<Rightarrow> string" where
  "put_field pw (n, FBytes v) = AppendTag pw '''' n BytesType @ AppendBytes pw '''' v"
| "put_field pw (n, FFixed64 x) = AppendTag pw '''' n Fixed64Type @ AppendFixed64 pw '''' x"
| "put_field pw (n, FVarint x) = AppendTag pw '''' n VarintType @ AppendVarint pw '''' x"

definition put_fields :: "protowire \<Rightarrow> (nat \<times> field) list \<Rightarrow> string" where
  "put_fields pw fs = concat (map (put_field pw) fs)"

definition put_series :: "protowire \<Rightarrow> remote_series \<Rightarrow> nat \<times> field" where
  "put_series pw sr = (case sr of (labels, x, t) \<Rightarrow>
     (1, FBytes (put_fields pw
        (map (\<lambda>(k, v). (1, FBytes (put_fields pw [(1, FBytes k), (2, FBytes v)]))) labels
         @ [(2, FBytes (put_fields pw [(1, FFixed64 x), (2, FVarint t)]))]))))"

lemma put_fields_simps [simp]:
  "put_fields pw [] = ''''" "put_fields pw (f # fs) = put_field pw f @ put_fields pw fs"
  "put_fields pw (fs @ gs) = put_fields pw fs @ put_fields pw gs"
  by (simp_all add: put_fields_def)

lemma those_map_Some: "(\<And>x. x \<in> set xs \<Longrightarrow> f (g x) = Some (h x)) \<Longrightarrow> those (map (f \<circ> g) xs) = Some (map h xs)"
  by (induction xs) auto

context protowire_laws
begin

lemma read_put_field:
  "1 \<le> n \<Longrightarrow> n < 2 ^ 29 \<Longrightarrow> read_field pw (put_field pw (n, f) @ rest) = Some ((n, f), rest)"
  by (cases f) (simp_all add: tag_consume bytes_consume fixed_consume varint_consume)

lemma put_field_nonempty: "put_field pw f \<noteq> ''''"
  by (cases "(pw, f)" rule: put_field.cases) (auto simp: tag_nonempty)

lemma fields_fuel_put:
  "\<forall>(n, f) \<in> set fs. 1 \<le> n \<and> n < 2 ^ 29 \<Longrightarrow> length (put_fields pw fs) \<le> k \<Longrightarrow> fields_fuel pw k (put_fields pw fs) = Some fs"
proof (induction fs arbitrary: k)
  case (Cons f fs)
  obtain n v where f: "f = (n, v)" by fastforce
  obtain c s where c: "put_field pw f @ put_fields pw fs = c # s"
    using put_field_nonempty [of f] by (cases "put_field pw f") auto
  from Cons.prems(2) c obtain j where k: "k = Suc j" by (cases k) auto
  have "length (put_fields pw fs) \<le> j"
    using Cons.prems(2) put_field_nonempty [of f] by (cases "put_field pw f") (auto simp: k)
  with Cons have "fields_fuel pw j (put_fields pw fs) = Some fs" by simp
  moreover have "read_field pw (put_field pw f @ put_fields pw fs) = Some (f, put_fields pw fs)"
    using Cons.prems(1) by (simp add: f read_put_field del: read_field.simps put_field.simps)
  ultimately show ?case by (simp add: c k del: read_field.simps)
qed simp

lemma fields_put: "\<forall>(n, f) \<in> set fs. 1 \<le> n \<and> n < 2 ^ 29 \<Longrightarrow> fields pw (put_fields pw fs) = Some fs"
  by (simp add: fields_def fields_fuel_put)

lemma decode_put_series: "decode_series pw (put_series pw sr) = Some sr"
proof -
  obtain labels x t where sr: "sr = (labels, x, t)" by (cases sr) auto
  let ?lab = "\<lambda>(k, v). (1, FBytes (put_fields pw [(1, FBytes k), (2, FBytes v)]))"
  let ?smp = "(2, FBytes (put_fields pw [(1, FFixed64 x), (2, FVarint t)]))"
  have l: "decode_label pw (?lab p) = Some p" for p
    using fields_put [of "[(1, FBytes (fst p)), (2, FBytes (snd p))]"]
    by (cases p) (simp add: decode_label_def del: put_field.simps put_fields_simps)
  have s: "decode_sample pw ?smp = Some (x, t)"
    using fields_put [of "[(1, FFixed64 x), (2, FVarint t)]"]
    by (simp add: decode_sample_def del: put_field.simps put_fields_simps)
  have f: "fields pw (put_fields pw (map ?lab labels @ [?smp])) = Some (map ?lab labels @ [?smp])"
    by (rule fields_put) auto
  have "those (map (decode_label pw \<circ> ?lab) labels) = Some (map id labels)"
    by (rule those_map_Some) (rule l [THEN trans], simp)
  then show ?thesis
    using f s by (simp add: sr put_series_def decode_series_def del: put_field.simps put_fields_simps)
qed

end

context protowire_laws
begin

lemma append_fields:
  "AppendBytes pw (AppendTag pw b n BytesType) v = b @ put_field pw (n, FBytes v)"
  "AppendFixed64 pw (AppendTag pw b n Fixed64Type) x = b @ put_field pw (n, FFixed64 x)"
  "AppendVarint pw (AppendTag pw b n VarintType) x = b @ put_field pw (n, FVarint x)"
  by (metis append.assoc bytes_append put_field.simps(1) tag_append,
      metis append.assoc fixed_append put_field.simps(2) tag_append,
      metis append.assoc varint_append put_field.simps(3) tag_append)

lemma encodeLabel_fields: "encodeLabel pw k v = put_fields pw [(1, FBytes k), (2, FBytes v)]"
  by (simp add: encodeLabel_def string_bytes append_fields del: put_field.simps)

lemma encodeSample_fields:
  "encodeSample pw bits val ts = put_fields pw [(1, FFixed64 (bits val)), (2, FVarint (word_of_int ts))]"
  by (simp add: encodeSample_def append_fields del: put_field.simps)

lemma appendLabels_fields:
  "appendLabels pw b ps = b @ put_fields pw (map (\<lambda>(k, v). (1, FBytes (put_fields pw [(1, FBytes k), (2, FBytes v)]))) ps)"
proof (induction ps arbitrary: b)
  case (Cons p ps)
  then show ?case by (cases p) (simp add: append_fields encodeLabel_fields del: put_field.simps)
qed simp

lemma encodeTimeSeries_fields:
  "(1, FBytes (encodeTimeSeries pw bits name (dm_labels m) val ts)) = put_series pw (series_of bits ts name m val)"
  by (simp add: encodeTimeSeries_def appendLabels_fields append_fields encodeSample_fields put_series_def series_of_def
      del: put_field.simps)

lemma encodeMetrics_fields:
  "encodeMetrics pw bits ts name t out ms =
     out @ put_fields pw (map (put_series pw) (List.map_filter (\<lambda>m. map_option (series_of bits ts name m) (sampleValue t m)) ms))"
  by (induction ms arbitrary: out)
     (simp_all add: map_filter_simps append_fields flip: encodeTimeSeries_fields del: put_field.simps split: option.split)

lemma encodeFamilies_fields:
  "encodeFamilies pw bits ts out mfs = out @ put_fields pw (map (put_series pw) (request_of bits mfs ts))"
  by (induction mfs arbitrary: out) (simp_all add: encodeMetrics_fields request_of_def family_series_def)

lemma encodeWriteRequest_decodes:
  "case encodeWriteRequest pw bits mfs ts of
     None \<Rightarrow> request_of bits mfs ts = []
   | Some payload \<Rightarrow> request_of bits mfs ts \<noteq> [] \<and> decode_request pw payload = Some (request_of bits mfs ts)"
proof -
  let ?fs = "map (put_series pw) (request_of bits mfs ts)"
  have enc: "encodeWriteRequest pw bits mfs ts = (if put_fields pw ?fs = '''' then None else Some (put_fields pw ?fs))"
    by (simp add: encodeWriteRequest_def encodeFamilies_fields Let_def)
  have "put_fields pw ?fs = '''' \<longleftrightarrow> request_of bits mfs ts = []"
    using put_field_nonempty by (cases "request_of bits mfs ts") (simp_all del: put_field.simps)
  moreover have "fields pw (put_fields pw ?fs) = Some ?fs"
    by (rule fields_put) (auto simp: put_series_def)
  moreover have "those (map (decode_series pw) ?fs) = Some (request_of bits mfs ts)"
    using those_map_Some [of _ "decode_series pw" "put_series pw" id] decode_put_series by simp
  ultimately show ?thesis by (simp add: enc decode_request_def)
qed

end

section \<open>The protocol buffer encoding\<close>

text \<open>
  The encoding that the documentation of protocol buffers specifies satisfies the laws: a tag is the
  varint of the field number times eight plus the code of the type, bytes are preceded by the varint
  of their number, a fixed64 is eight bytes with the least significant first.
\<close>

fun varint :: "nat \<Rightarrow> string" where
  "varint n = (if n < 128 then [char_of n] else char_of (n mod 128 + 128) # varint (n div 128))"

declare varint.simps [simp del]

fun unvarint :: "string \<Rightarrow> (nat \<times> string) option" where
  "unvarint [] = None"
| "unvarint (c # s) =
     (let n = of_char c in if n < 128 then Some (n, s)
      else case unvarint s of None \<Rightarrow> None | Some (m, r) \<Rightarrow> Some (n - 128 + 128 * m, r))"

fun le_bytes :: "nat \<Rightarrow> nat \<Rightarrow> string" where
  "le_bytes 0 n = []"
| "le_bytes (Suc k) n = char_of (n mod 256) # le_bytes k (n div 256)"

fun le_value :: "string \<Rightarrow> nat" where
  "le_value [] = 0"
| "le_value (c # s) = of_char c + 256 * le_value s"

fun wire_code :: "wire_type \<Rightarrow> nat" where
  "wire_code VarintType = 0"
| "wire_code Fixed64Type = 1"
| "wire_code BytesType = 2"

definition wire_of :: "nat \<Rightarrow> wire_type option" where
  "wire_of c = (if c = 0 then Some VarintType else if c = 1 then Some Fixed64Type else if c = 2 then Some BytesType else None)"

definition protobuf :: protowire where
  "protobuf = \<lparr>
     AppendTag = (\<lambda>b n t. b @ varint (8 * n + wire_code t)),
     AppendBytes = (\<lambda>b v. b @ varint (length v) @ v),
     AppendString = (\<lambda>b v. b @ varint (length v) @ v),
     AppendFixed64 = (\<lambda>b x. b @ le_bytes 8 (unat x)),
     AppendVarint = (\<lambda>b x. b @ varint (unat x)),
     ConsumeTag = (\<lambda>s. case unvarint s of None \<Rightarrow> None
                        | Some (m, r) \<Rightarrow> map_option (\<lambda>t. ((m div 8, t), r)) (wire_of (m mod 8))),
     ConsumeBytes = (\<lambda>s. case unvarint s of None \<Rightarrow> None
                        | Some (m, r) \<Rightarrow> if length r < m then None else Some (take m r, drop m r)),
     ConsumeFixed64 = (\<lambda>s. if length s < 8 then None else Some (of_nat (le_value (take 8 s)), drop 8 s)),
     ConsumeVarint = (\<lambda>s. map_option (\<lambda>(m, r). (of_nat m, r)) (unvarint s)) \<rparr>"

lemma unvarint_varint: "unvarint (varint n @ rest) = Some (n, rest)"
proof (induction n rule: varint.induct)
  case (1 n)
  show ?case
  proof (cases "n < 128")
    case True
    then show ?thesis by (subst varint.simps) simp
  next
    case False
    have "n mod 128 + 128 < 256" by linarith
    with 1 [OF False] False show ?thesis by (subst varint.simps) (simp add: Let_def)
  qed
qed

lemma varint_nonempty: "varint n \<noteq> ''''"
  by (subst varint.simps) simp

lemma le_value_bytes: "n < 256 ^ k \<Longrightarrow> le_value (le_bytes k n) = n"
  by (induction k arbitrary: n) (auto simp: less_mult_imp_div_less mult.commute)

lemma length_le_bytes [simp]: "length (le_bytes k n) = k"
  by (induction k arbitrary: n) auto

lemma wire_of_code: "wire_of (wire_code t) = Some t" "wire_code t < 8"
  by (cases t; simp add: wire_of_def)+

interpretation pb: protowire_laws protobuf
proof unfold_locales
  fix n :: nat and t :: wire_type and v rest :: string and x :: "64 word"
  have "(8 * n + wire_code t) div 8 = n" "(8 * n + wire_code t) mod 8 = wire_code t"
    using wire_of_code(2) [of t] by auto
  then show "ConsumeTag protobuf (AppendTag protobuf '''' n t @ rest) = Some ((n, t), rest)"
    by (simp add: protobuf_def unvarint_varint wire_of_code)
  show "ConsumeFixed64 protobuf (AppendFixed64 protobuf '''' x @ rest) = Some (x, rest)"
  proof -
    have "unat x < 2 ^ LENGTH(64)" by (rule unsigned_less)
    then show ?thesis using le_value_bytes [of "unat x" 8] by (simp add: protobuf_def)
  qed
qed (simp_all add: protobuf_def unvarint_varint varint_nonempty)

text \<open>
  Property C18. What is pushed is what was gathered: with the wire functions as documented, a
  receiver that decodes the request gets, in order, one series for every gauge, counter and untyped
  metric of the families named \<open>technician_...\<close> and for no other, with the bits of its value, the time of the
  push, and as labels a permutation of the metric's labels and its name, in the order of the label
  names that the protocol requires; and nothing is sent exactly when there is no such metric.
\<close>

theorem remote_write_roundtrip:
  assumes "protowire_laws pw"
  shows "(case encodeWriteRequest pw bits mfs ts of
      None \<Rightarrow> request_of bits mfs ts = []
    | Some payload \<Rightarrow> request_of bits mfs ts \<noteq> [] \<and> decode_request pw payload = Some (request_of bits mfs ts)) \<and>
    (\<forall>series \<in> set (request_of bits mfs ts).
      \<exists>mf \<in> set mfs. \<exists>m \<in> set (mf_metrics mf). \<exists>val. HasPrefix (mf_name mf) ''technician_'' \<and> sampleValue (mf_type mf) m = Some val
        \<and> snd series = (bits val, word_of_int ts) \<and> sorted (map fst (fst series))
        \<and> mset (fst series) = mset ((''__name__'', mf_name mf) # dm_labels m))"
proof (intro conjI ballI)
  show "case encodeWriteRequest pw bits mfs ts of None \<Rightarrow> request_of bits mfs ts = []
    | Some payload \<Rightarrow> request_of bits mfs ts \<noteq> [] \<and> decode_request pw payload = Some (request_of bits mfs ts)"
    using assms by (rule protowire_laws.encodeWriteRequest_decodes)
next
  fix series assume "series \<in> set (request_of bits mfs ts)"
  then obtain mf m val where "mf \<in> set mfs" "HasPrefix (mf_name mf) metricPrefix" "m \<in> set (mf_metrics mf)"
    and "sampleValue (mf_type mf) m = Some val" "series = series_of bits ts (mf_name mf) m val"
    by (auto simp: request_of_def family_series_def List.map_filter_def)
  then show "\<exists>mf \<in> set mfs. \<exists>m \<in> set (mf_metrics mf). \<exists>val. HasPrefix (mf_name mf) ''technician_'' \<and> sampleValue (mf_type mf) m = Some val
        \<and> snd series = (bits val, word_of_int ts) \<and> sorted (map fst (fst series))
        \<and> mset (fst series) = mset ((''__name__'', mf_name mf) # dm_labels m)"
    by (intro bexI exI [of _ val] conjI)
       (simp_all add: series_of_def sortedLabels_def metricPrefix_def del: mset.simps sort_key_simps)
qed

definition sample_family :: metric_family where
  "sample_family = \<lparr> mf_name = ''technician_up'', mf_type = GAUGE,
     mf_metrics = [\<lparr> dm_labels = [(''check'', ''db''), (''Zone'', ''a'')], dm_gauge = Some 1, dm_counter = None, dm_untyped = None \<rparr>] \<rparr>"

definition sample_runtime :: metric_family where
  "sample_runtime = \<lparr> mf_name = ''go_goroutines'', mf_type = GAUGE, mf_metrics = mf_metrics sample_family \<rparr>"

lemma sample_request:
  "request_of (\<lambda>v. if v = 1 then 1 else 0) [sample_runtime, sample_family] 5 =
     [([(''Zone'', ''a''), (''__name__'', ''technician_up''), (''check'', ''db'')], 1, 5)]"
  by (simp add: request_of_def sample_family_def sample_runtime_def metricPrefix_def HasPrefix_def family_series_def
      map_filter_simps series_of_def sampleValue_def get_value_def sortedLabels_def)

theorem remote_write_roundtrip_witness:
  "(\<exists>payload. encodeWriteRequest protobuf (\<lambda>v. if v = 1 then 1 else 0) [sample_runtime, sample_family] 5 = Some payload
      \<and> decode_request protobuf payload = Some [([(''Zone'', ''a''), (''__name__'', ''technician_up''), (''check'', ''db'')], 1, 5)])
   \<and> sorted (map fst [(''Zone'', ''a''), (''__name__'', ''technician_up''), (''check'', ''db'')])"
proof -
  let ?bits = "\<lambda>v :: float64. if v = 1 then 1 else 0 :: 64 word"
  let ?series = "([(''Zone'', ''a''), (''__name__'', ''technician_up''), (''check'', ''db'')], 1, 5) :: remote_series"
  have memb: "?series \<in> set (request_of ?bits [sample_runtime, sample_family] 5)" unfolding sample_request by simp
  note rw = remote_write_roundtrip [OF pb.protowire_laws_axioms, of ?bits "[sample_runtime, sample_family]" 5]
  from bspec [OF rw [THEN conjunct2] memb] have "sorted (map fst (fst ?series))" by blast
  moreover from rw [THEN conjunct1]
  have "\<exists>payload. encodeWriteRequest protobuf ?bits [sample_runtime, sample_family] 5 = Some payload
      \<and> decode_request protobuf payload = Some [?series]"
    unfolding sample_request by (simp split: option.splits)
  ultimately show ?thesis by simp
qed

section \<open>The outcome of a push\<close>

text \<open>
  A push reports no error exactly when there was nothing to send or the endpoint answered the
  request with a status of the 2xx class; the body it sends is the compressed encoding, under the
  four protocol headers unless the configuration overrides them.
\<close>

lemma sendRequest_ok:
  "fst (sendRequest env w header body) = None \<longleftrightarrow>
     (\<exists>code status. pu_do env (wr_url w) header body = Inr (code, status) \<and> code sdiv 100 = 2)"
  "snd (sendRequest env w header body) = Some (header, body)"
  by (auto simp: sendRequest_def split: sum.split)

lemma Writer_push_ok:
  assumes "\<not> wr_signer w" "pu_gather env = Inr mfs"
    and "encodeWriteRequest pw (pu_bits env) mfs (pu_now_ms env) = Some payload" "pu_bad_url env (wr_url w) = None"
  shows "snd (Writer_push pw env w) = Some (pushHeader (wr_headers w), pu_compress env payload)"
    and "fst (Writer_push pw env w) = None \<longleftrightarrow>
      (\<exists>code status. pu_do env (wr_url w) (pushHeader (wr_headers w)) (pu_compress env payload) = Inr (code, status) \<and> code sdiv 100 = 2)"
  using assms by (simp_all add: Writer_push_def sendRequest_ok)

lemma Writer_push_idle:
  "pu_gather env = Inr mfs \<Longrightarrow> encodeWriteRequest pw (pu_bits env) mfs (pu_now_ms env) = None \<Longrightarrow> Writer_push pw env w = (None, None)"
  by (simp add: Writer_push_def)

text \<open>A failed push changes nothing for the later ones: every tick before the end pushes once.\<close>

lemma Writer_Run_ticks:
  "Writer_Run pw w es = map (\<lambda>e. case e of Tick env \<Rightarrow> Writer_push pw env w | CtxDone \<Rightarrow> (None, None))
     (takeWhile (\<lambda>e. e \<noteq> CtxDone) es)"
  by (induction pw w es rule: Writer_Run.induct) auto

text \<open>A writer that starts has a URL and a positive interval, and a region when it signs.\<close>

lemma NewWriter_ok:
  assumes "NewWriter aws opts = Inr w"
  shows "wr_url w = op_url opts" "wr_url w \<noteq> ''''" "0 < wr_interval w" "wr_signer w = op_sigv4 opts"
    "wr_signer w \<Longrightarrow> wr_region w \<noteq> ''''"
  using assms by (auto simp: NewWriter_def Let_def split: if_splits sum.splits)

end
