(* ===== verification/Telemetry.thy ===== *)
theory Telemetry
  imports Check_Contract Check_ICMP Remote_Write
begin

text \<open>
  OpenTelemetry: the span of a check result (\<open>internal/metrics/otel.go\<close>), the choice of the
  transport and the filter in front of the metric bridge (\<open>internal/metrics/otel_metrics.go\<close>). A span
  is a record of what the SDK is told; setting an attribute replaces the earlier value of its key, as
  the SDK documents. The SDK's exporters and providers are arguments: their constructors return
  \<open>None\<close> or the text of an error.
\<close>

section \<open>Endpoints\<close>

record otlpEndpoint =
  oe_host :: string
  oe_path :: string
  oe_insecure :: bool

text \<open>\<open>parse\<close> is \<open>url.Parse\<close>: its error or the scheme, the host and the path.\<close>

definition parseOTLPEndpoint :: "(string \<Rightarrow> string + string \<times> string \<times> string) \<Rightarrow> string \<Rightarrow> string + otlpEndpoint" where
  "parseOTLPEndpoint parse endpoint =
     (let ep = \<lparr> oe_host = endpoint, oe_path = '''', oe_insecure = False \<rparr>
      in if \<not> Contains endpoint ''://'' then Inr ep
         else case parse endpoint of
                Inl err \<Rightarrow> Inl (''parsing OTLP endpoint: '' @ err)
              | Inr (scheme, host, path) \<Rightarrow>
                  Inr (ep \<lparr> oe_host := host, oe_path := (if path \<noteq> '''' \<and> path \<noteq> ''/'' then path else ''''),
                            oe_insecure := (scheme \<noteq> ''https'') \<rparr>))"

datatype exporter_option = WithEndpoint string | WithURLPath string | WithInsecure

definition exporterOptions :: "otlpEndpoint \<Rightarrow> exporter_option list" where
  "exporterOptions ep =
     [WithEndpoint (oe_host ep)]
     @ (if oe_path ep \<noteq> '''' then [WithURLPath (oe_path ep)] else [])
     @ (if oe_insecure ep then [WithInsecure] else [])"

text \<open>The value is \<open>None\<close> when nothing is exported, or the options of the exporter.\<close>

definition InitOTEL ::
  "(string \<Rightarrow> string + string \<times> string \<times> string) \<Rightarrow> (exporter_option list \<Rightarrow> string option) \<Rightarrow> (string \<Rightarrow> string option)
     \<Rightarrow> OTELConfig \<Rightarrow> string \<Rightarrow> string + exporter_option list option"
where
  "InitOTEL parse newExporter newResource cfg serviceName =
     (if ot_endpoint cfg = '''' then Inr None
      else case parseOTLPEndpoint parse (ot_endpoint cfg) of
             Inl err \<Rightarrow> Inl err
           | Inr ep \<Rightarrow>
               (case newExporter (exporterOptions ep) of
                  Some err \<Rightarrow> Inl (''creating OTLP exporter: '' @ err)
                | None \<Rightarrow>
                    (case newResource serviceName of
                       Some err \<Rightarrow> Inl (''creating resource: '' @ err)
                     | None \<Rightarrow> Inr (Some (exporterOptions ep)))))"

definition InitOTELMetrics ::
  "(string \<Rightarrow> string + string \<times> string \<times> string) \<Rightarrow> (exporter_option list \<Rightarrow> string option) \<Rightarrow> (string \<Rightarrow> string option)
     \<Rightarrow> OTELConfig \<Rightarrow> string \<Rightarrow> string + exporter_option list option"
where
  "InitOTELMetrics parse newExporter newResource cfg serviceName =
     (if ot_endpoint cfg = '''' \<or> \<not> ot_metrics cfg then Inr None
      else case parseOTLPEndpoint parse (ot_endpoint cfg) of
             Inl err \<Rightarrow> Inl err
           | Inr ep \<Rightarrow>
               (case newExporter (exporterOptions ep) of
                  Some err \<Rightarrow> Inl (''creating OTLP metric exporter: '' @ err)
                | None \<Rightarrow>
                    (case newResource serviceName of
                       Some err \<Rightarrow> Inl (''creating resource: '' @ err)
                     | None \<Rightarrow> Inr (Some (exporterOptions ep)))))"

fun keptLoop :: "string \<Rightarrow> metric_family list \<Rightarrow> metric_family list \<Rightarrow> metric_family list" where
  "keptLoop prfx kept [] = kept"
| "keptLoop prfx kept (mf # mfs) =
     keptLoop prfx (if HasPrefix (mf_name mf) prfx then kept @ [mf] else kept) mfs"

definition prefixGather :: "string \<Rightarrow> string + metric_family list \<Rightarrow> string + metric_family list" where
  "prefixGather prfx gathered = (case gathered of Inl err \<Rightarrow> Inl err | Inr mfs \<Rightarrow> Inr (keptLoop prfx [] mfs))"

section \<open>Spans\<close>

datatype attr = AStr string | ABool bool | AFloat float64 | AInt int

datatype span_status = Unset | StatusOk | StatusError string

record span =
  sp_name :: string
  sp_start :: gotime
  sp_end :: gotime
  sp_attrs :: "(string, attr) gomap"
  sp_status :: span_status
  sp_events :: "(string, attr) gomap list"

definition set_attrs :: "(string \<times> attr) list \<Rightarrow> span \<Rightarrow> span" where
  "set_attrs kvs sp = sp \<lparr> sp_attrs := fold (\<lambda>(k, v). AList.update k v) kvs (sp_attrs sp) \<rparr>"

definition har_event :: "HAREntry \<Rightarrow> (string, attr) gomap" where
  "har_event e = [(''url'', AStr (he_url e)), (''resource_type'', AStr (he_resource_type e)), (''duration_ms'', AFloat (he_duration e)),
     (''transfer_size'', AInt (he_transfer_size e)), (''status'', AInt (he_status e))]"

definition vital_attrs :: "WebVitals \<Rightarrow> (string \<times> attr) list" where
  "vital_attrs v = [(''browser.ttfb_ms'', AFloat (wv_ttfb v)), (''browser.fcp_ms'', AFloat (wv_fcp v)),
     (''browser.lcp_ms'', AFloat (wv_lcp v)), (''browser.cls'', AFloat (wv_cls v)), (''browser.inp_ms'', AFloat (wv_inp v)),
     (''browser.dom_complete_ms'', AFloat (wv_dom_complete v))]"

definition TraceCheckResult :: "bool \<Rightarrow> gotime \<Rightarrow> (span \<Rightarrow> string \<times> string) \<Rightarrow> Result \<Rightarrow> (string \<times> string) \<times> span option" where
  "TraceCheckResult enabled now ids result =
     (if \<not> enabled then (('''', ''''), None)
      else
        (let start = (if IsZero (r_timestamp result) then now - r_duration result else r_timestamp result);
             sp = \<lparr> sp_name = ''check.'' @ r_type result @ ''.'' @ r_name result, sp_start = start,
                    sp_end = start + r_duration result, sp_attrs = [], sp_status = Unset, sp_events = [] \<rparr>;
             sp = set_attrs [(''check.type'', AStr (r_type result)), (''check.name'', AStr (r_name result)),
                    (''check.success'', ABool (r_success result)),
                    (''check.duration_ms'', AFloat (of_int (milliseconds (r_duration result))))] sp;
             sp = set_attrs (map (\<lambda>(k, v). (k, AStr v)) (r_labels result)) sp;
             sp = (if r_error result \<noteq> ''''
                   then set_attrs [(''check.error'', AStr (r_error result))] (sp \<lparr> sp_status := StatusError (r_error result) \<rparr>)
                   else sp \<lparr> sp_status := StatusOk \<rparr>);
             sp = (if r_status_code result > 0 then set_attrs [(''http.status_code'', AInt (r_status_code result))] sp else sp);
             sp = (case r_web_vitals result of None \<Rightarrow> sp | Some v \<Rightarrow> set_attrs (vital_attrs v) sp);
             sp = (case r_har_data result of None \<Rightarrow> sp | Some h \<Rightarrow> sp \<lparr> sp_events := sp_events sp @ map har_event (hd_entries h) \<rparr>)
         in (ids sp, Some sp)))"

section \<open>What is exported\<close>

lemma keptLoop_filter: "keptLoop prfx kept mfs = kept @ filter (\<lambda>mf. HasPrefix (mf_name mf) prfx) mfs"
  by (induction mfs arbitrary: kept) auto

text \<open>The filter in front of the OTLP bridge and the one of remote write let the same metrics through.\<close>

lemma export_parity:
  assumes "prefixGather ''technician_'' (Inr mfs) = Inr kept"
  shows "encodeWriteRequest pw bits kept ts = encodeWriteRequest pw bits mfs ts"
proof -
  have "encodeFamilies pw bits ts out (filter (\<lambda>mf. HasPrefix (mf_name mf) metricPrefix) mfs) = encodeFamilies pw bits ts out mfs" for out
    by (induction mfs arbitrary: out) auto
  then show ?thesis
    using assms by (simp add: prefixGather_def keptLoop_filter encodeWriteRequest_def metricPrefix_def)
qed

text \<open>
  Spans and metrics leave the host unencrypted only when the endpoint names a scheme other than
  \<open>https\<close>: an endpoint without a scheme keeps TLS.
\<close>

lemma insecure_only_by_scheme:
  assumes "parseOTLPEndpoint parse endpoint = Inr ep" "WithInsecure \<in> set (exporterOptions ep)"
  shows "\<exists>scheme host path. Contains endpoint ''://'' \<and> parse endpoint = Inr (scheme, host, path) \<and> scheme \<noteq> ''https''"
  using assms by (auto simp: parseOTLPEndpoint_def exporterOptions_def Let_def split: if_splits sum.splits)

lemma InitOTEL_disabled: "ot_endpoint cfg = '''' \<Longrightarrow>
    InitOTEL parse ex rs cfg name = Inr None \<and> InitOTELMetrics parse ex rs cfg name = Inr None"
  by (simp add: InitOTEL_def InitOTELMetrics_def)

lemma set_attrs_sel [simp]:
  "sp_name (set_attrs kvs sp) = sp_name sp" "sp_start (set_attrs kvs sp) = sp_start sp" "sp_end (set_attrs kvs sp) = sp_end sp"
  "sp_status (set_attrs kvs sp) = sp_status sp" "sp_events (set_attrs kvs sp) = sp_events sp"
  by (simp_all add: set_attrs_def)

lemma fold_update_get:
  "map_of (fold (\<lambda>(k, v). AList.update k v) kvs m) k = (case map_of (rev kvs) k of None \<Rightarrow> map_of m k | Some v \<Rightarrow> Some v)"
  by (induction kvs arbitrary: m) (auto simp: update_conv' map_add_def split: option.split)

lemma set_attrs_get:
  "map_of (sp_attrs (set_attrs kvs sp)) k = (case map_of (rev kvs) k of None \<Rightarrow> map_of (sp_attrs sp) k | Some v \<Rightarrow> Some v)"
  by (simp add: set_attrs_def fold_update_get)

text \<open>
  The span of a result describes the run and not its processing: it is named after
  the check, starts when the check started, or, without a time, its duration before now, and lasts
  exactly as long as the run did; its status is an error with the run's error text exactly when there is such a
  text, and it has one event per resource of the page load.
\<close>

theorem TraceCheckResult_span:
  assumes "TraceCheckResult True now ids r = (tid, Some sp)"
  shows "sp_name sp = ''check.'' @ r_type r @ ''.'' @ r_name r \<and> sp_end sp - sp_start sp = r_duration r
    \<and> (sp_start sp = r_timestamp r \<or> r_timestamp r = 0 \<and> sp_end sp = now)
    \<and> sp_status sp = (if r_error r = '''' then StatusOk else StatusError (r_error r))
    \<and> sp_events sp = (case r_har_data r of None \<Rightarrow> [] | Some h \<Rightarrow> map har_event (hd_entries h)) \<and> tid = ids sp"
  using assms by (auto simp: TraceCheckResult_def IsZero_def Let_def split: option.splits if_splits)

definition sample_ping_result :: Result where
  "sample_ping_result = (NewResult 50 ''gw'' CheckTypeICMP None) \<lparr> r_duration := 7 \<rparr>"

theorem TraceCheckResult_span_witness:
  "(case snd (TraceCheckResult True 99 (\<lambda>_. (''t'', ''s'')) sample_ping_result) of
      None \<Rightarrow> False
    | Some sp \<Rightarrow> sp_name sp = ''check.icmp.gw'' \<and> sp_end sp - sp_start sp = 7 \<and> sp_status sp = StatusOk)"
proof -
  obtain tid sp where "TraceCheckResult True 99 (\<lambda>_. (''t'', ''s'')) sample_ping_result = (tid, Some sp)"
    by (simp add: TraceCheckResult_def Let_def)
  with TraceCheckResult_span [OF this] show ?thesis
    by (simp add: sample_ping_result_def)
qed

text \<open>
  A failure of a checker that explains its failures is a span with an error. A failed ICMP check is
  not: when every reply is lost there is no error text, so the span of the outage says \<open>Ok\<close>.
\<close>

context explained_checker
begin

lemma failed_span:
  assumes "\<not> r_success (run e now' cfg og)" and "TraceCheckResult True now ids (run e now' cfg og) = (tid, Some sp)"
  shows "\<exists>msg. sp_status sp = StatusError msg \<and> msg \<noteq> ''''"
  using run_error [OF assms(1)] assms(2)
  by (auto simp: TraceCheckResult_def Let_def split: option.splits if_splits)

end

lemma lost_ping_span_ok:
  assumes "c_icmp cfg = Some i" and "ie_resolve env (ipNetwork (i_ip_version i)) (i_host i) = Inr six"
    and "listenICMP (ie_listen env) six = None" and "pinged env cfg i = (sent, [])"
    and "TraceCheckResult True now' ids (ICMP_Run env now cfg og) = (tid, Some sp)"
  shows "\<not> r_success (ICMP_Run env now cfg og) \<and> sp_status sp = StatusOk"
  using lost_replies_no_error [OF assms(1-4), of now og] assms(5)
  by (auto simp: TraceCheckResult_def Let_def split: option.splits if_splits)

end
