(* ===== verification/Worker_Start.thy ===== *)
theory Worker_Start
  imports Worker History Commands Blackbox Telemetry
begin

text \<open>
  How the worker starts, \<open>runWorker\<close> in \<open>cmd/worker.go\<close>, and its HTTP front: the routes of the mux
  and the compression in front of it, \<open>internal/server/gzip.go\<close>. The parts it puts together are those
  of the other theories; \<open>Worker_Process\<close> says how it runs and stops. The sidecar, \<open>cmd/serve.go\<close>,
  has two of the routes.
\<close>

section \<open>The HTTP front\<close>

datatype endpoint = EpMetrics | EpProbe | EpHealth | EpStatus | EpNotFound

text \<open>
  The patterns of the mux: one that ends in a slash matches the paths below it, the others only
  themselves; the longest match wins. The paths are the cleaned ones the mux looks up.
\<close>

definition workerRoute :: "string \<Rightarrow> endpoint" where
  "workerRoute path =
     (if path = ''/metrics'' then EpMetrics
      else if path = ''/probe'' then EpProbe
      else if path = ''/health'' then EpHealth
      else if HasPrefix path ''/api/'' then EpStatus
      else if HasPrefix path ''/'' then EpStatus
      else EpNotFound)"

definition serveRoute :: "string \<Rightarrow> endpoint" where
  "serveRoute path = (if path = ''/metrics'' then EpMetrics else if path = ''/health'' then EpHealth else EpNotFound)"

definition gzipSkipPaths :: "string list" where
  "gzipSkipPaths = [''/metrics'', ''/health'']"

text \<open>A response is its header and what the handler wrote; \<open>compress\<close> is the gzip writer.\<close>

definition Gzip ::
  "(string \<Rightarrow> string) \<Rightarrow> (header \<Rightarrow> header \<times> string) \<Rightarrow> string \<Rightarrow> header \<Rightarrow> header \<Rightarrow> header \<times> string"
where
  "Gzip compress next path rqHeader h =
     (if path \<in> set gzipSkipPaths \<or> \<not> Contains (Header_Get rqHeader ''Accept-Encoding'') ''gzip'' then next h
      else
        (let h1 = Header_Set ''Content-Encoding'' ''gzip'' h;
             h2 = h1(''Content-Length'' := None);
             (h3, body) = next h2
         in (h3, compress body)))"

section \<open>Starting\<close>

record boot_env =
  bt_load :: "load_error + Config"
  bt_flags :: filter_flags
  bt_checks :: "config_error + CheckConfig list"
  bt_budgets :: "string + Budget list"
  bt_origin_id :: string
  bt_join :: "string \<Rightarrow> string \<Rightarrow> string"
  bt_runner_fs :: runner_fs
  bt_world :: world
  bt_url :: "string \<Rightarrow> string + string \<times> string \<times> string"
  bt_trace_exporter :: "exporter_option list \<Rightarrow> string option"
  bt_metric_exporter :: "exporter_option list \<Rightarrow> string option"
  bt_resource :: "string \<Rightarrow> string option"
  bt_aws :: "string option \<Rightarrow> string + string"
  bt_data_dir :: string
  bt_files :: "string \<Rightarrow> dir"
  bt_io :: io
  bt_sql_open :: "string \<Rightarrow> string option"
  bt_schema :: "string \<Rightarrow> string option"

datatype boot_error = BootLoad load_error | BootTracing string | BootMetrics string | BootRemoteWrite string | BootHistory history_error

record booted =
  bo_checks :: "CheckConfig list"
  bo_budgets :: "Budget list"
  bo_sched :: Scheduler
  bo_worker :: worker
  bo_history :: "hist_store option"
  bo_writer :: "Writer option"
  bo_traces :: "exporter_option list option"
  bo_otlp_metrics :: "exporter_option list option"
  bo_listen :: string

definition dataDir :: "string \<Rightarrow> string" where
  "dataDir env = (if env = '''' then ''/var/lib/technician'' else env)"

definition statusPath :: "boot_env \<Rightarrow> string" where
  "statusPath b = bt_join b (dataDir (bt_data_dir b)) ''status.json''"

definition remoteWrite :: "(string option \<Rightarrow> string + string) \<Rightarrow> PrometheusConfig \<Rightarrow> string + Writer option" where
  "remoteWrite aws pm =
     (if pm_remote_write_url pm = '''' then Inr None
      else case NewWriter aws \<lparr> op_url = pm_remote_write_url pm, op_interval = pm_remote_write_interval pm,
                  op_sigv4 = pm_remote_write_sigv4 pm, op_region = pm_remote_write_region pm,
                  op_headers = pm_remote_write_headers pm \<rparr> of
             Inl err \<Rightarrow> Inl err
           | Inr w \<Rightarrow> Inr (Some w))"

definition runWorker :: "boot_env \<Rightarrow> boot_error + booted" where
  "runWorker b =
     (case bt_load b of
        Inl e \<Rightarrow> Inl (BootLoad e)
      | Inr cfg \<Rightarrow>
          (let checks = (case loadFilteredChecks (bt_flags b) (cfg_check_filter cfg) (bt_checks b) of
                           Inl e \<Rightarrow> [] | Inr cs \<Rightarrow> cs);
               budgets = (case bt_budgets b of Inl e \<Rightarrow> [] | Inr bs \<Rightarrow> bs);
               reg = RegisterMap NewCheckerRegistry (newCheckers (bt_join b) (bt_runner_fs b) (bt_world b) cfg)
           in case InitOTEL (bt_url b) (bt_trace_exporter b) (bt_resource b) (cfg_otel cfg) (cfg_service cfg) of
                Inl e \<Rightarrow> Inl (BootTracing e)
              | Inr traces \<Rightarrow>
                  (case InitOTELMetrics (bt_url b) (bt_metric_exporter b) (bt_resource b) (cfg_otel cfg) (cfg_service cfg) of
                     Inl e \<Rightarrow> Inl (BootMetrics e)
                   | Inr otlp \<Rightarrow>
                       (case remoteWrite (bt_aws b) (cfg_prometheus cfg) of
                          Inl e \<Rightarrow> Inl (BootRemoteWrite e)
                        | Inr writer \<Rightarrow>
                            (let sched = Scheduler.New cfg checks reg (bt_origin_id b);
                                 dir = dataDir (bt_data_dir b);
                                 path = statusPath b;
                                 w = startWorker (bt_io b) path (bt_files b path) cfg (bt_origin_id b) checks path;
                                 r = \<lparr> bo_checks = checks, bo_budgets = budgets, bo_sched = sched, bo_worker = w,
                                       bo_history = None, bo_writer = writer, bo_traces = traces, bo_otlp_metrics = otlp,
                                       bo_listen = pm_listen (cfg_prometheus cfg) \<rparr>
                             in if \<not> pe_enabled (cfg_persistence cfg) then Inr r
                                else case OpenHistory (bt_sql_open b) (bt_schema b) (bt_join b dir ''results.db'') (pe_retention (cfg_persistence cfg)) of
                                       Inl e \<Rightarrow> Inl (BootHistory e)
                                     | Inr hs \<Rightarrow> Inr (r \<lparr> bo_history := Some hs \<rparr>))))))"

section \<open>The sidecar and the exit status\<close>

text \<open>
  The server of \<open>serve\<close>: the two routes behind the compression, its address and limits. The
  metrics handler is the one of the client library. \<open>runServe\<close> has the outcome of loading the
  configuration and, for when the signal has come, that of \<open>Shutdown\<close>; its result is the server it
  ran and the error it returned.
\<close>

record http_server =
  hs_addr :: string
  hs_handler :: "string \<Rightarrow> header \<Rightarrow> header \<Rightarrow> header \<times> string"
  hs_read_timeout :: duration
  hs_write_timeout :: duration
  hs_idle_timeout :: duration
  hs_max_header_bytes :: int

definition serveHandler ::
  "(header \<Rightarrow> header \<times> string) \<Rightarrow> (header \<Rightarrow> header \<times> string) \<Rightarrow> string \<Rightarrow> header \<Rightarrow> header \<times> string"
where
  "serveHandler metrics notFound path h =
     (case serveRoute path of
        EpMetrics \<Rightarrow> metrics h
      | EpHealth \<Rightarrow> (h, ''ok'')
      | _ \<Rightarrow> notFound h)"

definition serveServer ::
  "(string \<Rightarrow> string) \<Rightarrow> (header \<Rightarrow> header \<times> string) \<Rightarrow> (header \<Rightarrow> header \<times> string) \<Rightarrow> Config \<Rightarrow> http_server"
where
  "serveServer compress metrics notFound cfg =
     \<lparr> hs_addr = pm_listen (cfg_prometheus cfg),
       hs_handler = (\<lambda>path rq. Gzip compress (serveHandler metrics notFound path) path rq),
       hs_read_timeout = 15 * Second, hs_write_timeout = 15 * Second, hs_idle_timeout = 60 * Second,
       hs_max_header_bytes = 1048576 \<rparr>"

definition workerServer ::
  "(string \<Rightarrow> string) \<Rightarrow> (endpoint \<Rightarrow> header \<Rightarrow> header \<times> string) \<Rightarrow> Config \<Rightarrow> http_server"
where
  "workerServer compress handlers cfg =
     \<lparr> hs_addr = pm_listen (cfg_prometheus cfg),
       hs_handler = (\<lambda>path rq. Gzip compress (handlers (workerRoute path)) path rq),
       hs_read_timeout = 15 * Second, hs_write_timeout = 30 * Second, hs_idle_timeout = 60 * Second,
       hs_max_header_bytes = 1048576 \<rparr>"

datatype serve_error = ServeLoad load_error | ServeShutdown string

definition runServe ::
  "(string \<Rightarrow> string) \<Rightarrow> (header \<Rightarrow> header \<times> string) \<Rightarrow> (header \<Rightarrow> header \<times> string)
   \<Rightarrow> load_error + Config \<Rightarrow> string option \<Rightarrow> http_server option \<times> serve_error option"
where
  "runServe compress metrics notFound loaded shutdown =
     (case loaded of
        Inl e \<Rightarrow> (None, Some (ServeLoad e))
      | Inr cfg \<Rightarrow> (Some (serveServer compress metrics notFound cfg), map_option ServeShutdown shutdown))"

text \<open>The exit status of the program, for the error of the command that ran.\<close>

definition exitStatus :: "'e option \<Rightarrow> int" where
  "exitStatus err = (if err \<noteq> None then 1 else 0)"

section \<open>The front\<close>

lemma Gzip_skips:
  "path \<in> {''/metrics'', ''/health''} \<Longrightarrow> Gzip compress next path rq h = next h"
  "\<not> Contains (Header_Get rq ''Accept-Encoding'') ''gzip'' \<Longrightarrow> Gzip compress next path rq h = next h"
  by (simp_all add: Gzip_def gzipSkipPaths_def)

text \<open>A compressed response is announced as such and carries no length of the uncompressed body.\<close>

lemma Gzip_compresses:
  assumes "path \<notin> {''/metrics'', ''/health''}" "Contains (Header_Get rq ''Accept-Encoding'') ''gzip''"
    and "\<And>h. fst (next h) = h"
  shows "snd (Gzip compress next path rq h) = compress (snd (next ((Header_Set ''Content-Encoding'' ''gzip'' h)(''Content-Length'' := None))))"
    and "Header_Get (fst (Gzip compress next path rq h)) ''Content-Encoding'' = ''gzip''"
    and "fst (Gzip compress next path rq h) ''Content-Length'' = None"
proof -
  let ?h2 = "(Header_Set ''Content-Encoding'' ''gzip'' h)(''Content-Length'' := None)"
  have "Gzip compress next path rq h = (?h2, compress (snd (next ?h2)))"
    using assms by (simp add: Gzip_def gzipSkipPaths_def Let_def prod_eq_iff split: prod.split)
  moreover have "CanonicalHeaderKey ''Content-Encoding'' = ''Content-Encoding''" by code_simp
  ultimately show "snd (Gzip compress next path rq h) = compress (snd (next ?h2))"
    "Header_Get (fst (Gzip compress next path rq h)) ''Content-Encoding'' = ''gzip''"
    "fst (Gzip compress next path rq h) ''Content-Length'' = None"
    by (simp_all add: Header_Get_def Header_Set_def)
qed

lemma routes_agree: "serveRoute path \<noteq> EpNotFound \<Longrightarrow> workerRoute path = serveRoute path"
  by (simp add: serveRoute_def workerRoute_def split: if_splits)

text \<open>
  The sidecar answers its two routes as they are, whatever encodings the client accepts: neither is
  compressed. It exits with 0 exactly when the configuration loads and the server shuts down in time.
\<close>

lemma sidecar_answers:
  "hs_handler (serveServer compress metrics notFound cfg) ''/health'' rq h = (h, ''ok'')"
  "hs_handler (serveServer compress metrics notFound cfg) ''/metrics'' rq h = metrics h"
  "hs_handler (workerServer compress handlers cfg) ''/health'' rq h = handlers EpHealth h"
  by (simp_all add: serveServer_def workerServer_def workerRoute_def Gzip_skips serveHandler_def serveRoute_def)

lemma sidecar_exit:
  "exitStatus (snd (runServe compress metrics notFound loaded shutdown)) = 0 \<longleftrightarrow> (\<exists>cfg. loaded = Inr cfg) \<and> shutdown = None"
  by (auto simp: exitStatus_def runServe_def split: sum.split)

section \<open>A running worker\<close>

lemma drainResult_order:
  "set (st_order (w_store (drainResult trace clk og budgets r w))) \<subseteq> insert (result_key r) (set (st_order (w_store w)))"
  by (auto simp: drainResult_def Let_def Push_sel split: option.split if_splits)

lemma drain_order:
  "set (st_order (w_store (drain trace og budgets rs w))) \<subseteq> result_key ` set (map snd rs) \<union> set (st_order (w_store w))"
proof (induction rs arbitrary: w)
  case (Cons x rs)
  then show ?case
    using drainResult_order [of trace "fst x" og budgets "snd x" w]
    by (cases x) (fastforce simp: drain_Cons)
qed (simp add: drain_def)

lemma runWorker_parts:
  assumes "runWorker b = Inr r" "bt_load b = Inr cfg"
  shows "sc_checks (bo_sched r) = bo_checks r" "sc_registry (bo_sched r) = registry (bt_join b) (bt_runner_fs b) (bt_world b) cfg"
    "set (st_order (w_store (bo_worker r))) \<subseteq> {k. configured (bo_checks r) k}" "\<not> w_panic (bo_worker r)"
  using assms
  by (auto simp: runWorker_def startWorker_def registry_def Scheduler.New_def Let_def SetHistory_def Reconcile_sel
      split: sum.splits option.splits if_splits)

lemma received_configured:
  assumes "runWorker b = Inr r" "bt_load b = Inr cfg" "sched_reach cv lib (bo_sched r) s" "res \<in> set (ss_received s)"
  shows "configured (bo_checks r) (result_key res)"
proof -
  have "res \<in> set (ss_recorded s) \<union> set (ss_received s) \<union> set (ss_results s)" using assms(4) by simp
  from registry_results(2) [OF assms(3) runWorker_parts(2) [OF assms(1,2)] this]
  show ?thesis by (simp add: runWorker_parts(1) [OF assms(1,2)] result_key_def)
qed


definition sample_boot :: boot_env where
  "sample_boot = \<lparr> bt_load = Inr zeroConfig, bt_flags = no_flags, bt_checks = Inr [sample_tcp], bt_budgets = Inl ''no file'',
     bt_origin_id = '''', bt_join = (@), bt_runner_fs = sample_fs, bt_world = sample_world, bt_url = (\<lambda>_. Inl ''bad''),
     bt_trace_exporter = (\<lambda>_. None), bt_metric_exporter = (\<lambda>_. None), bt_resource = (\<lambda>_. None), bt_aws = (\<lambda>_. Inl ''none''),
     bt_data_dir = '''', bt_files = (\<lambda>_. []), bt_io = \<lparr> io_mkdir = True, io_write = True, io_rename = True, io_readdir = True,
     io_remove = (\<lambda>_. True) \<rparr>, bt_sql_open = (\<lambda>_. None), bt_schema = (\<lambda>_. None) \<rparr>"

lemma zeroConfig_sel:
  "ot_endpoint (cfg_otel zeroConfig) = ''''" "pm_remote_write_url (cfg_prometheus zeroConfig) = ''''"
  "ResolveOrigin zeroConfig '''' = None" "cfg_check_filter zeroConfig = \<lparr> f_types = [], f_groups = [], f_tags = [] \<rparr>"
  by (simp_all add: zeroConfig_def ResolveOrigin_def)

lemma sample_boot_runs:
  "\<exists>r. runWorker sample_boot = Inr r \<and> bo_checks r = [sample_tcp] \<and> bo_sched r = world_sched \<and> bo_budgets r = []
     \<and> st_checks (w_store (bo_worker r)) = []"
proof -
  have "loadFilteredChecks no_flags (cfg_check_filter zeroConfig) (Inr [sample_tcp]) = Inr [sample_tcp]"
    by (simp add: loadFilteredChecks_def no_flags_def effectiveFilter_def zeroConfig_sel Validate_def IsEmpty_def)
  then show ?thesis
    by (simp add: runWorker_def OpenHistory_def sample_boot_def InitOTEL_def InitOTELMetrics_def remoteWrite_def zeroConfig_sel Let_def
        Scheduler.New_def world_sched_def registry_def startWorker_def NewStore_def load_def latestBackup_def SetHistory_def
        emptyStore_def Reconcile_sel)
qed


text \<open>
  Checks that cannot be loaded only cause a warning. The worker then starts without checks, and its
  reconciliation drops the history of every check that the last run had saved; the next save, at
  the latest the one at the shutdown, writes the empty store over it.
\<close>

lemma load_failure_forgets:
  assumes "bt_load b = Inr cfg" "bt_checks b = Inl e" "runWorker b = Inr r"
  shows "bo_checks r = []" "st_order (w_store (bo_worker r)) = []"
  using assms
  by (auto simp: runWorker_def loadFilteredChecks_def startWorker_def Let_def SetHistory_def Reconcile_sel configured_def
      split: sum.splits option.splits if_splits)

text \<open>Only the configuration, the telemetry clients and the history database can stop the start.\<close>

lemma runWorker_starts:
  assumes "bt_load b = Inr cfg" "ot_endpoint (cfg_otel cfg) = ''''" "pm_remote_write_url (cfg_prometheus cfg) = ''''"
    and "\<not> pe_enabled (cfg_persistence cfg)"
  shows "\<exists>r. runWorker b = Inr r"
  using assms by (simp add: runWorker_def InitOTEL_disabled remoteWrite_def Let_def)

end
