(* ===== verification/Notify_Pool.thy ===== *)
theory Notify_Pool
  imports Notify_Senders Goroutines
begin

text \<open>
  The goroutines that deliver notifications, the end of \<open>dispatch\<close> in \<open>internal/notify/notify.go\<close>,
  and \<open>Wait\<close>. Each waits for one of the four slots of \<open>sem\<close>, posts the event, sleeps two seconds
  after an error and posts it once more; it holds its slot until it returns, also while it sleeps.
  A request ends with an outcome or with the timeout of its context, so \<open>Attempt\<close> always happens
  in the end.
\<close>

section \<open>State and steps\<close>

definition maxConcurrentSends :: int where "maxConcurrentSends = 4"

datatype send_phase = AtSemaphore | FirstSend | Asleep | SecondSend | SendOver

record delivery =
  dl_sending :: sending
  dl_phase :: send_phase
  dl_outcomes :: "http_outcome list"

record pool =
  np_wg :: int
  np_sem :: int
  np_sends :: "delivery list"

definition emptyPool :: pool where
  "emptyPool = \<lparr> np_wg = 0, np_sem = 0, np_sends = [] \<rparr>"

definition goSend :: "sending \<Rightarrow> pool \<Rightarrow> pool" where
  "goSend sd p = p \<lparr> np_wg := np_wg p + 1,
     np_sends := np_sends p @ [\<lparr> dl_sending = sd, dl_phase = AtSemaphore, dl_outcomes = [] \<rparr>] \<rparr>"

text \<open>\<open>AcquireSem i\<close>, \<open>Attempt i outcome\<close> and \<open>WakeUp i\<close> are what delivery \<open>i\<close> does next.\<close>

datatype pool_event = AcquireSem nat | Attempt nat http_outcome | WakeUp nat

definition posted :: "http_outcome \<Rightarrow> delivery \<Rightarrow> send_error option" where
  "posted oc d = Send (\<lambda>_ _. oc) (sd_sender (dl_sending d)) (sd_event (dl_sending d))"

text \<open>The deferred functions of a delivery that returns: it frees its slot and leaves the wait group.\<close>

definition sendReturns :: "nat \<Rightarrow> delivery \<Rightarrow> pool \<Rightarrow> pool" where
  "sendReturns i d p = \<lparr> np_wg = np_wg p - 1, np_sem = np_sem p - 1,
     np_sends = (np_sends p)[i := d \<lparr> dl_phase := SendOver \<rparr>] \<rparr>"

definition move :: "nat \<Rightarrow> delivery \<Rightarrow> send_phase \<Rightarrow> pool \<Rightarrow> pool" where
  "move i d ph p = p \<lparr> np_sends := (np_sends p)[i := d \<lparr> dl_phase := ph \<rparr>] \<rparr>"

definition send_at :: "nat \<Rightarrow> send_phase \<Rightarrow> pool \<Rightarrow> bool" where
  "send_at i ph p \<longleftrightarrow> i < length (np_sends p) \<and> dl_phase (np_sends p ! i) = ph"

fun pool_step :: "pool_event \<Rightarrow> pool \<Rightarrow> pool option" where
  "pool_step (AcquireSem i) p =
     (if send_at i AtSemaphore p \<and> np_sem p < maxConcurrentSends
      then Some (move i (np_sends p ! i) FirstSend (p \<lparr> np_sem := np_sem p + 1 \<rparr>)) else None)"
| "pool_step (Attempt i oc) p =
     (let d = (np_sends p ! i) \<lparr> dl_outcomes := dl_outcomes (np_sends p ! i) @ [oc] \<rparr>
      in if send_at i FirstSend p
         then Some (if posted oc d = None then sendReturns i d p else move i d Asleep p)
         else if send_at i SecondSend p then Some (sendReturns i d p)
         else None)"
| "pool_step (WakeUp i) p =
     (if send_at i Asleep p then Some (move i (np_sends p ! i) SecondSend p) else None)"

text \<open>A nil manager has nothing to wait for.\<close>

definition WaitReturns :: "pool option \<Rightarrow> bool" where
  "WaitReturns po = (case po of None \<Rightarrow> True | Some p \<Rightarrow> np_wg p = 0)"

inductive pool_go :: "pool \<Rightarrow> pool \<Rightarrow> bool" where
  pool_start: "pool_go p (goSend sd p)"
| pool_move: "pool_step e p = Some p' \<Longrightarrow> pool_go p p'"

inductive pool_reach :: "pool \<Rightarrow> bool" where
  pool_init: "pool_reach emptyPool"
| pool_more: "pool_reach p \<Longrightarrow> pool_go p p' \<Longrightarrow> pool_reach p'"

inductive_cases pool_goE: "pool_go p p'"

section \<open>The counters\<close>

definition in_wg :: "delivery \<Rightarrow> bool" where "in_wg d \<longleftrightarrow> dl_phase d \<noteq> SendOver"

definition holds_slot :: "delivery \<Rightarrow> bool" where
  "holds_slot d \<longleftrightarrow> dl_phase d = FirstSend \<or> dl_phase d = Asleep \<or> dl_phase d = SecondSend"

lemmas pool_defs = goSend_def sendReturns_def move_def send_at_def in_wg_def holds_slot_def

fun steps_left :: "send_phase \<Rightarrow> nat" where
  "steps_left AtSemaphore = 4"
| "steps_left FirstSend = 3"
| "steps_left Asleep = 2"
| "steps_left SecondSend = 1"
| "steps_left SendOver = 0"

text \<open>Every move takes one delivery a step on, and the counters follow it.\<close>

definition moves :: "nat \<Rightarrow> delivery \<Rightarrow> pool \<Rightarrow> pool \<Rightarrow> bool" where
  "moves i d p p' \<longleftrightarrow> i < length (np_sends p) \<and> np_sends p' = (np_sends p)[i := d]
     \<and> steps_left (dl_phase d) < steps_left (dl_phase (np_sends p ! i))
     \<and> np_wg p' = np_wg p - of_bool (in_wg (np_sends p ! i)) + of_bool (in_wg d)
     \<and> np_sem p' = np_sem p - of_bool (holds_slot (np_sends p ! i)) + of_bool (holds_slot d)
     \<and> (np_sem p' \<le> np_sem p \<or> np_sem p < maxConcurrentSends)"

lemma pool_step_moves:
  assumes "pool_step e p = Some p'"
  shows "\<exists>i d. moves i d p p'"
proof (cases e)
  case (AcquireSem i)
  with assms have "moves i ((np_sends p ! i) \<lparr> dl_phase := FirstSend \<rparr>) p p'"
    by (auto simp: moves_def pool_defs split: if_splits)
  then show ?thesis by blast
next
  case (WakeUp i)
  with assms have "moves i ((np_sends p ! i) \<lparr> dl_phase := SecondSend \<rparr>) p p'"
    by (auto simp: moves_def pool_defs split: if_splits)
  then show ?thesis by blast
next
  case (Attempt i oc)
  let ?d = "(np_sends p ! i) \<lparr> dl_outcomes := dl_outcomes (np_sends p ! i) @ [oc] \<rparr>"
  from assms Attempt have "moves i (?d \<lparr> dl_phase := SendOver \<rparr>) p p' \<or> moves i (?d \<lparr> dl_phase := Asleep \<rparr>) p p'"
    by (simp add: Let_def split: if_splits) (auto simp: moves_def pool_defs)
  then show ?thesis by blast
qed

lemma pool_goD:
  assumes "pool_go p p'"
  shows "(\<exists>sd. p' = goSend sd p) \<or> (\<exists>i d. moves i d p p')"
  using assms by (elim pool_goE) (blast dest: pool_step_moves)+

lemma pool_go_follows:
  assumes "pool_go p p'"
  shows "follows in_wg (np_sends p) (np_wg p) (np_sends p') (np_wg p')"
    and "follows holds_slot (np_sends p) (np_sem p) (np_sends p') (np_sem p')"
    and "np_sem p \<le> maxConcurrentSends \<Longrightarrow> np_sem p' \<le> maxConcurrentSends"
proof -
  consider sd where "p' = goSend sd p" | i d where "moves i d p p'" using pool_goD [OF assms] by blast
  then have "follows in_wg (np_sends p) (np_wg p) (np_sends p') (np_wg p')
    \<and> follows holds_slot (np_sends p) (np_sem p) (np_sends p') (np_sem p')
    \<and> (np_sem p \<le> maxConcurrentSends \<longrightarrow> np_sem p' \<le> maxConcurrentSends)"
  proof cases
    case 1
    then show ?thesis by (intro conjI follows_go) (auto simp: goSend_def in_wg_def holds_slot_def)
  next
    case (2 i d)
    then show ?thesis unfolding moves_def
      by (intro conjI follows_move [of i _ _ d]) (auto simp: of_bool_def split: if_splits)
  qed
  then show "follows in_wg (np_sends p) (np_wg p) (np_sends p') (np_wg p')"
    "follows holds_slot (np_sends p) (np_sem p) (np_sends p') (np_sem p')"
    "np_sem p \<le> maxConcurrentSends \<Longrightarrow> np_sem p' \<le> maxConcurrentSends" by blast+
qed

interpretation wg: goroutine_counter pool_go np_sends in_wg np_wg
  by unfold_locales (rule pool_go_follows)

interpretation sem: semaphore pool_go np_sends holds_slot np_sem maxConcurrentSends
  by unfold_locales (auto intro: pool_go_follows)

lemma pool_reach_counts:
  assumes "pool_reach p"
  shows "exact in_wg (np_sends p) (np_wg p) \<and> exact holds_slot (np_sends p) (np_sem p) \<and> np_sem p \<le> maxConcurrentSends"
  using assms
proof (induction rule: pool_reach.induct)
  case pool_init
  then show ?case by (simp add: emptyPool_def exact_def maxConcurrentSends_def)
next
  case (pool_more p p')
  then show ?case using wg.exact_step sem.bounded_step by blast
qed

section \<open>What a delivery has done\<close>

definition delivery_ok :: "delivery \<Rightarrow> bool" where
  "delivery_ok d \<longleftrightarrow>
     (case dl_phase d of
        AtSemaphore \<Rightarrow> dl_outcomes d = []
      | FirstSend \<Rightarrow> dl_outcomes d = []
      | Asleep \<Rightarrow> (\<exists>oc. dl_outcomes d = [oc] \<and> posted oc d \<noteq> None)
      | SecondSend \<Rightarrow> (\<exists>oc. dl_outcomes d = [oc] \<and> posted oc d \<noteq> None)
      | SendOver \<Rightarrow> (\<exists>oc. dl_outcomes d = [oc] \<and> posted oc d = None)
          \<or> (\<exists>oc oc'. dl_outcomes d = [oc, oc'] \<and> posted oc d \<noteq> None))"

lemma posted_update [simp]: "posted oc (d \<lparr> dl_phase := ph, dl_outcomes := os \<rparr>) = posted oc d"
  "posted oc (d \<lparr> dl_phase := ph \<rparr>) = posted oc d" "posted oc (d \<lparr> dl_outcomes := os \<rparr>) = posted oc d"
  by (simp_all add: posted_def)

lemma pool_step_deliveries:
  assumes "list_all delivery_ok (np_sends p)" "pool_step e p = Some p'"
  shows "list_all delivery_ok (np_sends p')"
proof -
  have upd: "list_all delivery_ok ((np_sends p)[i := d])" if "delivery_ok d" for i d
    using assms(1) that by (auto simp: list_all_iff dest!: set_update_subset_insert [THEN subsetD])
  have at: "delivery_ok (np_sends p ! i)" if "i < length (np_sends p)" for i
    using assms(1) that by (simp add: list_all_length)
  show ?thesis
  proof (cases e)
    case (AcquireSem i)
    with assms(2) at [of i] show ?thesis
      by (auto simp: move_def send_at_def delivery_ok_def split: if_splits intro!: upd)
  next
    case (WakeUp i)
    with assms(2) at [of i] show ?thesis
      by (auto simp: move_def send_at_def delivery_ok_def split: if_splits intro!: upd)
  next
    case (Attempt i oc)
    with assms(2) at [of i] show ?thesis
      by (auto simp: move_def sendReturns_def send_at_def delivery_ok_def Let_def split: if_splits intro!: upd)
  qed
qed

lemma pool_go_deliveries:
  assumes "pool_go p p'" "list_all delivery_ok (np_sends p)"
  shows "list_all delivery_ok (np_sends p')"
proof -
  from assms(1) consider sd where "p' = goSend sd p" | e where "pool_step e p = Some p'"
    by (auto elim: pool_goE)
  then show ?thesis
  proof cases
    case (1 sd)
    with assms(2) show ?thesis by (simp add: goSend_def delivery_ok_def)
  next
    case (2 e)
    with assms(2) show ?thesis by (rule pool_step_deliveries)
  qed
qed
lemma pool_reach_deliveries: "pool_reach p \<Longrightarrow> list_all delivery_ok (np_sends p)"
  by (induction rule: pool_reach.induct) (simp add: emptyPool_def, rule pool_go_deliveries)

text \<open>A delivery that is over has done what \<open>deliver\<close> does against a client with its outcomes.\<close>

definition as_delivered :: "delivery \<Rightarrow> bool" where
  "as_delivered d \<longleftrightarrow>
     (let sd = dl_sending d; out = deliver (\<lambda>n _ _. dl_outcomes d ! n) (sd_sender sd) (sd_event sd)
      in length (fst out) = length (dl_outcomes d) \<and> snd out = posted (last (dl_outcomes d)) d)"

lemma over_as_delivered: "delivery_ok d \<Longrightarrow> \<not> in_wg d \<Longrightarrow> as_delivered d"
  by (auto simp: delivery_ok_def in_wg_def as_delivered_def deliver_def posted_def Let_def split: option.split)

section \<open>Every delivery ends\<close>

fun pool_run :: "pool_event list \<Rightarrow> pool \<Rightarrow> pool option" where
  "pool_run [] p = Some p"
| "pool_run (e # es) p = (case pool_step e p of None \<Rightarrow> None | Some p' \<Rightarrow> pool_run es p')"

definition work :: "pool \<Rightarrow> nat" where
  "work p = sum_list (map (\<lambda>d. steps_left (dl_phase d)) (np_sends p))"

lemma sum_list_update_nat:
  "i < length xs \<Longrightarrow> sum_list ((xs :: nat list)[i := y]) + xs ! i = sum_list xs + y"
proof (induction xs arbitrary: i)
  case (Cons x xs)
  then show ?case by (cases i) auto
qed simp

lemma work_update:
  "i < length (np_sends p) \<Longrightarrow> np_sends p' = (np_sends p)[i := d] \<Longrightarrow>
     work p' + steps_left (dl_phase (np_sends p ! i)) = work p + steps_left (dl_phase d)"
  using sum_list_update_nat [of i "map (\<lambda>d. steps_left (dl_phase d)) (np_sends p)" "steps_left (dl_phase d)"]
  by (simp add: work_def map_update)

lemma pool_step_work: "pool_step e p = Some p' \<Longrightarrow> work p' < work p"
  using work_update [of _ p p'] pool_step_moves [of e p p'] by (fastforce simp: moves_def)

lemma pool_run_work:
  "pool_run es p = Some p' \<Longrightarrow> length es + work p' \<le> work p"
proof (induction es arbitrary: p)
  case (Cons e es)
  then obtain q where q: "pool_step e p = Some q" "pool_run es q = Some p'" by (auto split: option.splits)
  with Cons.IH [OF q(2)] pool_step_work [OF q(1)] show ?case by simp
qed simp

lemma pool_run_reach: "pool_reach p \<Longrightarrow> pool_run es p = Some p' \<Longrightarrow> pool_reach p'"
proof (induction es arbitrary: p)
  case (Cons e es)
  then obtain q where "pool_step e p = Some q" "pool_run es q = Some p'" by (auto split: option.splits)
  with Cons show ?case by (blast intro: pool_more pool_move)
qed simp

lemma work_bound: "exact in_wg (np_sends p) (np_wg p) \<Longrightarrow> int (work p) \<le> 4 * np_wg p"
proof -
  have "sum_list (map (\<lambda>d. steps_left (dl_phase d)) ds) \<le> 4 * length (filter in_wg ds)" for ds
  proof (induction ds)
    case (Cons d ds)
    have "steps_left (dl_phase d) \<le> (if in_wg d then 4 else 0)" by (cases "dl_phase d") (auto simp: in_wg_def)
    with Cons show ?case by (auto split: if_splits)
  qed simp
  from this [of "np_sends p"] show "exact in_wg (np_sends p) (np_wg p) \<Longrightarrow> int (work p) \<le> 4 * np_wg p"
    unfolding work_def exact_def by linarith
qed

text \<open>The four slots cannot deadlock: while a delivery is not over, some delivery can go on.\<close>

lemma pool_goes_on:
  assumes "pool_reach p" "np_wg p \<noteq> 0"
  shows "\<exists>e. pool_step e p \<noteq> None"
proof -
  note ex = pool_reach_counts [OF assms(1)]
  show ?thesis
  proof (cases "np_sem p = 0")
    case True
    from ex assms(2) exact_zero_iff [of in_wg] obtain i where i: "i < length (np_sends p)" "in_wg (np_sends p ! i)"
      by (auto simp: list_all_length)
    from True ex exact_zero_iff [of holds_slot "np_sends p" "np_sem p"] i(1) have "\<not> holds_slot (np_sends p ! i)"
      by (simp add: list_all_length)
    with i have "send_at i AtSemaphore p"
      by (cases "dl_phase (np_sends p ! i)") (auto simp: in_wg_def holds_slot_def send_at_def)
    with True have "pool_step (AcquireSem i) p \<noteq> None" by (simp add: maxConcurrentSends_def)
    then show ?thesis by blast
  next
    case False
    with ex exact_zero_iff [of holds_slot "np_sends p" "np_sem p"] obtain i where
      "i < length (np_sends p)" "holds_slot (np_sends p ! i)" by (auto simp: list_all_length)
    then consider "send_at i FirstSend p" | "send_at i Asleep p" | "send_at i SecondSend p"
      by (auto simp: holds_slot_def send_at_def)
    then have "pool_step (Attempt i RequestFailed) p \<noteq> None \<or> pool_step (WakeUp i) p \<noteq> None"
      by cases (simp_all add: Let_def)
    then show ?thesis by blast
  qed
qed

text \<open>
  Property C12. Notifications drain. Whatever notifications were dispatched, in whatever order their goroutines
  run and whatever the endpoints answer: never more than four of them hold a slot; after at most
  four steps per unfinished delivery no delivery can go on, and until then one always can, so that
  \<open>Wait\<close> returns; and when it does, every dispatched event has been posted once, or a second time
  after an error, as \<open>deliver\<close> says.
\<close>

theorem Wait_returns:
  assumes "pool_reach p" and "pool_run es p = Some p'"
  shows "int (length (filter holds_slot (np_sends p'))) \<le> 4
    \<and> int (length es) \<le> 4 * np_wg p
    \<and> (WaitReturns (Some p') \<longleftrightarrow> (\<forall>e. pool_step e p' = None))
    \<and> (WaitReturns (Some p') \<longrightarrow> list_all as_delivered (np_sends p'))"
proof -
  note r = pool_run_reach [OF assms]
  note ex = pool_reach_counts [OF r]
  have over: "WaitReturns (Some p') \<longleftrightarrow> list_all (\<lambda>d. \<not> in_wg d) (np_sends p')"
    using exact_zero_iff ex by (auto simp: WaitReturns_def)
  have "pool_step e p' = None" if "list_all (\<lambda>d. \<not> in_wg d) (np_sends p')" for e
    using that by (cases e) (auto simp: send_at_def in_wg_def list_all_length Let_def)
  then have stop: "WaitReturns (Some p') \<longleftrightarrow> (\<forall>e. pool_step e p' = None)"
    using over pool_goes_on [OF r] by (auto simp: WaitReturns_def)
  moreover have "WaitReturns (Some p') \<longrightarrow> list_all as_delivered (np_sends p')"
    using over pool_reach_deliveries [OF r] over_as_delivered by (simp add: list_all_iff)
  moreover have "int (length es) \<le> 4 * np_wg p"
    using pool_run_work [OF assms(2)] work_bound [of p] pool_reach_counts [OF assms(1)] by linarith
  ultimately show ?thesis using ex by (simp add: exact_def maxConcurrentSends_def)
qed

definition sample_sending :: sending where
  "sample_sending = \<lparr> sd_index = 0, sd_time = 5, sd_sender = GenericSender ''u'', sd_event = budgetEvent 5 ''web'' ''TTFB'' \<rparr>"

theorem Wait_returns_witness:
  "\<exists>p. pool_run [AcquireSem 0, Attempt 0 RequestFailed, WakeUp 0, Attempt 0 (Responded 200)] (goSend sample_sending emptyPool) = Some p
     \<and> WaitReturns (Some p) \<and> list_all as_delivered (np_sends p) \<and> map dl_outcomes (np_sends p) = [[RequestFailed, Responded 200]]"
proof -
  have reach: "pool_reach (goSend sample_sending emptyPool)" by (rule pool_more [OF pool_init pool_start])
  obtain p where p: "pool_run [AcquireSem 0, Attempt 0 RequestFailed, WakeUp 0, Attempt 0 (Responded 200)] (goSend sample_sending emptyPool) = Some p"
    "np_wg p = 0" "map dl_outcomes (np_sends p) = [[RequestFailed, Responded 200]]"
    by (simp add: goSend_def emptyPool_def maxConcurrentSends_def send_at_def move_def sendReturns_def posted_def
        send_defs sample_sending_def Let_def)
  have "WaitReturns (Some p)" using p(2) by (simp add: WaitReturns_def)
  with Wait_returns [OF reach p(1)] p(1,3) show ?thesis by (intro exI [of _ p]) simp
qed

end
