(* ===== verification/Worker_Process.thy ===== *)
theory Worker_Process
  imports Worker_Start Notify_Pool Status_Page
begin

text \<open>
  The running worker as one process, the goroutines that \<open>runWorker\<close> in \<open>cmd/worker.go\<close> starts
  and its shutdown: the scheduler, the drain loop, the deliveries of notifications, the periodic
  saver, the writer of the history and the main goroutine. A step of the process is a step of one of
  them; the theorems hold for every interleaving, and a crash is any state. The drain loop handles
  one result in one step, after it has received it.
\<close>

section \<open>State\<close>

text \<open>
  Where the main goroutine is after the signal: in \<open>notifier.Wait\<close>, before the final \<open>Save\<close>,
  before \<open>cancel\<close>, in \<open>httpServer.Shutdown\<close>, in the deferred \<open>hist.Close\<close>, or gone, with the
  error of the shutdown.
\<close>

datatype main_phase =
    Serving
  | AwaitingSends
  | Saving
  | Cancelling
  | StoppingServer
  | ClosingHistory "string option"
  | Exited "string option"

record process =
  px_sched :: sched_state
  px_drained :: "((nat \<Rightarrow> gotime) \<times> Result) list"
  px_worker :: worker
  px_pool :: pool
  px_history :: "hist_store option"
  px_dir :: dir
  px_saver :: bool
  px_main :: main_phase

text \<open>What does not change while the process runs.\<close>

record process_env =
  pv_lib :: golib
  pv_trace :: "Result \<Rightarrow> string \<times> string"
  pv_origin :: "Origin option"
  pv_budgets :: "Budget list"
  pv_sched_origin :: "Origin option"
  pv_base :: string
  pv_encode :: "Snapshot \<Rightarrow> string"
  pv_render :: "Snapshot \<Rightarrow> string option"
  pv_digest :: "string \<Rightarrow> string"

section \<open>Steps\<close>

text \<open>The goroutines that the dispatches of one result start.\<close>

definition sentBy :: "Manager option \<Rightarrow> sending list" where
  "sentBy mo = (case mo of None \<Rightarrow> [] | Some m \<Rightarrow> m_sent m)"

definition startSends :: "Manager option \<Rightarrow> Manager option \<Rightarrow> pool \<Rightarrow> pool" where
  "startSends before after p = fold goSend (drop (length (sentBy before)) (sentBy after)) p"

datatype process_event =
    SchedStep event
  | TakeResult
  | HandleTaken "nat \<Rightarrow> gotime"
  | PoolStep pool_event
  | HistoryStep hist_event
  | Request gotime gotime gotime string string
  | SaveTicker io
  | BackupTicker io gotime gotime
  | SaverReturns
  | Signal
  | SendsAwaited
  | FinalSave io
  | CancelContext
  | ServerStopped "string option"
  | HistoryClosed bool

definition writerEvent :: "hist_event \<Rightarrow> bool" where
  "writerEvent e = (case e of TakeOne c \<Rightarrow> True | FlushTick c \<Rightarrow> True | PruneTick ok now \<Rightarrow> True | _ \<Rightarrow> False)"

definition schedulerEvent :: "event \<Rightarrow> bool" where
  "schedulerEvent e \<longleftrightarrow> e \<noteq> Cancel \<and> e \<noteq> Receive"

definition with_sched :: "process_env \<Rightarrow> event \<Rightarrow> process \<Rightarrow> process option" where
  "with_sched pv e p = map_option (\<lambda>s. p \<lparr> px_sched := s \<rparr>) (sched_step (pv_lib pv) (pv_sched_origin pv) e (px_sched p))"

text \<open>The body of the drain loop for the result it has received last.\<close>

definition handleTaken :: "process_env \<Rightarrow> (nat \<Rightarrow> gotime) \<Rightarrow> process \<Rightarrow> process" where
  "handleTaken pv clk p =
     (let r = ss_received (px_sched p) ! length (px_drained p);
          w = drainResult (pv_trace pv) clk (pv_origin pv) (pv_budgets pv) r (px_worker p)
      in p \<lparr> px_drained := px_drained p @ [(clk, r)], px_worker := w,
             px_pool := startSends (w_notifier (px_worker p)) (w_notifier w) (px_pool p),
             px_history := map_option (Record (Some r)) (px_history p) \<rparr>)"

definition saveStep :: "process_env \<Rightarrow> io \<Rightarrow> process \<Rightarrow> process" where
  "saveStep pv os p =
     (case saveTick os (pv_base pv) (px_worker p, px_dir p) of (w, d) \<Rightarrow> p \<lparr> px_worker := w, px_dir := d \<rparr>)"

definition backupStep :: "process_env \<Rightarrow> io \<Rightarrow> gotime \<Rightarrow> gotime \<Rightarrow> process \<Rightarrow> process" where
  "backupStep pv os now now' p =
     p \<lparr> px_dir := snd (backupTick os now now' (pv_base pv) (px_worker p, px_dir p)) \<rparr>"

text \<open>
  A request for \<open>path\<close> with its \<open>If-None-Match\<close> header; only the status endpoint changes the
  state, by the snapshot it caches. \<open>net/http\<close> recovers a panic of a handler.
\<close>

definition statusResponse ::
  "process_env \<Rightarrow> gotime \<Rightarrow> gotime \<Rightarrow> gotime \<Rightarrow> string \<Rightarrow> string \<Rightarrow> Store \<Rightarrow> (response \<times> Store) option"
where
  "statusResponse pv t0 t1 t2 path inm s =
     (if workerRoute path = EpStatus
      then Handler (pv_encode pv) (pv_render pv) (pv_digest pv) t0 t1 t2 path inm s else None)"

definition requestStep ::
  "process_env \<Rightarrow> gotime \<Rightarrow> gotime \<Rightarrow> gotime \<Rightarrow> string \<Rightarrow> string \<Rightarrow> process \<Rightarrow> process"
where
  "requestStep pv t0 t1 t2 path inm p =
     (case statusResponse pv t0 t1 t2 path inm (w_store (px_worker p)) of
        None \<Rightarrow> p
      | Some (resp, s) \<Rightarrow> p \<lparr> px_worker := (px_worker p) \<lparr> w_store := s \<rparr> \<rparr>)"

definition exited :: "process \<Rightarrow> bool" where
  "exited p = (case px_main p of Exited err \<Rightarrow> True | _ \<Rightarrow> False)"

text \<open>A panic of any goroutine ends the process, as the return of the main goroutine does.\<close>

definition running :: "process \<Rightarrow> bool" where
  "running p \<longleftrightarrow> \<not> exited p \<and> \<not> w_panic (px_worker p) \<and> \<not> ss_panic (px_sched p)"

definition main_step :: "main_phase \<Rightarrow> process \<Rightarrow> process option \<Rightarrow> process option" where
  "main_step ph p p' = (if px_main p = ph then p' else None)"

fun process_move :: "process_env \<Rightarrow> process_event \<Rightarrow> process \<Rightarrow> process option" where
  "process_move pv (SchedStep e) p = (if schedulerEvent e then with_sched pv e p else None)"
| "process_move pv TakeResult p =
     (if length (px_drained p) = length (ss_received (px_sched p)) then with_sched pv Receive p else None)"
| "process_move pv (HandleTaken clk) p =
     (if length (px_drained p) < length (ss_received (px_sched p)) then Some (handleTaken pv clk p) else None)"
| "process_move pv (PoolStep e) p = map_option (\<lambda>q. p \<lparr> px_pool := q \<rparr>) (pool_step e (px_pool p))"
| "process_move pv (HistoryStep e) p =
     (if writerEvent e then Some (p \<lparr> px_history := map_option (run_step e) (px_history p) \<rparr>) else None)"
| "process_move pv (Request t0 t1 t2 path inm) p = Some (requestStep pv t0 t1 t2 path inm p)"
| "process_move pv (SaveTicker os) p = (if px_saver p then Some (saveStep pv os p) else None)"
| "process_move pv (BackupTicker os now now') p = (if px_saver p then Some (backupStep pv os now now' p) else None)"
| "process_move pv SaverReturns p =
     (if px_saver p \<and> ss_done (px_sched p) then Some (p \<lparr> px_saver := False \<rparr>) else None)"
| "process_move pv Signal p = main_step Serving p (Some (p \<lparr> px_main := AwaitingSends \<rparr>))"
| "process_move pv SendsAwaited p =
     main_step AwaitingSends p
       (if WaitReturns (map_option (\<lambda>m. px_pool p) (w_notifier (px_worker p))) then Some (p \<lparr> px_main := Saving \<rparr>) else None)"
| "process_move pv (FinalSave os) p = main_step Saving p (Some ((saveStep pv os p) \<lparr> px_main := Cancelling \<rparr>))"
| "process_move pv CancelContext p =
     main_step Cancelling p (map_option (\<lambda>q. q \<lparr> px_main := StoppingServer \<rparr>) (with_sched pv Cancel p))"
| "process_move pv (ServerStopped err) p =
     main_step StoppingServer p
       (Some (p \<lparr> px_main := (if px_history p = None then Exited err else ClosingHistory err) \<rparr>))"
| "process_move pv (HistoryClosed c) p =
     (case px_main p of
        ClosingHistory err \<Rightarrow>
          Some (p \<lparr> px_history := map_option (run_step (Done c)) (px_history p), px_main := Exited err \<rparr>)
      | _ \<Rightarrow> None)"

definition process_step :: "process_env \<Rightarrow> process_event \<Rightarrow> process \<Rightarrow> process option" where
  "process_step pv e p = (if running p then process_move pv e p else None)"

text \<open>The process when \<open>runWorker\<close> has started everything.\<close>

definition startProcess :: "(string \<Rightarrow> bool) \<Rightarrow> booted \<Rightarrow> dir \<Rightarrow> process" where
  "startProcess cron_valid r d =
     \<lparr> px_sched = Start cron_valid (bo_sched r), px_drained = [], px_worker = bo_worker r, px_pool = emptyPool,
       px_history = bo_history r, px_dir = d, px_saver = True, px_main = Serving \<rparr>"

inductive process_reach :: "process_env \<Rightarrow> process \<Rightarrow> process \<Rightarrow> bool" for pv p0 where
  process_init: "process_reach pv p0 p0"
| process_more: "process_reach pv p0 p \<Longrightarrow> process_step pv e p = Some p' \<Longrightarrow> process_reach pv p0 p'"

section \<open>What a step changes\<close>

text \<open>Two stores with the same checks in the same order.\<close>

definition same_content :: "Store \<Rightarrow> Store \<Rightarrow> bool" where
  "same_content s t \<longleftrightarrow> st_checks s = st_checks t \<and> st_order s = st_order t"

lemma same_content_refl [simp]: "same_content s s"
  by (simp add: same_content_def)

lemma same_content_trans: "same_content s t \<Longrightarrow> same_content t u \<Longrightarrow> same_content s u"
  by (simp add: same_content_def)

lemma same_content_Push: "same_content s t \<Longrightarrow> same_content (Push r s) (Push r t)"
  by (simp add: same_content_def Push_sel ring_or_new_def)

lemma same_content_history: "same_content s t \<Longrightarrow> history_of k s = history_of k t"
  by (simp add: same_content_def history_of_def)

lemma drainResult_content:
  "\<not> w_panic w \<Longrightarrow> same_content (w_store (drainResult trace clk og budgets r w)) (Push r (w_store w))"
  by (simp add: same_content_def drainResult_def Let_def split: option.split)

lemma saveTick_content:
  "same_content (w_store (fst (saveTick os base wd))) (w_store (fst wd))"
  "w_panic (fst (saveTick os base wd)) = w_panic (fst wd)"
  "w_log (fst (saveTick os base wd)) = w_log (fst wd)"
  "w_notifier (fst (saveTick os base wd)) = w_notifier (fst wd)"
  "st_path (w_store (fst (saveTick os base wd))) = st_path (w_store (fst wd))"
  by (simp_all add: same_content_def saveTick_def Save_def recordWriteResult_def case_prod_beta split: option.split)

lemma recordWriteResult_ok:
  "store_ok (recordWriteResult err s) = store_ok s" "cache_ok (recordWriteResult err s) = cache_ok s"
proof -
  have "computeSnapshot t (s \<lparr> st_consecutiveWriteFail := n \<rparr>) = computeSnapshot t s" for t n
    by (simp add: computeSnapshot_def split: option.split)
  then show "store_ok (recordWriteResult err s) = store_ok s" "cache_ok (recordWriteResult err s) = cache_ok s"
    by (simp_all add: store_ok_def cache_ok_def recordWriteResult_def split: option.split)
qed

lemma saveTick_store:
  "store_ok (w_store (fst (saveTick os base wd))) = store_ok (w_store (fst wd))"
  "cache_ok (w_store (fst (saveTick os base wd))) = cache_ok (w_store (fst wd))"
  by (simp_all add: saveTick_def Save_def case_prod_beta recordWriteResult_ok)

lemma saveTick_file:
  assumes "st_path (w_store (fst wd)) \<noteq> ''''"
  shows "map_of (snd (saveTick os base wd)) base =
    (if save_fails os then map_of (snd wd) base else Some (Json (persist (w_store (fst wd)))))"
  using assms
  by (auto simp: saveTick_def Save_def save_def save_fails_def Let_def case_prod_beta gm.lookup_put gm.lookup_del)

lemma backup_file: "map_of (SaveBackup os now now' base s d) base = map_of d base"
proof -
  have "map_of (pruneBackups os now' base d') base = map_of d' base" for d'
  proof (cases "io_readdir os")
    case True
    then show ?thesis using pruneBackups_removes by blast
  qed (simp add: pruneBackups_def)
  then show ?thesis
    by (simp add: SaveBackup_def Let_def gm.lookup_put split: option.split)
qed

lemma with_schedD:
  "with_sched pv ev p = Some q \<Longrightarrow>
     \<exists>s. q = p \<lparr> px_sched := s \<rparr> \<and> sched_step (pv_lib pv) (pv_sched_origin pv) ev (px_sched p) = Some s"
  by (auto simp: with_sched_def)

text \<open>A step handles a result, saves, makes a backup, serves a page, or touches neither store nor file.\<close>

lemma process_step_cases:
  assumes "process_step pv e p = Some p'"
  obtains (handle) clk where "p' = handleTaken pv clk p" "length (px_drained p) < length (ss_received (px_sched p))"
      "\<not> w_panic (px_worker p)"
  | (save) os where "(px_worker p', px_dir p') = saveTick os (pv_base pv) (px_worker p, px_dir p)"
      "px_drained p' = px_drained p" "px_sched p' = px_sched p"
  | (backup) os now now' where "px_dir p' = SaveBackup os now now' (pv_base pv) (w_store (px_worker p)) (px_dir p)"
      "px_worker p' = px_worker p" "px_drained p' = px_drained p" "px_sched p' = px_sched p"
  | (page) t0 t1 t2 path inm where "p' = requestStep pv t0 t1 t2 path inm p"
  | (other) "px_worker p' = px_worker p" "px_dir p' = px_dir p" "px_drained p' = px_drained p"
      "px_sched p' = px_sched p \<or> (\<exists>ev. sched_step (pv_lib pv) (pv_sched_origin pv) ev (px_sched p) = Some (px_sched p'))"
proof -
  from assms have run: "running p" and mv: "process_move pv e p = Some p'"
    by (auto simp: process_step_def split: if_splits)
  show thesis
  proof (cases e)
    case (HandleTaken clk)
    with mv run show thesis by (intro handle [of clk]) (auto simp: running_def split: if_splits)
  next
    case (SaveTicker os)
    with mv show thesis
      by (intro save [of os]) (auto simp: saveStep_def case_prod_beta split: if_splits)
  next
    case (FinalSave os)
    with mv show thesis
      by (intro save [of os]) (auto simp: saveStep_def main_step_def case_prod_beta split: if_splits)
  next
    case (BackupTicker os now now')
    with mv show thesis
      by (intro backup [of os now now']) (auto simp: backupStep_def backupTick_def split: if_splits)
  next
    case (Request t0 t1 t2 path inm)
    with mv show thesis by (intro page [of t0 t1 t2 path inm]) simp
  next
    case (SchedStep ev)
    with mv have "with_sched pv ev p = Some p'" by (simp split: if_splits)
    with with_schedD [OF this] show thesis by (intro other) (auto simp del: sched_step.simps)
  next
    case TakeResult
    with mv have "with_sched pv Receive p = Some p'" by (simp split: if_splits)
    with with_schedD [OF this] show thesis by (intro other) (auto simp del: sched_step.simps)
  next
    case CancelContext
    with mv obtain q where "with_sched pv Cancel p = Some q" "p' = q \<lparr> px_main := StoppingServer \<rparr>"
      by (auto simp: main_step_def split: if_splits)
    with with_schedD [OF this(1)] show thesis by (intro other) (auto simp del: sched_step.simps)
  qed (use mv in \<open>auto simp: main_step_def split: if_splits option.splits main_phase.splits intro: other\<close>)
qed

section \<open>The invariant\<close>

lemma statusResponse_effect:
  assumes "statusResponse pv t0 t1 t2 path inm s = Some (resp, s')" "store_ok s" "cache_ok s"
  shows "same_content s' s \<and> store_ok s' \<and> cache_ok s' \<and> st_path s' = st_path s"
proof -
  from assms(1) have "s' = s \<or> (\<exists>snap. takeSnapshot t0 t1 t2 s = Some (snap, s'))"
    by (auto simp: statusResponse_def Handler_def split: if_splits option.splits)
  then show ?thesis
  proof
    assume "\<exists>snap. takeSnapshot t0 t1 t2 s = Some (snap, s')"
    with takeSnapshot_current [OF assms(2,3), of t0 t1 t2] show ?thesis
      by (auto simp: takeSnapshot_def same_content_def split: option.splits if_splits)
  qed (simp add: assms)
qed

lemma drainResult_store:
  assumes "\<not> w_panic w" "store_ok (w_store w)"
  shows "store_ok (w_store (drainResult trace clk og budgets r w))"
    "st_snapCache (w_store (drainResult trace clk og budgets r w)) = None"
    "st_path (w_store (drainResult trace clk og budgets r w)) = st_path (w_store w)"
proof -
  show "store_ok (w_store (drainResult trace clk og budgets r w))"
    using drainResult_spec(3) [OF assms] .
  have b: "st_snapCache (w_store v) = None \<Longrightarrow> st_snapCache (w_store (drainBudgets clk og' i cs v)) = None"
    "st_path (w_store (drainBudgets clk og' i cs v)) = st_path (w_store v)" for og' i cs v
    by (induction cs arbitrary: i v)
       (simp_all add: drainBudget_def Let_def case_prod_beta RecordBudgetCheck_def invalidateCache_def)
  show "st_snapCache (w_store (drainResult trace clk og budgets r w)) = None"
    "st_path (w_store (drainResult trace clk og budgets r w)) = st_path (w_store w)"
    using assms(1) by (auto simp: drainResult_def Let_def Push_sel b split: option.split)
qed

lemma sched_step_received:
  "sched_step lib og e s = Some s' \<Longrightarrow> \<exists>rs. ss_received s' = ss_received s @ rs"
  by (cases e)
     (auto simp: set_phase_def finish_def execute_def publish_def Let_def split: if_splits list.splits)

text \<open>
  The store holds exactly the results that were handled, on top of what it held at the start; these
  are the first of those received; the scheduler's part is a state of the scheduler.
\<close>

definition process_inv :: "(string \<Rightarrow> bool) \<Rightarrow> process_env \<Rightarrow> Scheduler \<Rightarrow> process \<Rightarrow> process \<Rightarrow> bool" where
  "process_inv cv pv sc p0 p \<longleftrightarrow>
     store_ok (w_store (px_worker p)) \<and> cache_ok (w_store (px_worker p))
     \<and> st_path (w_store (px_worker p)) = st_path (w_store (px_worker p0))
     \<and> same_content (w_store (px_worker p)) (fold Push (map snd (px_drained p)) (w_store (px_worker p0)))
     \<and> prefix (map snd (px_drained p)) (ss_received (px_sched p))
     \<and> sched_reach cv (pv_lib pv) sc (px_sched p)"

lemma process_inv_step:
  assumes "process_inv cv pv sc p0 p" "pv_sched_origin pv = sc_origin sc" "process_step pv e p = Some p'"
  shows "process_inv cv pv sc p0 p'"
  using assms(3)
proof (cases rule: process_step_cases)
  case (handle clk)
  let ?r = "ss_received (px_sched p) ! length (px_drained p)"
  from handle(2) assms(1) have "prefix (map snd (px_drained p) @ [?r]) (ss_received (px_sched p))"
    by (auto simp: process_inv_def prefix_def nth_append hd_drop_conv_nth [symmetric] neq_Nil_conv)
  moreover have "same_content (w_store (px_worker p)) (fold Push (map snd (px_drained p)) (w_store (px_worker p0)))"
    using assms(1) by (simp add: process_inv_def)
  from same_content_trans [OF drainResult_content [OF handle(3)] same_content_Push [OF this]]
  have "same_content (w_store (px_worker p')) (fold Push (map snd (px_drained p')) (w_store (px_worker p0)))"
    by (simp add: handle(1) handleTaken_def Let_def)
  ultimately show ?thesis
    using assms(1) drainResult_store [OF handle(3)]
    by (simp add: process_inv_def handle(1) handleTaken_def Let_def cache_ok_def)
next
  case (save os)
  then have w: "px_worker p' = fst (saveTick os (pv_base pv) (px_worker p, px_dir p))" by (metis fst_conv)
  from assms(1) save(2,3) show ?thesis
    by (auto simp: process_inv_def w saveTick_store saveTick_content(5)
        intro: same_content_trans [OF saveTick_content(1)])
next
  case (backup os now now')
  with assms(1) show ?thesis by (simp add: process_inv_def)
next
  case (page t0 t1 t2 path inm)
  with assms(1) statusResponse_effect [of pv t0 t1 t2 path inm "w_store (px_worker p)"] show ?thesis
    by (auto simp: process_inv_def requestStep_def split: option.split intro: same_content_trans)
next
  case other
  from other(4) assms(1) have "prefix (map snd (px_drained p)) (ss_received (px_sched p'))"
    by (auto simp: process_inv_def dest!: sched_step_received)
  moreover from other(4) assms(1,2) have "sched_reach cv (pv_lib pv) sc (px_sched p')"
    by (auto simp: process_inv_def intro: sched_reach.step)
  ultimately show ?thesis using assms(1) other by (simp add: process_inv_def)
qed

text \<open>The processes that \<open>runWorker\<close> starts, with the directory the saved status was loaded from.\<close>

definition process_of :: "boot_env \<Rightarrow> (string \<Rightarrow> bool) \<Rightarrow> process_env \<Rightarrow> booted \<Rightarrow> process \<Rightarrow> bool" where
  "process_of b cv pv r p \<longleftrightarrow>
     runWorker b = Inr r \<and> pv_base pv = statusPath b \<and> statusPath b \<noteq> ''''
     \<and> pv_origin pv = sc_origin (bo_sched r) \<and> pv_sched_origin pv = sc_origin (bo_sched r) \<and> pv_budgets pv = bo_budgets r
     \<and> process_reach pv (startProcess cv r (bt_files b (statusPath b))) p"

section \<open>What a start loads\<close>

lemma runWorker_store:
  assumes "runWorker b = Inr r" "bt_load b = Inr cfg"
  defines "st \<equiv> Reconcile (bo_checks r) (NewStore (bt_io b) (statusPath b) (bt_files b (statusPath b)) (cfg_service cfg)
      (ResolveOrigin cfg (bt_origin_id b)) (statusPath b))"
  shows "same_content (w_store (bo_worker r)) st" "st_snapCache (w_store (bo_worker r)) = st_snapCache st"
    "st_path (w_store (bo_worker r)) = st_path st" "store_ok (w_store (bo_worker r)) = store_ok st"
    "\<not> w_panic (bo_worker r)"
proof -
  have "bo_worker r = startWorker (bt_io b) (statusPath b) (bt_files b (statusPath b)) cfg (bt_origin_id b) (bo_checks r) (statusPath b)"
    using assms(1,2) by (auto simp: runWorker_def Let_def split: sum.splits option.splits if_splits)
  then show "same_content (w_store (bo_worker r)) st" "st_snapCache (w_store (bo_worker r)) = st_snapCache st"
    "st_path (w_store (bo_worker r)) = st_path st" "store_ok (w_store (bo_worker r)) = store_ok st" "\<not> w_panic (bo_worker r)"
    by (simp_all add: startWorker_def st_def Let_def SetHistory_def same_content_def store_ok_def)
qed

lemma NewStore_fresh:
  "st_snapCache (NewStore os base d service og path) = None" "st_path (NewStore os base d service og path) = path"
proof -
  have t: "st_snapCache (snd (tryLoadData data s)) = st_snapCache s" "st_path (snd (tryLoadData data s)) = st_path s" for data s
    by (simp_all add: tryLoadData_def Let_def split: filedata.split)
  have "st_snapCache (load os base d s) = st_snapCache s \<and> st_path (load os base d s) = st_path s" for s
    by (simp add: load_def case_prod_beta t split: option.split bool.split)
  then show "st_snapCache (NewStore os base d service og path) = None" "st_path (NewStore os base d service og path) = path"
    by (simp_all add: NewStore_def emptyStore_def)
qed

lemma Reconcile_path: "st_path (Reconcile checks s) = st_path s"
  by (simp add: Reconcile_def Let_def case_prod_beta)

text \<open>Reconciling with the checks that are there changes nothing.\<close>

lemma Reconcile_configured:
  "set (st_order s) \<subseteq> {k. configured checks k} \<Longrightarrow> same_content (Reconcile checks s) s"
proof -
  assume "set (st_order s) \<subseteq> {k. configured checks k}"
  then have "filter (configured checks) (st_order s) = st_order s" "filter (\<lambda>k. \<not> configured checks k) (st_order s) = []"
    by (auto simp: filter_id_conv filter_empty_conv)
  then show ?thesis by (simp add: same_content_def Reconcile_sel)
qed

section \<open>The status file\<close>

definition file_holds :: "process_env \<Rightarrow> process \<Rightarrow> process \<Rightarrow> nat \<Rightarrow> bool" where
  "file_holds pv p0 p n \<longleftrightarrow> n \<le> length (px_drained p)
     \<and> (\<exists>s. map_of (px_dir p) (pv_base pv) = Some (Json (persist s)) \<and> store_ok s
          \<and> same_content s (fold Push (take n (map snd (px_drained p))) (w_store (px_worker p0))))"

lemma process_step_drained:
  assumes "process_step pv e p = Some p'"
  shows "\<exists>ds. px_drained p' = px_drained p @ ds"
  using assms
proof (cases rule: process_step_cases)
  case (page t0 t1 t2 path inm)
  then show ?thesis by (simp add: requestStep_def split: option.split)
qed (auto simp: handleTaken_def Let_def)

lemma process_step_file:
  assumes "process_inv cv pv sc p0 p" "st_path (w_store (px_worker p0)) \<noteq> ''''" "process_step pv e p = Some p'"
  shows "map_of (px_dir p') (pv_base pv) = map_of (px_dir p) (pv_base pv) \<or> file_holds pv p0 p' (length (px_drained p))"
  using assms(3)
proof (cases rule: process_step_cases)
  case (handle clk)
  then show ?thesis by (simp add: handleTaken_def Let_def)
next
  case (save os)
  have "px_dir p' = snd (saveTick os (pv_base pv) (px_worker p, px_dir p))" using save(1) by (metis snd_conv)
  with assms(1,2) saveTick_file [of "(px_worker p, px_dir p)" os "pv_base pv"] save(2) show ?thesis
    by (auto simp: file_holds_def process_inv_def)
next
  case (backup os now now')
  then show ?thesis by (simp add: backup_file)
next
  case (page t0 t1 t2 path inm)
  then show ?thesis by (simp add: requestStep_def split: option.split)
next
  case other
  then show ?thesis by simp
qed

lemma file_holds_step:
  assumes "process_inv cv pv sc p0 p" "st_path (w_store (px_worker p0)) \<noteq> ''''" "process_step pv e p = Some p'"
    and "file_holds pv p0 p n"
  shows "\<exists>m \<ge> n. file_holds pv p0 p' m"
proof -
  obtain ds where ds: "px_drained p' = px_drained p @ ds" using process_step_drained [OF assms(3)] by blast
  from process_step_file [OF assms(1-3)] show ?thesis
  proof
    assume "map_of (px_dir p') (pv_base pv) = map_of (px_dir p) (pv_base pv)"
    with assms(4) ds have "file_holds pv p0 p' n" by (simp add: file_holds_def)
    then show ?thesis by blast
  qed (use assms(4) in \<open>auto simp: file_holds_def\<close>)
qed

lemma process_reach_file:
  assumes "process_reach pv p1 q" "process_inv cv pv sc p0 p1" "st_path (w_store (px_worker p0)) \<noteq> ''''"
    and "pv_sched_origin pv = sc_origin sc"
  shows "process_inv cv pv sc p0 q
    \<and> (map_of (px_dir q) (pv_base pv) = map_of (px_dir p1) (pv_base pv) \<or> (\<exists>n. file_holds pv p0 q n))
    \<and> (\<forall>n. file_holds pv p0 p1 n \<longrightarrow> (\<exists>m \<ge> n. file_holds pv p0 q m))"
  using assms
proof (induction rule: process_reach.induct)
  case (process_more p e p')
  note ih = process_more.IH [OF process_more.prems]
  then have inv: "process_inv cv pv sc p0 p" by blast
  note fs = file_holds_step [OF inv process_more.prems(2) process_more.hyps(2)]
  have "map_of (px_dir p') (pv_base pv) = map_of (px_dir p1) (pv_base pv) \<or> (\<exists>n. file_holds pv p0 p' n)"
    using ih fs process_step_file [OF inv process_more.prems(2) process_more.hyps(2)] by metis
  moreover have "\<forall>n. file_holds pv p0 p1 n \<longrightarrow> (\<exists>m \<ge> n. file_holds pv p0 p' m)"
    using ih fs by (meson order_trans)
  ultimately show ?case using process_inv_step [OF inv process_more.prems(3) process_more.hyps(2)] by blast
qed auto

section \<open>The running process\<close>

lemma startProcess_inv:
  assumes "runWorker b = Inr r" "bt_load b = Inr cfg" "store_ok (w_store (bo_worker r))"
  shows "process_inv cv pv (bo_sched r) (startProcess cv r d) (startProcess cv r d)"
proof -
  have "st_snapCache (w_store (bo_worker r)) = None"
    using runWorker_store(2) [OF assms(1,2)] by (simp add: Reconcile_sel NewStore_fresh)
  with assms(3) sched_reach.start [of cv "pv_lib pv" "bo_sched r"] show ?thesis
    by (simp add: process_inv_def startProcess_def cache_ok_def)
qed

lemma startProcess_path:
  "runWorker b = Inr r \<Longrightarrow> bt_load b = Inr cfg \<Longrightarrow> st_path (w_store (px_worker (startProcess cv r d))) = statusPath b"
  using runWorker_store(3) [of b r cfg] by (simp add: startProcess_def Reconcile_path NewStore_fresh)

lemma process_of_inv:
  assumes "process_of b cv pv r p" "bt_load b = Inr cfg" "store_ok (w_store (bo_worker r))"
  shows "process_inv cv pv (bo_sched r) (startProcess cv r (bt_files b (statusPath b))) p"
    and "map_of (px_dir p) (statusPath b) = map_of (bt_files b (statusPath b)) (statusPath b)
      \<or> (\<exists>n. file_holds pv (startProcess cv r (bt_files b (statusPath b))) p n)"
proof -
  let ?p0 = "startProcess cv r (bt_files b (statusPath b))"
  from assms(1) have run: "runWorker b = Inr r" and reach: "process_reach pv ?p0 p"
    and og: "pv_sched_origin pv = sc_origin (bo_sched r)" and base: "pv_base pv = statusPath b" "statusPath b \<noteq> ''''"
    by (auto simp: process_of_def)
  have path: "st_path (w_store (px_worker ?p0)) \<noteq> ''''" using startProcess_path [OF run assms(2)] base by simp
  from process_reach_file [OF reach startProcess_inv [OF run assms(2,3)] path og] base
  show "process_inv cv pv (bo_sched r) ?p0 p"
    "map_of (px_dir p) (statusPath b) = map_of (bt_files b (statusPath b)) (statusPath b) \<or> (\<exists>n. file_holds pv ?p0 p n)"
    by (auto simp: startProcess_def)
qed

definition results_for :: "string \<Rightarrow> Result list \<Rightarrow> Entry list" where
  "results_for k rs = map entry_of (filter (\<lambda>r. result_key r = k) rs)"

lemma content_history:
  "store_ok t \<Longrightarrow> same_content s (fold Push rs t) \<Longrightarrow> history_of k s = lastn 90 (history_of k t @ results_for k rs)"
  by (simp add: same_content_history [of s "fold Push rs t"] history_of_pushes maxHistory_def results_for_def)

lemma history_of_view:
  "map_option ring_view (map_of (st_checks t) k) = map_option ring_view (map_of (st_checks s) k) \<Longrightarrow> history_of k t = history_of k s"
  by (auto simp: history_of_def ring_view_def split: option.splits)

lemma file_holds_loaded:
  assumes "file_holds pv p0 p n" "store_ok (w_store (px_worker p0))" "path \<noteq> ''''"
    and "t = NewStore os (pv_base pv) (px_dir p) service og path"
  shows "store_ok t" "st_order t = st_order (fold Push (take n (map snd (px_drained p))) (w_store (px_worker p0)))"
    "history_of k t = lastn 90 (history_of k (w_store (px_worker p0)) @ results_for k (take n (map snd (px_drained p))))"
proof -
  obtain s where s: "map_of (px_dir p) (pv_base pv) = Some (Json (persist s))" "store_ok s"
    "same_content s (fold Push (take n (map snd (px_drained p))) (w_store (px_worker p0)))"
    using assms(1) by (auto simp: file_holds_def)
  note l = load_persisted [OF s(2) assms(3) s(1) assms(4)]
  show "store_ok t" by (rule l)
  show "st_order t = st_order (fold Push (take n (map snd (px_drained p))) (w_store (px_worker p0)))"
    using l(2) s(3) by (simp add: same_content_def)
  show "history_of k t = lastn 90 (history_of k (w_store (px_worker p0)) @ results_for k (take n (map snd (px_drained p))))"
    using history_of_view [OF l(3)] content_history [OF assms(2) s(3)] by simp
qed

lemma drained_take:
  "prefix (map snd (px_drained p)) (ss_received (px_sched p)) \<Longrightarrow> n \<le> length (px_drained p) \<Longrightarrow>
     take n (map snd (px_drained p)) = take n (ss_received (px_sched p))"
  by (auto simp: prefix_def)


section \<open>Every signal ends the process\<close>

fun process_run :: "process_env \<Rightarrow> process_event list \<Rightarrow> process \<Rightarrow> process option" where
  "process_run pv [] p = Some p"
| "process_run pv (e # es) p = (case process_step pv e p of None \<Rightarrow> None | Some p' \<Rightarrow> process_run pv es p')"

lemma process_run_append:
  "process_run pv (es @ fs) p = (case process_run pv es p of None \<Rightarrow> None | Some q \<Rightarrow> process_run pv fs q)"
  by (induction es arbitrary: p) (simp_all split: option.split)

lemma process_run_reach: "process_reach pv p0 p \<Longrightarrow> process_run pv es p = Some q \<Longrightarrow> process_reach pv p0 q"
proof (induction es arbitrary: p)
  case (Cons e es)
  then obtain p' where "process_step pv e p = Some p'" "process_run pv es p' = Some q" by (auto split: option.splits)
  with Cons show ?case by (blast intro: process_more)
qed simp

definition exits_within :: "process_env \<Rightarrow> nat \<Rightarrow> process \<Rightarrow> bool" where
  "exits_within pv n p \<longleftrightarrow> (\<exists>es q. process_run pv es p = Some q \<and> exited q \<and> length es \<le> n)"

lemma exits_now: "exited p \<Longrightarrow> exits_within pv n p"
  unfolding exits_within_def by (intro exI [of _ "[]"] exI [of _ p]) simp

lemma exits_step: "process_step pv e p = Some p' \<Longrightarrow> exits_within pv n p' \<Longrightarrow> exits_within pv (Suc n) p"
  unfolding exits_within_def by (elim exE) (rule_tac x = "e # es" in exI, auto)

lemma exits_run: "process_run pv es p = Some p' \<Longrightarrow> exits_within pv n p' \<Longrightarrow> exits_within pv (length es + n) p"
  unfolding exits_within_def by (elim exE) (rule_tac x = "es @ esa" in exI, auto simp: process_run_append)

lemma exits_mono: "exits_within pv n p \<Longrightarrow> n \<le> m \<Longrightarrow> exits_within pv m p"
  unfolding exits_within_def by (meson order_trans)

text \<open>The main goroutine, from its last statement backwards.\<close>

lemma running_cong:
  "px_main q = px_main p \<or> \<not> exited q \<Longrightarrow> w_panic (px_worker q) = w_panic (px_worker p) \<Longrightarrow>
     ss_panic (px_sched q) = ss_panic (px_sched p) \<Longrightarrow> running p \<Longrightarrow> running q"
  by (auto simp: running_def exited_def split: main_phase.splits)

lemma exits_closing: "px_main p = ClosingHistory err \<Longrightarrow> running p \<Longrightarrow> exits_within pv 1 p"
  using exits_step [of pv "HistoryClosed True" p _ 0] exits_now by (simp add: process_step_def exited_def)

lemma exits_stopping:
  assumes "px_main p = StoppingServer" "running p"
  shows "exits_within pv 2 p"
proof -
  let ?q = "p \<lparr> px_main := (if px_history p = None then Exited None else ClosingHistory None) \<rparr>"
  have "process_step pv (ServerStopped None) p = Some ?q"
    using assms by (simp add: process_step_def main_step_def)
  moreover have "exits_within pv 1 ?q"
  proof (cases "px_history p = None")
    case True
    then show ?thesis by (intro exits_now) (simp add: exited_def)
  next
    case False
    with assms(2) show ?thesis by (intro exits_closing [of _ None] running_cong [of ?q p]) (auto simp: exited_def)
  qed
  ultimately show ?thesis using exits_step by (metis Suc_1)
qed

lemma exits_cancelling:
  assumes "px_main p = Cancelling" "running p"
  shows "exits_within pv 3 p"
proof -
  let ?q = "p \<lparr> px_sched := (px_sched p) \<lparr> ss_done := True \<rparr>, px_main := StoppingServer \<rparr>"
  have "process_step pv CancelContext p = Some ?q"
    using assms by (simp add: process_step_def main_step_def with_sched_def)
  moreover have "exits_within pv 2 ?q"
    using assms(2) by (intro exits_stopping running_cong [of ?q p]) (simp_all add: exited_def)
  ultimately show ?thesis using exits_step [of pv CancelContext p ?q 2] by (simp add: numeral_3_eq_3)
qed

lemma exits_saving:
  assumes "px_main p = Saving" "running p"
  shows "exits_within pv 4 p"
proof -
  let ?q = "(saveStep pv all_ok p) \<lparr> px_main := Cancelling \<rparr>"
  have w: "px_sched (saveStep pv all_ok p) = px_sched p" "w_panic (px_worker (saveStep pv all_ok p)) = w_panic (px_worker p)"
    using saveTick_content(2) [of all_ok "pv_base pv" "(px_worker p, px_dir p)"]
    by (simp_all add: saveStep_def case_prod_beta)
  have "process_step pv (FinalSave all_ok) p = Some ?q"
    using assms by (simp add: process_step_def main_step_def)
  moreover have "exits_within pv 3 ?q"
    using assms(2) w by (intro exits_cancelling running_cong [of ?q p]) (simp_all add: exited_def)
  ultimately show ?thesis using exits_step [of pv "FinalSave all_ok" p ?q 3] by simp
qed

lemma pool_drains:
  "pool_reach p \<Longrightarrow> \<exists>es q. pool_run es p = Some q \<and> np_wg q = 0 \<and> length es \<le> work p"
proof (induction "work p" arbitrary: p rule: less_induct)
  case less
  show ?case
  proof (cases "np_wg p = 0")
    case True
    then show ?thesis by (intro exI [of _ "[]"] exI [of _ p]) simp
  next
    case False
    from pool_goes_on [OF less.prems this] obtain e p' where e: "pool_step e p = Some p'" by blast
    from less.hyps [OF pool_step_work [OF e] pool_more [OF less.prems pool_move [OF e]]]
    obtain es q where "pool_run es p' = Some q" "np_wg q = 0" "length es \<le> work p'" by blast
    with e pool_step_work [OF e] show ?thesis by (intro exI [of _ "e # es"] exI [of _ q]) simp
  qed
qed

lemma process_run_pool:
  "running p \<Longrightarrow> pool_run es (px_pool p) = Some q \<Longrightarrow> process_run pv (map PoolStep es) p = Some (p \<lparr> px_pool := q \<rparr>)"
proof (induction es arbitrary: p)
  case (Cons e es)
  then obtain p' where p': "pool_step e (px_pool p) = Some p'" "pool_run es p' = Some q" by (auto split: option.splits)
  with Cons.prems(1) Cons.IH [of "p \<lparr> px_pool := p' \<rparr>"] show ?case
    by (simp add: process_step_def running_def exited_def)
qed simp

lemma exits_awaiting:
  assumes "px_main p = AwaitingSends" "running p" "pool_reach (px_pool p)"
  shows "exits_within pv (work (px_pool p) + 5) p"
proof -
  obtain es q where q: "pool_run es (px_pool p) = Some q" "np_wg q = 0" "length es \<le> work (px_pool p)"
    using pool_drains [OF assms(3)] by blast
  let ?p1 = "p \<lparr> px_pool := q \<rparr>"
  have run1: "running ?p1" using assms(2) by (simp add: running_def exited_def)
  have "process_step pv SendsAwaited ?p1 = Some (?p1 \<lparr> px_main := Saving \<rparr>)"
    using run1 assms(1) q(2) by (simp add: process_step_def main_step_def WaitReturns_def split: option.split)
  moreover have "exits_within pv 4 (?p1 \<lparr> px_main := Saving \<rparr>)"
    using run1 by (intro exits_saving running_cong [of "?p1 \<lparr> px_main := Saving \<rparr>" ?p1]) (simp_all add: exited_def)
  ultimately have "exits_within pv 5 ?p1"
    using exits_step [of pv SendsAwaited ?p1 "?p1 \<lparr> px_main := Saving \<rparr>" 4] by simp
  from exits_run [OF process_run_pool [OF assms(2) q(1)] this] show ?thesis
    using q(3) by (auto elim: exits_mono)
qed

lemma running_exits:
  assumes "running p" "pool_reach (px_pool p)"
  shows "exits_within pv (work (px_pool p) + 6) p"
proof (cases "px_main p")
  case Serving
  let ?q = "p \<lparr> px_main := AwaitingSends \<rparr>"
  have "process_step pv Signal p = Some ?q" using assms(1) Serving by (simp add: process_step_def main_step_def)
  moreover have "exits_within pv (work (px_pool p) + 5) ?q"
    using assms exits_awaiting [of ?q pv] by (simp add: running_def exited_def)
  ultimately show ?thesis using exits_step [of pv Signal p ?q "work (px_pool p) + 5"] by (simp add: add.commute)
next
  case AwaitingSends
  from exits_awaiting [OF this assms] show ?thesis by (rule exits_mono) simp
next
  case Saving
  from exits_saving [OF this assms(1)] show ?thesis by (rule exits_mono) simp
next
  case Cancelling
  from exits_cancelling [OF this assms(1)] show ?thesis by (rule exits_mono) simp
next
  case StoppingServer
  from exits_stopping [OF this assms(1)] show ?thesis by (rule exits_mono) simp
next
  case (ClosingHistory err)
  from exits_closing [OF this assms(1)] show ?thesis by (rule exits_mono) simp
next
  case (Exited err)
  then show ?thesis by (intro exits_now) (simp add: exited_def)
qed

lemma startSends_reach: "pool_reach p \<Longrightarrow> pool_reach (startSends before after p)"
proof -
  have "pool_reach p \<Longrightarrow> pool_reach (fold goSend sds p)" for sds p
    by (induction sds arbitrary: p) (auto intro: pool_more pool_start)
  then show "pool_reach p \<Longrightarrow> pool_reach (startSends before after p)" by (simp add: startSends_def)
qed

lemma process_step_pool:
  assumes "process_step pv e p = Some p'" "pool_reach (px_pool p)"
  shows "pool_reach (px_pool p')"
proof -
  from assms(1) have mv: "process_move pv e p = Some p'" by (simp add: process_step_def split: if_splits)
  show ?thesis
  proof (cases e)
    case (HandleTaken clk)
    with mv assms(2) show ?thesis by (auto simp: handleTaken_def Let_def startSends_reach split: if_splits)
  next
    case (PoolStep ev)
    with mv assms(2) show ?thesis by (auto intro: pool_more [OF _ pool_move])
  next
    case (SchedStep ev)
    with mv assms(2) show ?thesis by (auto split: if_splits dest!: with_schedD)
  next
    case TakeResult
    with mv assms(2) show ?thesis by (auto split: if_splits dest!: with_schedD)
  next
    case (Request t0 t1 t2 path inm)
    with mv assms(2) show ?thesis by (auto simp: requestStep_def split: option.splits)
  qed (use mv assms(2) in \<open>auto simp: saveStep_def backupStep_def main_step_def with_sched_def case_prod_beta
        split: if_splits main_phase.splits\<close>)
qed

definition process_alive :: "(string \<Rightarrow> bool) \<Rightarrow> process_env \<Rightarrow> Scheduler \<Rightarrow> process \<Rightarrow> bool" where
  "process_alive cv pv sc p \<longleftrightarrow>
     \<not> w_panic (px_worker p) \<and> sched_reach cv (pv_lib pv) sc (px_sched p) \<and> pool_reach (px_pool p)"

lemma process_alive_step:
  assumes "process_alive cv pv sc p" "pv_sched_origin pv = sc_origin sc" "pv_origin pv \<noteq> None"
    and "process_step pv e p = Some p'"
  shows "process_alive cv pv sc p'"
proof -
  have pool: "pool_reach (px_pool p')"
    using process_step_pool [OF assms(4)] assms(1) by (simp add: process_alive_def)
  from assms(4) have "\<not> w_panic (px_worker p') \<and> sched_reach cv (pv_lib pv) sc (px_sched p')"
  proof (cases rule: process_step_cases)
    case (handle clk)
    with assms(1,3) show ?thesis
      using drainResult_spec(1) [OF handle(3)] by (simp add: process_alive_def handleTaken_def Let_def)
  next
    case (save os)
    then have "px_worker p' = fst (saveTick os (pv_base pv) (px_worker p, px_dir p))" by (metis fst_conv)
    with assms(1) save(3) show ?thesis by (simp add: process_alive_def saveTick_content(2))
  next
    case (page t0 t1 t2 path inm)
    with assms(1) show ?thesis by (simp add: process_alive_def requestStep_def split: option.split)
  next
    case other
    with assms(1,2) show ?thesis by (auto simp: process_alive_def intro: sched_reach.step)
  qed (use assms(1) in \<open>simp add: process_alive_def\<close>)
  with pool show ?thesis by (simp add: process_alive_def)
qed

lemma process_of_alive:
  assumes "process_of b cv pv r p" "bt_load b = Inr cfg" "sc_origin (bo_sched r) = Some og"
  shows "process_alive cv pv (bo_sched r) p"
proof -
  from assms(1) have run: "runWorker b = Inr r" and og: "pv_sched_origin pv = sc_origin (bo_sched r)" "pv_origin pv \<noteq> None"
    and reach: "process_reach pv (startProcess cv r (bt_files b (statusPath b))) p"
    by (auto simp: process_of_def assms(3))
  from reach show ?thesis
  proof (induction rule: process_reach.induct)
    case process_init
    show ?case
      using runWorker_store(5) [OF run assms(2)]
      by (simp add: process_alive_def startProcess_def sched_reach.start pool_init)
  next
    case (process_more p e p')
    then show ?case using process_alive_step og by blast
  qed
qed


text \<open>
  The final save comes before the cancellation, so the scheduler and the drain loop go on after it:
  a result that is handled then is in no status file, although the process ends in order.
\<close>

lemma late_result_lost:
  assumes "running p" "px_main p = Cancelling" "length (px_drained p) < length (ss_received (px_sched p))" "pv_origin pv \<noteq> None"
  shows "\<exists>es q. process_run pv es p = Some q \<and> exited q \<and> px_dir q = px_dir p \<and> length (px_drained q) = Suc (length (px_drained p))"
proof -
  let ?p1 = "handleTaken pv int p"
  have h: "px_main ?p1 = Cancelling" "px_dir ?p1 = px_dir p" "px_sched ?p1 = px_sched p"
    "length (px_drained ?p1) = Suc (length (px_drained p))" "px_history ?p1 = None \<longleftrightarrow> px_history p = None"
    using assms(2) by (simp_all add: handleTaken_def Let_def)
  have "\<not> w_panic (px_worker ?p1)"
    using assms(1,4) drainResult_spec(1) [of "px_worker p"] by (simp add: handleTaken_def Let_def running_def)
  with h assms(1) have run: "running ?p1" by (simp add: running_def exited_def)
  have first: "process_step pv (HandleTaken int) p = Some ?p1" using assms(1,3) by (simp add: process_step_def)
  let ?p2 = "?p1 \<lparr> px_sched := (px_sched ?p1) \<lparr> ss_done := True \<rparr>, px_main := StoppingServer \<rparr>"
  have second: "process_step pv CancelContext ?p1 = Some ?p2"
    using run h(1) by (simp add: process_step_def main_step_def with_sched_def)
  have run2: "running ?p2" using run by (simp add: running_def exited_def)
  have "\<exists>es q. process_run pv es ?p2 = Some q \<and> exited q \<and> px_dir q = px_dir ?p2 \<and> px_drained q = px_drained ?p2"
  proof (cases "px_history ?p1 = None")
    case True
    with run2 show ?thesis
      by (intro exI [of _ "[ServerStopped None]"]) (simp add: process_step_def main_step_def exited_def)
  next
    case False
    with run2 show ?thesis
      by (intro exI [of _ "[ServerStopped None, HistoryClosed True]"])
         (simp add: process_step_def main_step_def exited_def running_def)
  qed
  then obtain es q where "process_run pv es ?p2 = Some q" "exited q" "px_dir q = px_dir ?p2" "px_drained q = px_drained ?p2" by blast
  with first second h show ?thesis
    by (intro exI [of _ "HandleTaken int # CancelContext # es"] exI [of _ q]) simp
qed

section \<open>Restarts\<close>

lemma pushes_order: "set (st_order (fold Push rs s)) \<subseteq> result_key ` set rs \<union> set (st_order s)"
  by (induction rs arbitrary: s) (force simp: Push_sel split: if_splits)+

lemma process_shows_configured:
  assumes "runWorker b = Inr r" "bt_load b = Inr cfg" "sched_reach cv lib (bo_sched r) s" "set rs \<subseteq> set (ss_received s)"
  shows "set (st_order (fold Push rs (w_store (bo_worker r)))) \<subseteq> {k. configured (bo_checks r) k}"
  using pushes_order [of rs "w_store (bo_worker r)"] runWorker_parts(3) [OF assms(1,2)]
    received_configured [OF assms(1-3)] assms(4) by blast

text \<open>What the final save leaves in the status file.\<close>

lemma final_save_holds:
  assumes "process_inv cv pv sc p0 p" "st_path (w_store (px_worker p0)) \<noteq> ''''"
    and "process_step pv (FinalSave os) p = Some p1" "\<not> save_fails os"
  shows "file_holds pv p0 p1 (length (px_drained p))"
proof -
  from assms(3) have p1: "p1 = (saveStep pv os p) \<lparr> px_main := Cancelling \<rparr>"
    by (auto simp: process_step_def main_step_def split: if_splits)
  have "st_path (w_store (px_worker p)) \<noteq> ''''" using assms(1,2) by (simp add: process_inv_def)
  with assms(4) have "map_of (px_dir p1) (pv_base pv) = Some (Json (persist (w_store (px_worker p))))"
    using saveTick_file [of "(px_worker p, px_dir p)" os "pv_base pv"] by (simp add: p1 saveStep_def case_prod_beta)
  moreover have "px_drained p1 = px_drained p" by (simp add: p1 saveStep_def case_prod_beta)
  ultimately show ?thesis using assms(1) by (auto simp: file_holds_def process_inv_def)
qed

lemma restart_from:
  assumes "runWorker b' = Inr r'" "bt_load b' = Inr cfg'" "statusPath b' = pv_base pv" "pv_base pv \<noteq> ''''"
    and "bt_files b' (statusPath b') = px_dir q" "file_holds pv p0 q m" "store_ok (w_store (px_worker p0))"
    and "set (st_order (fold Push (take m (map snd (px_drained q))) (w_store (px_worker p0)))) \<subseteq> {k. configured (bo_checks r') k}"
  shows "store_ok (w_store (bo_worker r'))"
    "st_order (w_store (bo_worker r')) = st_order (fold Push (take m (map snd (px_drained q))) (w_store (px_worker p0)))"
    "history_of k (w_store (bo_worker r')) =
       lastn 90 (history_of k (w_store (px_worker p0)) @ results_for k (take m (map snd (px_drained q))))"
proof -
  let ?t = "NewStore (bt_io b') (statusPath b') (bt_files b' (statusPath b')) (cfg_service cfg')
      (ResolveOrigin cfg' (bt_origin_id b')) (statusPath b')"
  have "?t = NewStore (bt_io b') (pv_base pv) (px_dir q) (cfg_service cfg') (ResolveOrigin cfg' (bt_origin_id b')) (pv_base pv)"
    using assms(3,5) by simp
  note t = file_holds_loaded [OF assms(6,7,4) this]
  note st = runWorker_store [OF assms(1,2)]
  have c: "same_content (Reconcile (bo_checks r') ?t) ?t"
    using assms(8) unfolding t(2) [symmetric] by (rule Reconcile_configured)
  from st(4) Reconcile_ok [OF t(1)] show "store_ok (w_store (bo_worker r'))" by simp
  note sc = same_content_trans [OF st(1) c]
  from sc show "st_order (w_store (bo_worker r')) = st_order (fold Push (take m (map snd (px_drained q))) (w_store (px_worker p0)))"
    by (simp add: same_content_def t(2) [symmetric])
  from same_content_history [OF sc] show "history_of k (w_store (bo_worker r')) =
       lastn 90 (history_of k (w_store (px_worker p0)) @ results_for k (take m (map snd (px_drained q))))"
    by (simp add: t(3))
qed


section \<open>Notifications at the shutdown\<close>

lemma handle_sent: "\<exists>xs. m_sent (fold handle is m) = m_sent m @ xs"
proof (induction "is" arbitrary: m)
  case (Cons i "is")
  have "\<exists>xs. m_sent (handle i m) = m_sent m @ xs"
    by (auto simp: handle_def dispatch_opt_def dispatch_def dispatchLoop_sent split: option.split)
  moreover obtain ys where "m_sent (fold handle is (handle i m)) = m_sent (handle i m) @ ys" using Cons by blast
  ultimately show ?case by fastforce
qed simp

lemma sentBy_grows: "\<exists>xs. sentBy (map_option (fold handle is) mo) = sentBy mo @ xs"
  using handle_sent by (cases mo) (auto simp: sentBy_def)

abbreviation sendings :: "pool \<Rightarrow> sending list" where
  "sendings q \<equiv> map dl_sending (np_sends q)"

lemma goSends_sendings: "sendings (fold goSend sds q) = sendings q @ sds"
  by (induction sds arbitrary: q) (simp_all add: goSend_def)

lemma sendings_update:
  "i < length ds \<Longrightarrow> dl_sending d = dl_sending (ds ! i) \<Longrightarrow> map dl_sending (ds[i := d]) = map dl_sending ds"
  by (metis map_update list_update_id nth_map length_map)

lemma pool_step_sendings: "pool_step e q = Some q' \<Longrightarrow> sendings q' = sendings q"
  by (cases e) (auto simp: move_def sendReturns_def send_at_def sendings_update Let_def split: if_splits)

text \<open>Only the drain loop starts deliveries.\<close>

lemma process_step_sendings:
  assumes "process_step pv e p = Some p'" "\<And>clk. e \<noteq> HandleTaken clk"
  shows "sendings (px_pool p') = sendings (px_pool p)"
proof -
  from assms(1) have mv: "process_move pv e p = Some p'" by (simp add: process_step_def split: if_splits)
  show ?thesis
  proof (cases e)
    case (HandleTaken clk)
    then show ?thesis using assms(2) by simp
  next
    case (PoolStep ev)
    with mv show ?thesis by (auto simp: pool_step_sendings)
  next
    case (SchedStep ev)
    with mv show ?thesis by (auto split: if_splits dest!: with_schedD)
  next
    case TakeResult
    with mv show ?thesis by (auto split: if_splits dest!: with_schedD)
  next
    case (Request t0 t1 t2 path inm)
    with mv show ?thesis by (auto simp: requestStep_def split: option.splits)
  qed (use mv in \<open>auto simp: saveStep_def backupStep_def main_step_def with_sched_def case_prod_beta
        split: if_splits main_phase.splits\<close>)
qed

text \<open>
  The notifier has been called with the results handled, and every goroutine that it started is in
  the pool.
\<close>

definition notified :: "process \<Rightarrow> process \<Rightarrow> bool" where
  "notified p0 p \<longleftrightarrow>
     (\<exists>is. only_violations is \<and> input_results is = map snd (px_drained p)
        \<and> w_notifier (px_worker p) = map_option (fold handle is) (w_notifier (px_worker p0)))
     \<and> sendings (px_pool p) = sentBy (w_notifier (px_worker p))"

lemma notified_step:
  assumes "notified p0 p" "process_step pv e p = Some p'"
  shows "notified p0 p'"
proof (cases "\<exists>clk. e = HandleTaken clk")
  case True
  then obtain clk where "e = HandleTaken clk" by blast
  with assms(2) have p': "p' = handleTaken pv clk p" and np: "\<not> w_panic (px_worker p)"
    by (auto simp: process_step_def running_def split: if_splits)
  let ?r = "ss_received (px_sched p) ! length (px_drained p)"
  let ?w = "drainResult (pv_trace pv) clk (pv_origin pv) (pv_budgets pv) ?r (px_worker p)"
  from assms(1) obtain js where js: "only_violations js" "input_results js = map snd (px_drained p)"
    "w_notifier (px_worker p) = map_option (fold handle js) (w_notifier (px_worker p0))" by (auto simp: notified_def)
  from drainResult_spec(5) [OF np] obtain ks where ks: "only_violations ks" "input_results ks = [?r]"
    "w_notifier ?w = map_option (fold handle ks) (w_notifier (px_worker p))" by blast
  have "w_notifier ?w = map_option (fold handle (js @ ks)) (w_notifier (px_worker p0))"
    using js(3) ks(3) map_option_fold_append [of handle ks js "w_notifier (px_worker p0)"] by simp
  moreover obtain xs where "sentBy (w_notifier ?w) = sentBy (w_notifier (px_worker p)) @ xs"
    unfolding ks(3) using sentBy_grows by blast
  ultimately show ?thesis
    using js(1,2) ks(1,2) assms(1)
    by (auto simp: notified_def p' handleTaken_def Let_def startSends_def goSends_sendings intro!: exI [of _ "js @ ks"])
next
  case False
  then have "sendings (px_pool p') = sendings (px_pool p)" using process_step_sendings [OF assms(2)] by blast
  moreover from assms(2) have "w_notifier (px_worker p') = w_notifier (px_worker p) \<and> px_drained p' = px_drained p"
  proof (cases rule: process_step_cases)
    case (handle clk)
    have "px_drained p' \<noteq> px_drained p" by (simp add: handle(1) handleTaken_def Let_def)
    moreover have "px_drained p' = px_drained p"
      using assms(2) False
      by (cases e) (auto simp: process_step_def saveStep_def backupStep_def requestStep_def main_step_def with_sched_def
          case_prod_beta split: if_splits main_phase.splits option.splits)
    ultimately show ?thesis by blast
  next
    case (save os)
    then have "px_worker p' = fst (saveTick os (pv_base pv) (px_worker p, px_dir p))" by (metis fst_conv)
    with save(2) show ?thesis by (simp add: saveTick_content(4))
  next
    case (page t0 t1 t2 path inm)
    then show ?thesis by (simp add: requestStep_def split: option.split)
  qed simp_all
  ultimately show ?thesis using assms(1) by (simp add: notified_def)
qed

lemma runWorker_notifier:
  "runWorker b = Inr r \<Longrightarrow> bt_load b = Inr cfg \<Longrightarrow> w_notifier (bo_worker r) = NewManager (cfg_webhooks cfg)"
  by (auto simp: runWorker_def startWorker_def Let_def split: sum.splits option.splits if_splits)

lemma process_of_notified:
  assumes "process_of b cv pv r p" "bt_load b = Inr cfg"
  shows "notified (startProcess cv r (bt_files b (statusPath b))) p \<and> pool_reach (px_pool p)"
proof -
  from assms(1) have run: "runWorker b = Inr r"
    and reach: "process_reach pv (startProcess cv r (bt_files b (statusPath b))) p" by (auto simp: process_of_def)
  have "sentBy (NewManager whs) = []" for whs by (simp add: NewManager_def sentBy_def)
  then have init: "notified (startProcess cv r d) (startProcess cv r d)" for d
    using no_calls runWorker_notifier [OF run assms(2)]
    by (auto simp: notified_def startProcess_def emptyPool_def option.map_id intro!: exI [of _ "[]"])
  from reach show ?thesis
  proof (induction rule: process_reach.induct)
    case process_init
    show ?case using init by (simp add: startProcess_def pool_init)
  next
    case (process_more p e p')
    then show ?case using notified_step process_step_pool by blast
  qed
qed

text \<open>
  Property C11. No notification is lost at the shutdown. When \<open>Wait\<close> has returned after the signal, the notifier
  has been called with exactly the results handled so far, in order, and every notification this
  raised has a delivery that is over: its event was posted to its webhook, and once more if that failed.
\<close>

theorem shutdown_delivers:
  assumes "process_of b cv pv r p" and "bt_load b = Inr cfg" and "process_step pv SendsAwaited p = Some p'"
    and "NewManager (cfg_webhooks cfg) = Some m0"
  shows "\<exists>is. only_violations is \<and> input_results is = map snd (px_drained p')
    \<and> w_notifier (px_worker p') = Some (fold handle is m0)
    \<and> map dl_sending (np_sends (px_pool p')) = m_sent (fold handle is m0)
    \<and> list_all as_delivered (np_sends (px_pool p'))"
proof -
  from assms(1) have run: "runWorker b = Inr r" by (simp add: process_of_def)
  note n = process_of_notified [OF assms(1,2)]
  from assms(3) have p': "p' = p \<lparr> px_main := Saving \<rparr>"
    and wait: "WaitReturns (map_option (\<lambda>m. px_pool p) (w_notifier (px_worker p)))"
    by (auto simp: process_step_def main_step_def split: if_splits)
  from n runWorker_notifier [OF run assms(2)] assms(4) obtain "is" where
    is_facts: "only_violations is" "input_results is = map snd (px_drained p)" "w_notifier (px_worker p) = Some (fold handle is m0)"
    "sendings (px_pool p) = m_sent (fold handle is m0)"
    by (auto simp: notified_def startProcess_def sentBy_def)
  have "list_all as_delivered (np_sends (px_pool p))"
  proof -
    have "list_all (\<lambda>d. \<not> in_wg d) (np_sends (px_pool p))"
      using wait is_facts(3) n pool_reach_counts exact_zero_iff by (auto simp: WaitReturns_def)
    with pool_reach_deliveries n over_as_delivered show ?thesis by (auto simp: list_all_iff)
  qed
  with is_facts show ?thesis by (auto simp: p')
qed

section \<open>A concrete process\<close>

definition origin_boot :: boot_env where
  "origin_boot = sample_boot \<lparr> bt_load := Inr (zeroConfig \<lparr> cfg_origins := [sample_origin] \<rparr>) \<rparr>"

definition origin_env :: process_env where
  "origin_env = \<lparr> pv_lib = sample_lib, pv_trace = (\<lambda>_. ('''', '''')), pv_origin = Some sample_origin, pv_budgets = [],
     pv_sched_origin = Some sample_origin, pv_base = statusPath sample_boot, pv_encode = (\<lambda>_. ''{}''), pv_render = (\<lambda>_. None),
     pv_digest = id \<rparr>"

lemma origin_boot_runs:
  "\<exists>r. runWorker origin_boot = Inr r \<and> bo_checks r = [sample_tcp] \<and> sc_origin (bo_sched r) = Some sample_origin
     \<and> sc_checks (bo_sched r) = [sample_tcp]
     \<and> sc_registry (bo_sched r) = registry (@) sample_fs sample_world (zeroConfig \<lparr> cfg_origins := [sample_origin] \<rparr>)
     \<and> bo_budgets r = [] \<and> w_notifier (bo_worker r) = None
     \<and> st_checks (w_store (bo_worker r)) = []"
proof -
  have "loadFilteredChecks no_flags (cfg_check_filter zeroConfig) (Inr [sample_tcp]) = Inr [sample_tcp]"
    by (simp add: loadFilteredChecks_def no_flags_def effectiveFilter_def zeroConfig_sel Validate_def IsEmpty_def)
  moreover have "cfg_webhooks zeroConfig = []" by (simp add: zeroConfig_def)
  ultimately show ?thesis
    by (simp add: origin_boot_def runWorker_def OpenHistory_def sample_boot_def InitOTEL_def InitOTELMetrics_def remoteWrite_def zeroConfig_sel Let_def
        Scheduler.New_def registry_def startWorker_def NewStore_def load_def latestBackup_def
        emptyStore_def SetHistory_def Reconcile_sel ResolveOrigin_def NewManager_def)
qed

lemma sample_stagger: "0 < ComputeStagger ''ssh'' (Some sample_origin)"
  by code_simp

text \<open>
  The first run of a check, from its stagger to the signal and the end of the wait for its
  notifications.
\<close>

definition sample_events :: "process_event list" where
  "sample_events = [SchedStep (StaggerElapsed 0), SchedStep (Run 0 0 (\<lambda>_. False)), TakeResult, HandleTaken int,
     Signal, SendsAwaited]"

lemma sample_run:
  assumes "runWorker origin_boot = Inr r" "sc_checks (bo_sched r) = [sample_tcp]" "sc_origin (bo_sched r) = Some sample_origin"
    and "Get (sc_registry (bo_sched r)) (c_type sample_tcp) = Some ck" "w_notifier (bo_worker r) = None" "\<not> w_panic (bo_worker r)"
  shows "\<exists>p. process_run origin_env sample_events (startProcess (\<lambda>_. False) r []) = Some p
    \<and> px_main p = Saving \<and> length (px_drained p) = 1 \<and> \<not> w_panic (px_worker p) \<and> \<not> ss_panic (px_sched p)"
proof -
  let ?p0 = "startProcess (\<lambda>_. False) r []"
  let ?g = "\<lparr> g_recurring = False, g_check = sample_tcp, g_checker = ck,
      g_stagger = ComputeStagger ''ssh'' (Some sample_origin), g_phase = Staggering \<rparr>"
  have c: "c_name sample_tcp = ''ssh''" by (simp add: sample_tcp_def)
  have start: "Start (\<lambda>_. False) (bo_sched r) = \<lparr> ss_done = False, ss_wg = 1, ss_routines = [?g], ss_recorded = [], ss_results = [],
      ss_received = [], ss_dropped = 0, ss_closed = False, ss_panic = False \<rparr>"
    using assms(2,3,4) sample_stagger by (simp add: Start_def Let_def c)
  let ?s1 = "set_phase 0 Executing (Start (\<lambda>_. False) (bo_sched r))"
  let ?s2 = "finish 0 (execute sample_lib (\<lambda>_. False) (from_call 0 ck) sample_tcp (Some sample_origin) ?s1)"
  have p1: "process_run origin_env [SchedStep (StaggerElapsed 0), SchedStep (Run 0 0 (\<lambda>_. False))] ?p0 = Some (?p0 \<lparr> px_sched := ?s2 \<rparr>)"
    using assms(6)
    by (simp add: process_step_def running_def exited_def startProcess_def schedulerEvent_def with_sched_def start origin_env_def
        in_phase_def set_phase_def finish_def execute_def publish_def Let_def results_capacity_def)
  obtain res where s2: "ss_results ?s2 = [res]" "ss_received ?s2 = []" "\<not> ss_panic ?s2"
    by (simp add: start set_phase_def finish_def execute_def publish_def Let_def results_capacity_def)
  let ?w = "drainResult (\<lambda>_. ('''', '''')) int (Some sample_origin) [] res (bo_worker r)"
  have w: "\<not> w_panic ?w" "w_notifier ?w = None"
    using assms(5,6) by (simp_all add: drainResult_def Let_def nil_manager)
  have "\<exists>p. process_run origin_env [TakeResult, HandleTaken int, Signal, SendsAwaited] (?p0 \<lparr> px_sched := ?s2 \<rparr>) = Some p
      \<and> px_main p = Saving \<and> length (px_drained p) = 1 \<and> \<not> w_panic (px_worker p) \<and> \<not> ss_panic (px_sched p)"
    using assms(6) s2 w
    by (simp add: process_step_def running_def exited_def startProcess_def with_sched_def handleTaken_def Let_def origin_env_def
        main_step_def WaitReturns_def)
  with p1 show ?thesis
    using process_run_append [of origin_env "[SchedStep (StaggerElapsed 0), SchedStep (Run 0 0 (\<lambda>_. False))]"
        "[TakeResult, HandleTaken int, Signal, SendsAwaited]" ?p0]
    by (simp add: sample_events_def del: process_run.simps)
qed

lemma sample_process:
  "\<exists>r p. process_of origin_boot (\<lambda>_. False) origin_env r p \<and> store_ok (w_store (bo_worker r)) \<and> st_order (w_store (bo_worker r)) = []
     \<and> sc_origin (bo_sched r) = Some sample_origin
     \<and> bo_checks r = [sample_tcp] \<and> px_main p = Saving \<and> length (px_drained p) = 1 \<and> running p"
proof -
  obtain r where r: "runWorker origin_boot = Inr r" "bo_checks r = [sample_tcp]" "sc_origin (bo_sched r) = Some sample_origin"
    "sc_checks (bo_sched r) = [sample_tcp]"
    "sc_registry (bo_sched r) = registry (@) sample_fs sample_world (zeroConfig \<lparr> cfg_origins := [sample_origin] \<rparr>)"
    "bo_budgets r = []" "w_notifier (bo_worker r) = None" using origin_boot_runs by blast
  have load: "bt_load origin_boot = Inr (zeroConfig \<lparr> cfg_origins := [sample_origin] \<rparr>)" by (simp add: origin_boot_def)
  have "Get (sc_registry (bo_sched r)) (c_type sample_tcp) \<noteq> None"
    by (simp add: r(5) registry_map_of map_of_eq_None_iff sample_tcp_def newCheckers_def Let_def sample_no_runner)
  then obtain ck where ck: "Get (sc_registry (bo_sched r)) (c_type sample_tcp) = Some ck" by blast
  note w = runWorker_store [OF r(1) load]
  from sample_run [OF r(1,4,3) ck r(7) w(5)] obtain p where
    p: "process_run origin_env sample_events (startProcess (\<lambda>_. False) r []) = Some p"
    "px_main p = Saving" "length (px_drained p) = 1" "\<not> w_panic (px_worker p)" "\<not> ss_panic (px_sched p)" by blast
  have path: "statusPath origin_boot = statusPath sample_boot" "bt_files origin_boot path = []" for path
    by (simp_all add: statusPath_def origin_boot_def sample_boot_def)
  have ne: "statusPath sample_boot \<noteq> ''''" by (simp add: statusPath_def sample_boot_def)
  have "process_of origin_boot (\<lambda>_. False) origin_env r p"
    using r path ne process_run_reach [OF process_init p(1)] by (simp add: process_of_def origin_env_def)
  moreover have ns: "NewStore os base [] service og pth = emptyStore service og pth" for os base service og pth
    by (simp add: NewStore_def load_def latestBackup_def Let_def gokeys_def)
  have "store_ok (w_store (bo_worker r))" "st_order (w_store (bo_worker r)) = []"
    using w(1,4) by (simp_all add: path ns Reconcile_ok emptyStore_ok same_content_def Reconcile_sel)
       (simp_all add: emptyStore_def)
  moreover have "running p" using p by (simp add: running_def exited_def)
  ultimately show ?thesis using r(2,3) p(2,3) by blast
qed

lemma origin_boot_load: "bt_load origin_boot = Inr (zeroConfig \<lparr> cfg_origins := [sample_origin] \<rparr>)"
  by (simp add: origin_boot_def)



lemma origin_boot_restarts:
  "\<exists>r. runWorker (origin_boot \<lparr> bt_files := f \<rparr>) = Inr r \<and> bo_checks r = [sample_tcp]"
proof -
  have "loadFilteredChecks no_flags (cfg_check_filter zeroConfig) (Inr [sample_tcp]) = Inr [sample_tcp]"
    by (simp add: loadFilteredChecks_def no_flags_def effectiveFilter_def zeroConfig_sel Validate_def IsEmpty_def)
  then show ?thesis
    by (simp add: origin_boot_def runWorker_def OpenHistory_def sample_boot_def InitOTEL_def InitOTELMetrics_def remoteWrite_def zeroConfig_sel Let_def)
qed


definition hook_config :: Config where
  "hook_config = zeroConfig \<lparr> cfg_origins := [sample_origin], cfg_webhooks := [sample_hook] \<rparr>"

theorem shutdown_delivers_witness:
  "\<exists>r p p' m0. process_of (origin_boot \<lparr> bt_load := Inr hook_config \<rparr>) (\<lambda>_. False) origin_env r p
     \<and> process_step origin_env SendsAwaited p = Some p' \<and> NewManager [sample_hook] = Some m0
     \<and> list_all as_delivered (np_sends (px_pool p'))
     \<and> (\<exists>is. input_results is = map snd (px_drained p') \<and> map dl_sending (np_sends (px_pool p')) = m_sent (fold handle is m0))"
proof -
  let ?b = "origin_boot \<lparr> bt_load := Inr hook_config \<rparr>"
  have load: "bt_load ?b = Inr hook_config" by simp
  have cfg: "cfg_webhooks hook_config = [sample_hook]" "cfg_origins hook_config = [sample_origin]"
    "cfg_otel hook_config = cfg_otel zeroConfig" "cfg_prometheus hook_config = cfg_prometheus zeroConfig"
    "cfg_check_filter hook_config = cfg_check_filter zeroConfig"
    by (simp_all add: hook_config_def)
  have "loadFilteredChecks no_flags (cfg_check_filter zeroConfig) (Inr [sample_tcp]) = Inr [sample_tcp]"
    by (simp add: loadFilteredChecks_def no_flags_def effectiveFilter_def zeroConfig_sel Validate_def IsEmpty_def)
  then have "\<exists>r. runWorker ?b = Inr r \<and> sc_origin (bo_sched r) = Some sample_origin \<and> bo_budgets r = []"
    by (simp add: origin_boot_def runWorker_def OpenHistory_def sample_boot_def InitOTEL_def InitOTELMetrics_def remoteWrite_def cfg
        zeroConfig_sel Let_def Scheduler.New_def ResolveOrigin_def)
  then obtain r where r: "runWorker ?b = Inr r" "sc_origin (bo_sched r) = Some sample_origin" "bo_budgets r = []" by blast
  obtain m0 where m0: "NewManager [sample_hook] = Some m0" by (simp add: NewManager_def)
  let ?start = "startProcess (\<lambda>_. False) r []"
  let ?p = "?start \<lparr> px_main := AwaitingSends \<rparr>"
  have run: "running ?start" "running ?p"
    using runWorker_store(5) [OF r(1) load] by (simp_all add: running_def exited_def startProcess_def Start_def Let_def)
  have "px_main ?start = Serving" by (simp add: startProcess_def)
  with run(1) have "process_step origin_env Signal ?start = Some ?p" by (simp add: process_step_def main_step_def)
  from process_more [OF process_init this] have "process_reach origin_env ?start ?p" .
  moreover have "bt_files ?b path = []" "statusPath ?b = statusPath sample_boot" "statusPath sample_boot \<noteq> ''''" for path
    by (simp_all add: statusPath_def origin_boot_def sample_boot_def)
  ultimately have p: "process_of ?b (\<lambda>_. False) origin_env r ?p"
    using r by (simp add: process_of_def origin_env_def)
  have step: "process_step origin_env SendsAwaited ?p = Some (?p \<lparr> px_main := Saving \<rparr>)"
  proof -
    have "WaitReturns (map_option (\<lambda>m. px_pool ?p) (w_notifier (px_worker ?p)))"
      by (simp add: WaitReturns_def startProcess_def emptyPool_def split: option.split)
    with run(2) show ?thesis by (simp add: process_step_def main_step_def)
  qed
  have "NewManager (cfg_webhooks hook_config) = Some m0" using m0 by (simp only: cfg)
  from shutdown_delivers [OF p load step this] p step m0 show ?thesis by blast
qed

end
